(* ===== verification/Prelude.thy ===== *)
theory Prelude
  imports Main "HOL-Library.Word"
begin

text \<open>
  Shared vocabulary of the development: machine-integer types of the Rust sources, Rust's
  saturating and checked arithmetic, byte encodings of words, results (\<open>Result<T, E>\<close> as a
  sum with \<open>Inl\<close> for \<open>Err\<close>), panics as values, and the generic list lemmas the components use.
\<close>

named_theorems rust_simps \<open>definitions of the Rust primitives, unfolded in component proofs\<close>
named_theorems unat_simps \<open>the values of Rust's arithmetic on words, read as natural numbers\<close>

section \<open>Types\<close>

type_synonym u8 = "8 word"
type_synonym u16 = "16 word"
type_synonym u32 = "32 word"
type_synonym u64 = "64 word"
type_synonym u128 = "128 word"
type_synonym U256 = "256 word"
type_synonym Address = "160 word"
type_synonym B256 = "256 word"
type_synonym bytes = "u8 list"

text \<open>
  A Rust \<open>&str\<close> is its UTF-8 byte sequence; each \<^typ>\<open>char\<close> of a \<^typ>\<open>string\<close> is one byte.
  A \<open>usize\<close> is a \<^typ>\<open>nat\<close>: the sources use it for lengths and indices of values in memory.
\<close>

abbreviation Err :: "'e \<Rightarrow> 'e + 'a" where "Err \<equiv> Inl"
abbreviation Ok :: "'a \<Rightarrow> 'e + 'a" where "Ok \<equiv> Inr"

section \<open>Results\<close>

definition map_err :: "('e \<Rightarrow> 'f) \<Rightarrow> 'e + 'a \<Rightarrow> 'f + 'a" where
  "map_err f r = (case r of Inl e \<Rightarrow> Inl (f e) | Inr x \<Rightarrow> Inr x)"

definition ok_or :: "'e \<Rightarrow> 'a option \<Rightarrow> 'e + 'a" where
  "ok_or e x = (case x of None \<Rightarrow> Inl e | Some v \<Rightarrow> Inr v)"

definition res_bind :: "'e + 'a \<Rightarrow> ('a \<Rightarrow> 'e + 'b) \<Rightarrow> 'e + 'b" where
  "res_bind r f = (case r of Inl e \<Rightarrow> Inl e | Inr x \<Rightarrow> f x)"

lemma map_err_simps [simp]:
  "map_err f (Inl e) = Inl (f e)"
  "map_err f (Inr x) = Inr x"
  by (simp_all add: map_err_def)

lemma map_err_Inr_iff [simp]: "map_err f r = Inr x \<longleftrightarrow> r = Inr x"
  by (cases r) simp_all

lemma map_err_Inl_iff: "map_err f r = Inl e \<longleftrightarrow> (\<exists>e'. r = Inl e' \<and> e = f e')"
  by (cases r) auto

lemma ok_or_simps [simp]:
  "ok_or e None = Inl e"
  "ok_or e (Some v) = Inr v"
  by (simp_all add: ok_or_def)

lemma res_bind_simps [simp]:
  "res_bind (Inl e) f = Inl e"
  "res_bind (Inr x) f = f x"
  by (simp_all add: res_bind_def)

lemma res_bind_Inr_iff: "res_bind r f = Inr y \<longleftrightarrow> (\<exists>x. r = Inr x \<and> f x = Inr y)"
  by (cases r) simp_all

text \<open>\<open>iter().map(f).collect::<Result<Vec<_>, _>>()\<close>: the first error wins.\<close>

fun collect_results :: "('a \<Rightarrow> 'e + 'b) \<Rightarrow> 'a list \<Rightarrow> 'e + 'b list" where
  "collect_results f [] = Inr []"
| "collect_results f (x # xs) =
     (case f x of
        Inl e \<Rightarrow> Inl e
      | Inr y \<Rightarrow> (case collect_results f xs of Inl e \<Rightarrow> Inl e | Inr ys \<Rightarrow> Inr (y # ys)))"

lemma collect_results_length:
  "collect_results f xs = Inr ys \<Longrightarrow> length ys = length xs"
  by (induction xs arbitrary: ys) (auto split: sum.splits)

lemma collect_results_nth:
  assumes "collect_results f xs = Inr ys" and "i < length xs"
  shows "f (xs ! i) = Inr (ys ! i)"
  using assms
proof (induction xs arbitrary: ys i)
  case Nil
  then show ?case by simp
next
  case (Cons x xs)
  then obtain y zs where "f x = Inr y" "collect_results f xs = Inr zs" "ys = y # zs"
    by (auto split: sum.splits)
  with Cons show ?case by (cases i) auto
qed

section \<open>Panics\<close>

text \<open>
  An operation that may panic returns an \<open>outcome\<close>; \<open>Panics\<close> is an out-of-range slice, an
  \<open>expect\<close> on an error or a failed \<open>assert!\<close>.
\<close>

datatype 'a outcome = Panics | Returns 'a

definition out_bind :: "'a outcome \<Rightarrow> ('a \<Rightarrow> 'b outcome) \<Rightarrow> 'b outcome" where
  "out_bind r f = (case r of Panics \<Rightarrow> Panics | Returns x \<Rightarrow> f x)"

lemma out_bind_simps [simp]:
  "out_bind Panics f = Panics"
  "out_bind (Returns x) f = f x"
  by (simp_all add: out_bind_def)

text \<open>\<open>xs.get(..n)\<close>, \<open>xs.get(n..)\<close> return \<open>None\<close> out of range; \<open>&xs[n..]\<close> panics.\<close>

definition get_to :: "'a list \<Rightarrow> nat \<Rightarrow> 'a list option" where
  "get_to xs n = (if n \<le> length xs then Some (take n xs) else None)"

definition get_from :: "'a list \<Rightarrow> nat \<Rightarrow> 'a list option" where
  "get_from xs n = (if n \<le> length xs then Some (drop n xs) else None)"

definition slice_from :: "'a list \<Rightarrow> nat \<Rightarrow> 'a list outcome" where
  "slice_from xs n = (if n \<le> length xs then Returns (drop n xs) else Panics)"

definition get_at :: "'a list \<Rightarrow> nat \<Rightarrow> 'a option" where
  "get_at xs i = (if i < length xs then Some (xs ! i) else None)"

lemmas slice_defs = get_to_def get_from_def slice_from_def get_at_def

section \<open>Saturating and checked arithmetic\<close>

definition sat_add :: "'a::len word \<Rightarrow> 'a word \<Rightarrow> 'a word" where
  "sat_add a b = (if b \<le> - 1 - a then a + b else - 1)"

definition sat_sub :: "'a::len word \<Rightarrow> 'a word \<Rightarrow> 'a word" where
  "sat_sub a b = (if b \<le> a then a - b else 0)"

definition sat_mul :: "'a::len word \<Rightarrow> 'a word \<Rightarrow> 'a word" where
  "sat_mul a b = (if unat a * unat b \<le> unat (- 1 :: 'a word) then a * b else - 1)"

definition checked_add :: "'a::len word \<Rightarrow> 'a word \<Rightarrow> 'a word option" where
  "checked_add a b = (if b \<le> - 1 - a then Some (a + b) else None)"

definition checked_mul :: "'a::len word \<Rightarrow> 'a word \<Rightarrow> 'a word option" where
  "checked_mul a b = (if unat a * unat b \<le> unat (- 1 :: 'a word) then Some (a * b) else None)"

lemma unat_minus_one_eq: "unat (- 1 :: 'a::len word) = 2 ^ LENGTH('a) - 1"
  by (simp add: unsigned_minus_1_eq_mask mask_eq_exp_minus_1)

lemma le_max_minus_iff:
  "b \<le> - 1 - a \<longleftrightarrow> unat a + unat b < 2 ^ LENGTH('a)" for a b :: "'a::len word"
proof -
  have le: "a \<le> - 1" by simp
  have "unat (- 1 - a) = 2 ^ LENGTH('a) - 1 - unat a"
    using unat_sub [OF le] by (simp add: unat_minus_one_eq)
  moreover have "unat a < 2 ^ LENGTH('a)" by (rule unsigned_less)
  ultimately show ?thesis unfolding word_le_nat_alt by linarith
qed

lemma unat_sat_add [unat_simps]:
  "unat (sat_add a b) = min (unat a + unat b) (2 ^ LENGTH('a) - 1)" for a b :: "'a::len word"
  by (auto simp: sat_add_def le_max_minus_iff unat_minus_one_eq unat_word_ariths min_def)

lemma unat_sat_sub [unat_simps]:
  "unat (sat_sub a b) = unat a - unat b" for a b :: "'a::len word"
  by (auto simp: sat_sub_def word_le_nat_alt unat_sub)

lemma unat_sat_mul [unat_simps]:
  "unat (sat_mul a b) = min (unat a * unat b) (2 ^ LENGTH('a) - 1)" for a b :: "'a::len word"
proof (cases "unat a * unat b \<le> unat (- 1 :: 'a word)")
  case True
  then have "unat a * unat b < 2 ^ LENGTH('a)"
    using unsigned_less [of "- 1 :: 'a word", where ?'a = nat] by linarith
  with True show ?thesis
    by (simp add: sat_mul_def unat_word_ariths unat_minus_one_eq)
next
  case False
  then show ?thesis by (simp add: sat_mul_def unat_minus_one_eq)
qed

lemma checked_add_eq_Some:
  "checked_add a b = Some c \<longleftrightarrow> unat a + unat b < 2 ^ LENGTH('a) \<and> c = a + b"
  for a b :: "'a::len word"
  by (auto simp: checked_add_def le_max_minus_iff)

lemma unat_max [unat_simps]: "unat (max a b) = max (unat a) (unat b)" for a b :: "'a::len word"
  by (simp add: max_def word_le_nat_alt)

lemma unat_min [unat_simps]: "unat (min a b) = min (unat a) (unat b)" for a b :: "'a::len word"
  by (simp add: min_def word_le_nat_alt)

lemma unat_ucast_up:
  "LENGTH('a) \<le> LENGTH('b) \<Longrightarrow> unat (ucast (a :: 'a::len word) :: 'b::len word) = unat a"
  by (simp add: unsigned_ucast_eq take_bit_nat_eq_self order_less_le_trans [OF unsigned_less])

section \<open>Byte encodings of words\<close>

fun to_le_bytes :: "nat \<Rightarrow> 'a::len word \<Rightarrow> bytes" where
  "to_le_bytes 0 w = []"
| "to_le_bytes (Suc n) w = ucast w # to_le_bytes n (drop_bit 8 w)"

fun from_le_bytes :: "bytes \<Rightarrow> 'a::len word" where
  "from_le_bytes [] = 0"
| "from_le_bytes (b # bs) = ucast b + 256 * from_le_bytes bs"

definition to_be_bytes :: "nat \<Rightarrow> 'a::len word \<Rightarrow> bytes" where
  "to_be_bytes n w = rev (to_le_bytes n w)"

definition from_be_bytes :: "bytes \<Rightarrow> 'a::len word" where
  "from_be_bytes bs = from_le_bytes (rev bs)"

lemma length_to_le_bytes [simp]: "length (to_le_bytes n w) = n"
  by (induction n arbitrary: w) simp_all

lemma length_to_be_bytes [simp]: "length (to_be_bytes n w) = n"
  by (simp add: to_be_bytes_def)

lemma unat_low_byte: "unat (ucast (w :: 'a::len word) :: u8) = unat w mod 256"
  by (simp add: unsigned_ucast_eq take_bit_eq_mod)

lemma unat_drop_byte: "unat (drop_bit 8 (w :: 'a::len word)) = unat w div 256"
  unfolding unat_drop_bit_eq by (simp add: drop_bit_eq_div)

text \<open>The little-endian value of a byte list, before it is truncated to a word.\<close>

fun le_value :: "bytes \<Rightarrow> nat" where
  "le_value [] = 0"
| "le_value (b # bs) = unat b + 256 * le_value bs"

lemma le_value_to_le_bytes: "le_value (to_le_bytes n w) = unat w mod 256 ^ n"
proof (induction n arbitrary: w)
  case 0
  then show ?case by simp
next
  case (Suc n)
  have "unat w mod 256 + 256 * (unat w div 256 mod 256 ^ n) = unat w mod (256 * 256 ^ n)"
    by (metis mod_mult2_eq add.commute)
  then show ?case by (simp add: Suc unat_low_byte unat_drop_byte)
qed

lemma from_le_bytes_value: "from_le_bytes bs = (of_nat (le_value bs) :: 'a::len word)"
  by (induction bs) (simp_all add: unsigned_of_nat)

lemma from_to_le_bytes [simp]:
  assumes "LENGTH('a) \<le> 8 * n"
  shows "from_le_bytes (to_le_bytes n w) = (w :: 'a::len word)"
proof -
  have "unat w < 2 ^ LENGTH('a)" by (rule unsigned_less)
  also have "(2::nat) ^ LENGTH('a) \<le> 2 ^ (8 * n)" using assms by simp
  also have "(2::nat) ^ (8 * n) = 256 ^ n" by (simp add: power_mult)
  finally have "unat w mod 256 ^ n = unat w" by simp
  then show ?thesis by (simp add: from_le_bytes_value le_value_to_le_bytes)
qed

lemma from_to_be_bytes [simp]:
  "LENGTH('a) \<le> 8 * n \<Longrightarrow> from_be_bytes (to_be_bytes n w) = (w :: 'a::len word)"
  by (simp add: from_be_bytes_def to_be_bytes_def)

lemma le_value_less: "le_value bs < 256 ^ length bs"
proof (induction bs)
  case Nil
  then show ?case by simp
next
  case (Cons b bs)
  have "unat b < 256" using unsigned_less [of b, where ?'a = nat] by simp
  with Cons show ?case by simp
qed

lemma le_value_inject:
  "length xs = length ys \<Longrightarrow> le_value xs = le_value ys \<Longrightarrow> xs = ys"
proof (induction xs ys rule: list_induct2)
  case Nil
  then show ?case by simp
next
  case (Cons x xs y ys)
  have b: "unat x < 256" "unat y < 256"
    using unsigned_less [of x, where ?'a = nat] unsigned_less [of y, where ?'a = nat] by simp_all
  from Cons.prems have eq: "unat x + 256 * le_value xs = unat y + 256 * le_value ys" by simp
  then have "(unat x + 256 * le_value xs) mod 256 = (unat y + 256 * le_value ys) mod 256" by simp
  then have xy: "unat x = unat y" using b by simp
  with eq Cons.IH have "xs = ys" by simp
  with xy show ?case by (simp add: word_unat_eq_iff)
qed

lemma to_from_le_bytes:
  assumes "length bs = n" and "8 * n \<le> LENGTH('a)"
  shows "to_le_bytes n (from_le_bytes bs :: 'a::len word) = bs"
proof -
  have lt: "le_value bs < 256 ^ n" using le_value_less [of bs] assms(1) by simp
  also have "(256 :: nat) ^ n = 2 ^ (8 * n)" by (simp add: power_mult)
  also have "\<dots> \<le> 2 ^ LENGTH('a)" using assms(2) by simp
  finally have "unat (from_le_bytes bs :: 'a word) = le_value bs"
    by (simp add: from_le_bytes_value unat_of_nat)
  with lt have "le_value (to_le_bytes n (from_le_bytes bs :: 'a word)) = le_value bs"
    by (simp add: le_value_to_le_bytes)
  then show ?thesis by (rule le_value_inject [rotated]) (simp add: assms(1))
qed

lemma to_from_be_bytes:
  "length bs = n \<Longrightarrow> 8 * n \<le> LENGTH('a) \<Longrightarrow> to_be_bytes n (from_be_bytes bs :: 'a::len word) = bs"
  by (simp add: to_be_bytes_def from_be_bytes_def to_from_le_bytes)

section \<open>Encodings with a decoder\<close>

text \<open>
  The contract of every encoding of the sources: a decoder that inverts it on its image and a
  fixed width. Clients use injectivity and unique splitting of concatenations.
\<close>

locale fixed_codec =
  fixes enc :: "'a \<Rightarrow> 'b list"
    and dec :: "'b list \<Rightarrow> 'a"
    and width :: nat
  assumes dec_enc: "dec (enc x) = x"
    and enc_width: "length (enc x) = width"
begin

lemma enc_inject: "enc x = enc y \<longleftrightarrow> x = y"
  by (metis dec_enc)

lemma enc_append_inject: "enc x @ xs = enc y @ ys \<longleftrightarrow> x = y \<and> xs = ys"
  by (auto simp: enc_width append_eq_append_conv enc_inject)

lemma append_enc_inject: "xs @ enc x = ys @ enc y \<longleftrightarrow> xs = ys \<and> x = y"
  by (auto simp: enc_width append_eq_append_conv enc_inject)

end

interpretation u64_le: fixed_codec "to_le_bytes 8 :: u64 \<Rightarrow> bytes" from_le_bytes 8
  by unfold_locales simp_all

interpretation u64_be: fixed_codec "to_be_bytes 8 :: u64 \<Rightarrow> bytes" from_be_bytes 8
  by unfold_locales simp_all

interpretation u16_be: fixed_codec "to_be_bytes 2 :: u16 \<Rightarrow> bytes" from_be_bytes 2
  by unfold_locales simp_all

interpretation u256_be: fixed_codec "to_be_bytes 32 :: U256 \<Rightarrow> bytes" from_be_bytes 32
  by unfold_locales simp_all

interpretation address_be: fixed_codec "to_be_bytes 20 :: Address \<Rightarrow> bytes" from_be_bytes 20
  by unfold_locales simp_all

end
