(* ===== verification/Hex.thy ===== *)
theory Hex
  imports Prelude
begin

text \<open>
  Hex and QUANTITY formatting (\<^verbatim>\<open>crates/evm-types/src/lib.rs\<close>) over byte strings, together
  with the pieces of Rust's standard library the functions use: \<open>str::trim\<close>,
  \<open>trim_start_matches\<close>, \<open>from_str_radix(_, 16)\<close> and the \<open>{:x}\<close> format.
\<close>

section \<open>Rust string primitives\<close>

abbreviation code_of_char :: "char \<Rightarrow> nat" where "code_of_char c \<equiv> of_char c"

definition ascii :: "string \<Rightarrow> bytes" where
  "ascii s = map of_char s"

text \<open>The UTF-8 encodings of the code points with the Unicode property \<open>White_Space\<close>.\<close>

definition whitespace :: "nat list list" where
  "whitespace =
     [[9], [10], [11], [12], [13], [32], [194, 133], [194, 160], [225, 154, 128],
      [226, 128, 128], [226, 128, 129], [226, 128, 130], [226, 128, 131], [226, 128, 132],
      [226, 128, 133], [226, 128, 134], [226, 128, 135], [226, 128, 136], [226, 128, 137],
      [226, 128, 138], [226, 128, 168], [226, 128, 169], [226, 128, 175], [226, 129, 159],
      [227, 128, 128]]"

definition leading_ws :: "string \<Rightarrow> nat list option" where
  "leading_ws s = find (\<lambda>w. take (length w) (map of_char s) = w) whitespace"

definition trailing_ws :: "string \<Rightarrow> nat list option" where
  "trailing_ws s =
     find (\<lambda>w. length w \<le> length s \<and> drop (length s - length w) (map of_char s) = w) whitespace"

lemma whitespace_nonempty: "w \<in> set whitespace \<Longrightarrow> 0 < length w"
  by (auto simp: whitespace_def)

lemma leading_ws_length: "leading_ws s = Some w \<Longrightarrow> 0 < length w \<and> length w \<le> length s"
proof -
  assume "leading_ws s = Some w"
  then have "w \<in> set whitespace" and "take (length w) (map of_char s) = w"
    by (auto simp: leading_ws_def find_Some_iff)
  then show ?thesis
    using whitespace_nonempty [of w] by (metis length_map length_take min.cobounded1)
qed

lemma trailing_ws_length: "trailing_ws s = Some w \<Longrightarrow> 0 < length w \<and> length w \<le> length s"
  by (auto simp: trailing_ws_def find_Some_iff dest: whitespace_nonempty [OF nth_mem])

function trim_start :: "string \<Rightarrow> string" where
  "trim_start s = (case leading_ws s of None \<Rightarrow> s | Some w \<Rightarrow> trim_start (drop (length w) s))"
  by pat_completeness auto
termination
proof (relation "measure length")
  fix s w assume "leading_ws s = Some w"
  from leading_ws_length [OF this] show "(drop (length w) s, s) \<in> measure length"
    by (cases w) auto
qed simp

function trim_end :: "string \<Rightarrow> string" where
  "trim_end s =
     (case trailing_ws s of None \<Rightarrow> s | Some w \<Rightarrow> trim_end (take (length s - length w) s))"
  by pat_completeness auto
termination
proof (relation "measure length")
  fix s w assume "trailing_ws s = Some w"
  from trailing_ws_length [OF this]
  show "(take (length s - length w) s, s) \<in> measure length" by (cases w) auto
qed simp

definition trim :: "string \<Rightarrow> string" where
  "trim s = trim_end (trim_start s)"

declare trim_start.simps [simp del] trim_end.simps [simp del]

text \<open>\<open>trim_start_matches("0x")\<close> removes the prefix as often as it occurs.\<close>

fun trim_0x :: "string \<Rightarrow> string" where
  "trim_0x (a # b # s) = (if a = CHR ''0'' \<and> b = CHR ''x'' then trim_0x s else a # b # s)"
| "trim_0x s = s"

definition to_digit16 :: "char \<Rightarrow> nat option" where
  "to_digit16 c =
     (let n = code_of_char c in
      if 48 \<le> n \<and> n \<le> 57 then Some (n - 48)
      else if 97 \<le> n \<and> n \<le> 102 then Some (n - 87)
      else if 65 \<le> n \<and> n \<le> 70 then Some (n - 55)
      else None)"

fun radix16_digits :: "nat \<Rightarrow> nat \<Rightarrow> string \<Rightarrow> nat option" where
  "radix16_digits maxv acc [] = Some acc"
| "radix16_digits maxv acc (c # cs) =
     (case to_digit16 c of
        None \<Rightarrow> None
      | Some d \<Rightarrow> (if acc * 16 + d \<le> maxv then radix16_digits maxv (acc * 16 + d) cs else None))"

text \<open>
  \<open>from_str_radix(s, 16)\<close> of an unsigned type with largest value \<open>maxv\<close>: an empty string and a
  lone sign are errors, one leading plus sign is accepted, a minus sign is not a digit.
\<close>

definition from_str_radix16 :: "nat \<Rightarrow> string \<Rightarrow> nat option" where
  "from_str_radix16 maxv s =
     (case s of
        [] \<Rightarrow> None
      | [c] \<Rightarrow> (if c = CHR ''+'' \<or> c = CHR ''-'' then None else radix16_digits maxv 0 [c])
      | c # cs \<Rightarrow> radix16_digits maxv 0 (if c = CHR ''+'' then cs else s))"

text \<open>\<open>from_utf8\<close> of a two-byte chunk: two ASCII bytes or one two-byte code point.\<close>

definition utf8_pair :: "char \<Rightarrow> char \<Rightarrow> bool" where
  "utf8_pair a b =
     (let x = code_of_char a; y = code_of_char b in
      (x < 128 \<and> y < 128) \<or> (194 \<le> x \<and> x \<le> 223 \<and> 128 \<le> y \<and> y \<le> 191))"

definition hex_digits :: string where
  "hex_digits = ''0123456789abcdef''"

text \<open>The \<open>{:x}\<close> format: minimal lowercase hex.\<close>

fun lower_hex :: "nat \<Rightarrow> string" where
  "lower_hex n = (if n < 16 then [hex_digits ! n]
                  else lower_hex (n div 16) @ [hex_digits ! (n mod 16)])"

declare lower_hex.simps [simp del]

text \<open>Zero padding to a width, as in \<open>{:016x}\<close> and \<open>{:064x}\<close>.\<close>

definition pad_zero :: "nat \<Rightarrow> string \<Rightarrow> string" where
  "pad_zero n s = replicate (n - length s) CHR ''0'' @ s"

section \<open>The codec\<close>

datatype HexError = OddLength | InvalidChar | InvalidLength nat nat

fun hex_encode :: "bytes \<Rightarrow> string" where
  "hex_encode [] = []"
| "hex_encode (b # bs) =
     hex_digits ! unat (drop_bit 4 b) # hex_digits ! unat (take_bit 4 b) # hex_encode bs"

definition hex_prefixed :: "bytes \<Rightarrow> string" where
  "hex_prefixed bs = ''0x'' @ hex_encode bs"

fun decode_chunks :: "string \<Rightarrow> HexError + bytes" where
  "decode_chunks [] = Inr []"
| "decode_chunks [c] = Inl InvalidChar"
| "decode_chunks (a # b # s) =
     (if \<not> utf8_pair a b then Inl InvalidChar
      else case from_str_radix16 255 [a, b] of
          None \<Rightarrow> Inl InvalidChar
        | Some v \<Rightarrow> (case decode_chunks s of Inl e \<Rightarrow> Inl e | Inr bs \<Rightarrow> Inr (of_nat v # bs)))"

definition hex_decode :: "string \<Rightarrow> HexError + bytes" where
  "hex_decode hex0 =
     (let hex = trim_0x (trim hex0) in
      if \<not> even (length hex) then Inl OddLength else decode_chunks hex)"

definition hex_decode32 :: "string \<Rightarrow> HexError + bytes" where
  "hex_decode32 hex =
     (case hex_decode hex of
        Inl e \<Rightarrow> Inl e
      | Inr bs \<Rightarrow> (if length bs = 32 then Inr bs else Inl (InvalidLength 32 (length bs))))"

definition quantity_u64 :: "u64 \<Rightarrow> string" where
  "quantity_u64 v = ''0x'' @ lower_hex (unat v)"

definition quantity_u256 :: "U256 \<Rightarrow> string" where
  "quantity_u256 v = ''0x'' @ lower_hex (unat v)"

definition bytes32_hex :: "U256 \<Rightarrow> string" where
  "bytes32_hex v = ''0x'' @ pad_zero 64 (lower_hex (unat v))"

section \<open>Trimming\<close>

definition graphic :: "char \<Rightarrow> bool" where
  "graphic c \<longleftrightarrow> 33 \<le> code_of_char c \<and> code_of_char c < 128"

lemma whitespace_not_graphic: "w \<in> set whitespace \<Longrightarrow> x \<in> set w \<Longrightarrow> \<not> (33 \<le> x \<and> x < 128)"
  by (auto simp: whitespace_def)

lemma whitespace_not_within:
  assumes "w \<in> set whitespace" and "set w \<subseteq> of_char ` set s"
  shows "\<exists>c\<in>set s. \<not> graphic c"
proof -
  obtain x where "x \<in> set w" using whitespace_nonempty [OF assms(1)] by (cases w) auto
  with assms(2) obtain c where "c \<in> set s" "x = of_char c" by auto
  with whitespace_not_graphic [OF assms(1) \<open>x \<in> set w\<close>] show ?thesis
    by (auto simp: graphic_def)
qed

lemma trim_graphic:
  assumes "\<forall>c\<in>set s. graphic c"
  shows "trim s = s"
proof -
  have "leading_ws s = None"
    unfolding leading_ws_def find_None_iff
    using whitespace_not_within assms by (metis set_map set_take_subset)
  moreover have "trailing_ws s = None"
    unfolding trailing_ws_def find_None_iff
    using whitespace_not_within assms by (metis set_map set_drop_subset)
  ultimately show ?thesis by (simp add: trim_def trim_start.simps [of s] trim_end.simps [of s])
qed

lemma trim_0x_id: "CHR ''x'' \<notin> set s \<Longrightarrow> trim_0x s = s"
  by (induction s rule: trim_0x.induct) auto

section \<open>Digits\<close>

lemma hex_digit_cases:
  assumes "n < 16"
  shows "n \<in> {0 :: nat, 1, 2, 3, 4, 5, 6, 7, 8, 9, 10, 11, 12, 13, 14, 15}"
  using assms by simp presburger

lemma to_digit16_hex_digit: "n < 16 \<Longrightarrow> to_digit16 (hex_digits ! n) = Some n"
  by (drule hex_digit_cases, elim insertE emptyE) (simp_all add: hex_digits_def to_digit16_def Let_def)

lemma hex_digit_graphic: "n < 16 \<Longrightarrow> graphic (hex_digits ! n)"
  by (drule hex_digit_cases, elim insertE emptyE) (simp_all add: hex_digits_def graphic_def)

lemma hex_digit_neq:
  assumes "n < 16"
  shows "hex_digits ! n \<noteq> CHR ''x''" and "hex_digits ! n \<noteq> CHR ''+''"
    and "hex_digits ! n \<noteq> CHR ''-''"
  using to_digit16_hex_digit [OF assms]
  by (auto simp: to_digit16_def)

lemma hex_digit_inject:
  "m < 16 \<Longrightarrow> n < 16 \<Longrightarrow> hex_digits ! m = hex_digits ! n \<longleftrightarrow> m = n"
  by (metis to_digit16_hex_digit option.inject)

lemmas hex_digit_facts = to_digit16_hex_digit hex_digit_graphic hex_digit_neq hex_digit_inject

lemma unat_high_nibble: "unat (drop_bit 4 (b :: u8)) = unat b div 16"
  unfolding unat_drop_bit_eq by (simp add: drop_bit_eq_div)

lemma unat_low_nibble: "unat (take_bit 4 (b :: u8)) = unat b mod 16"
  unfolding unsigned_take_bit_eq by (simp add: take_bit_eq_mod)

lemma byte_div16: "unat (b :: u8) div 16 < 16"
  using unsigned_less [of b, where ?'a = nat] by (simp add: div_less_iff_less_mult)

lemmas nibble_facts = unat_high_nibble unat_low_nibble byte_div16

section \<open>Round trips of the byte codec\<close>

lemma hex_encode_graphic: "c \<in> set (hex_encode bs) \<Longrightarrow> graphic c \<and> c \<noteq> CHR ''x''"
  by (induction bs) (auto simp: nibble_facts hex_digit_facts)

lemma length_hex_encode [simp]: "length (hex_encode bs) = 2 * length bs"
  by (induction bs) auto

lemma hex_encode_append: "hex_encode (xs @ ys) = hex_encode xs @ hex_encode ys"
  by (induction xs) auto

lemma from_str_radix16_pair:
  assumes "m < 16" and "n < 16"
  shows "from_str_radix16 255 [hex_digits ! m, hex_digits ! n] = Some (16 * m + n)"
  using assms by (simp add: from_str_radix16_def hex_digit_facts mult.commute)

lemma decode_chunks_hex_encode: "decode_chunks (hex_encode bs) = Inr bs"
proof (induction bs)
  case Nil
  then show ?case by simp
next
  case (Cons b bs)
  let ?h = "unat b div 16" and ?l = "unat b mod 16"
  have "utf8_pair (hex_digits ! ?h) (hex_digits ! ?l)"
    using hex_digit_graphic [of ?h] hex_digit_graphic [of ?l] byte_div16 [of b]
    by (simp add: utf8_pair_def graphic_def)
  then show ?case
    using Cons by (simp add: nibble_facts from_str_radix16_pair)
qed

lemma hex_decode_encode_aux:
  "hex_decode (hex_encode bs) = Inr bs" "hex_decode (hex_prefixed bs) = Inr bs"
proof -
  have t: "trim (hex_encode bs) = hex_encode bs" "trim_0x (hex_encode bs) = hex_encode bs"
    by (auto intro!: trim_graphic trim_0x_id dest: hex_encode_graphic)
  have "trim (hex_prefixed bs) = hex_prefixed bs"
    by (rule trim_graphic) (auto simp: hex_prefixed_def graphic_def dest: hex_encode_graphic)
  then show "hex_decode (hex_encode bs) = Inr bs" "hex_decode (hex_prefixed bs) = Inr bs"
    using t by (simp_all add: hex_decode_def decode_chunks_hex_encode hex_prefixed_def)
qed

section \<open>Number formatting\<close>

lemma radix16_digits_snoc:
  "radix16_digits maxv acc (cs @ [c]) =
     (case radix16_digits maxv acc cs of
        None \<Rightarrow> None
      | Some v \<Rightarrow> (case to_digit16 c of
            None \<Rightarrow> None
          | Some d \<Rightarrow> (if v * 16 + d \<le> maxv then Some (v * 16 + d) else None)))"
  by (induction cs arbitrary: acc) (auto split: option.splits)

lemma radix16_lower_hex: "n \<le> maxv \<Longrightarrow> radix16_digits maxv 0 (lower_hex n) = Some n"
proof (induction n rule: lower_hex.induct)
  case (1 n)
  show ?case
  proof (cases "n < 16")
    case True
    with "1.prems" show ?thesis by (subst lower_hex.simps) (simp add: hex_digit_facts)
  next
    case False
    have "n div 16 \<le> maxv" using "1.prems" by (meson div_le_dividend order.trans)
    with "1.IH" [OF False] have "radix16_digits maxv 0 (lower_hex (n div 16)) = Some (n div 16)"
      by simp
    moreover have "n div 16 * 16 + n mod 16 = n" by (rule div_mult_mod_eq)
    ultimately show ?thesis
      using False "1.prems"
      by (subst lower_hex.simps) (simp add: radix16_digits_snoc hex_digit_facts)
  qed
qed

lemma lower_hex_nonempty: "lower_hex n \<noteq> []"
  by (subst lower_hex.simps) simp

lemma lower_hex_set: "c \<in> set (lower_hex n) \<Longrightarrow> \<exists>d<16. c = hex_digits ! d"
proof (induction n rule: lower_hex.induct)
  case (1 n)
  show ?case
  proof (cases "n < 16")
    case True
    with "1.prems" show ?thesis by (subst (asm) lower_hex.simps) auto
  next
    case False
    with "1.prems" consider "c \<in> set (lower_hex (n div 16))" | "c = hex_digits ! (n mod 16)"
      by (subst (asm) lower_hex.simps) auto
    then show ?thesis
    proof cases
      case 1
      then show ?thesis by (rule "1.IH" [OF False])
    next
      case 2
      then show ?thesis by (intro exI [of _ "n mod 16"]) simp
    qed
  qed
qed

lemma lower_hex_no_x: "CHR ''x'' \<notin> set (lower_hex n)"
  using lower_hex_set hex_digit_neq(1) by fastforce

text \<open>Parsing what the formatter prints, through the parser of RPC quantities.\<close>

lemma from_str_radix16_lower_hex:
  assumes "n \<le> maxv"
  shows "from_str_radix16 maxv (lower_hex n) = Some n"
proof -
  obtain c cs where c: "lower_hex n = c # cs" using lower_hex_nonempty by (cases "lower_hex n") auto
  have "c \<noteq> CHR ''+'' \<and> c \<noteq> CHR ''-''"
    using lower_hex_set [of c n] c hex_digit_neq by fastforce
  then show ?thesis
    using radix16_lower_hex [OF assms] c by (cases cs) (simp_all add: from_str_radix16_def)
qed

text \<open>Fixed-width hex, the value of a zero-padded format.\<close>

fun fixed_hex :: "nat \<Rightarrow> nat \<Rightarrow> string" where
  "fixed_hex 0 n = []"
| "fixed_hex (Suc k) n = fixed_hex k (n div 16) @ [hex_digits ! (n mod 16)]"

lemma length_fixed_hex [simp]: "length (fixed_hex k n) = k"
  by (induction k arbitrary: n) auto

lemma fixed_hex_zero: "fixed_hex k 0 = replicate k CHR ''0''"
  by (induction k) (auto simp: hex_digits_def replicate_append_same)

lemma length_lower_hex_le: "n < 16 ^ Suc k \<Longrightarrow> length (lower_hex n) \<le> Suc k"
proof (induction k arbitrary: n)
  case 0
  then show ?case by (subst lower_hex.simps) simp
next
  case (Suc k)
  then have "n div 16 < 16 ^ Suc k" by (simp add: div_less_iff_less_mult)
  with Suc.IH show ?case by (subst lower_hex.simps) simp
qed

lemma pad_zero_lower_hex: "n < 16 ^ Suc k \<Longrightarrow> pad_zero (Suc k) (lower_hex n) = fixed_hex (Suc k) n"
proof (induction k arbitrary: n)
  case 0
  then show ?case by (subst lower_hex.simps) (simp add: pad_zero_def)
next
  case (Suc k)
  show ?case
  proof (cases "n < 16")
    case True
    then show ?thesis
      by (subst lower_hex.simps)
        (simp add: pad_zero_def fixed_hex_zero replicate_append_same [symmetric] hex_digits_def)
  next
    case False
    from Suc.prems have "n div 16 < 16 ^ Suc k" by (simp add: div_less_iff_less_mult)
    then have "pad_zero (Suc k) (lower_hex (n div 16)) = fixed_hex (Suc k) (n div 16)"
      by (rule Suc.IH)
    with False show ?thesis
      by (subst lower_hex.simps) (simp add: pad_zero_def)
  qed
qed

lemma fixed_hex_inject:
  "m < 16 ^ k \<Longrightarrow> n < 16 ^ k \<Longrightarrow> fixed_hex k m = fixed_hex k n \<longleftrightarrow> m = n"
proof (induction k arbitrary: m n)
  case 0
  then show ?case by simp
next
  case (Suc k)
  then have "m div 16 < 16 ^ k" "n div 16 < 16 ^ k" by (simp_all add: div_less_iff_less_mult)
  then have "fixed_hex k (m div 16) = fixed_hex k (n div 16) \<longleftrightarrow> m div 16 = n div 16"
    by (rule Suc.IH)
  moreover have "m = n \<longleftrightarrow> m div 16 = n div 16 \<and> m mod 16 = n mod 16"
    by (metis div_mult_mod_eq)
  ultimately show ?case by (simp add: hex_digit_facts)
qed

lemma to_be_bytes_Suc: "to_be_bytes (Suc k) w = to_be_bytes k (drop_bit 8 w) @ [ucast w]"
  by (simp add: to_be_bytes_def)

lemma hex_encode_to_be_bytes:
  "hex_encode (to_be_bytes k (w :: 'a::len word)) = fixed_hex (2 * k) (unat w)"
proof (induction k arbitrary: w)
  case 0
  then show ?case by (simp add: to_be_bytes_def)
next
  case (Suc k)
  have "unat w mod 256 div 16 = unat w div 16 mod 16"
    using mod_mult2_eq [of "unat w" 16 16] by simp
  moreover have "unat w mod 256 mod 16 = unat w mod 16" by (simp add: mod_mod_cancel)
  moreover have "unat w div 16 div 16 = unat w div 256" by (simp add: div_mult2_eq [symmetric])
  ultimately show ?case
    by (simp add: to_be_bytes_Suc hex_encode_append Suc unat_drop_byte unat_low_byte
        nibble_facts del: to_le_bytes.simps)
qed

lemma hd_lower_hex_zero: "hd (lower_hex n) = CHR ''0'' \<longleftrightarrow> n = 0"
proof (induction n rule: lower_hex.induct)
  case (1 n)
  show ?case
  proof (cases "n < 16")
    case True
    then show ?thesis
      using hex_digit_inject [of n 0] by (subst lower_hex.simps) (simp add: hex_digits_def)
  next
    case False
    with "1.IH" [OF False] show ?thesis
      by (subst lower_hex.simps) (simp add: lower_hex_nonempty hd_append)
  qed
qed

lemma trim_0x_lower_hex: "trim_0x (''0x'' @ lower_hex n) = lower_hex n"
  by (simp add: trim_0x_id lower_hex_no_x)

lemma bytes32_hex_eq: "bytes32_hex v = hex_prefixed (to_be_bytes 32 v)"
proof -
  have "unat v < 16 ^ Suc 63" using unsigned_less [of v, where ?'a = nat] by simp
  then have "pad_zero (Suc 63) (lower_hex (unat v)) = fixed_hex (Suc 63) (unat v)"
    by (rule pad_zero_lower_hex)
  then show ?thesis
    by (simp add: bytes32_hex_def hex_prefixed_def hex_encode_to_be_bytes)
qed

section \<open>Properties\<close>

interpretation hex: fixed_codec
  "\<lambda>w :: U256. hex_encode (to_be_bytes 32 w)" "\<lambda>s. from_be_bytes (projr (hex_decode s))" 64
  by unfold_locales (simp_all add: hex_decode_encode_aux)

text \<open>
  Decoding inverts encoding: \<open>hex_decode\<close> returns the original bytes from the plain and from
  the \<open>0x\<close>-prefixed rendering of every byte string.
\<close>

theorem hex_decode_encode:
  "hex_decode (hex_encode bs) = Inr bs \<and> hex_decode (hex_prefixed bs) = Inr bs"
  by (simp add: hex_decode_encode_aux)

lemma decode_chunks_length:
  "decode_chunks s = Inr bs \<Longrightarrow> length s = 2 * length bs"
  by (induction s arbitrary: bs rule: decode_chunks.induct)
    (auto split: option.splits if_splits sum.splits)

lemma decode_chunks_error: "decode_chunks s = Inl e \<Longrightarrow> e = InvalidChar"
  by (induction s rule: decode_chunks.induct) (auto split: option.splits if_splits sum.splits)

text \<open>
  Every outcome of \<open>hex_decode32\<close>: a success is exactly 32 bytes from exactly 64 digits after
  trimming; \<open>OddLength\<close> is reported exactly for an odd number of digits; a length error reports
  the decoded length, which is not 32; anything else is \<open>InvalidChar\<close>.
\<close>

theorem hex_decode32_outcome:
  "case hex_decode32 s of
     Inr bs \<Rightarrow> length bs = 32 \<and> length (trim_0x (trim s)) = 64
   | Inl OddLength \<Rightarrow> odd (length (trim_0x (trim s)))
   | Inl (InvalidLength w n) \<Rightarrow> w = 32 \<and> n \<noteq> 32 \<and> length (trim_0x (trim s)) = 2 * n
   | Inl InvalidChar \<Rightarrow> even (length (trim_0x (trim s)))"
  by (auto simp: hex_decode32_def hex_decode_def Let_def
      split: sum.splits HexError.splits if_splits
      dest: decode_chunks_length decode_chunks_error)

text \<open>
  QUANTITY rendering is minimal and lossless: parsing the rendered value the way the RPC server
  does gives it back, at most 16 digits are printed, and a leading zero is printed for zero only.
\<close>

theorem quantity_u64_roundtrip:
  "from_str_radix16 (2 ^ 64 - 1) (trim_0x (quantity_u64 v)) = Some (unat v)
   \<and> length (quantity_u64 v) \<le> 18
   \<and> (hd (trim_0x (quantity_u64 v)) = CHR ''0'' \<longleftrightarrow> v = 0)"
proof -
  have lt: "unat v < 2 ^ 64" using unsigned_less [of v, where ?'a = nat] by simp
  then have "length (lower_hex (unat v)) \<le> Suc 15" by (intro length_lower_hex_le) simp
  moreover have "unat v = 0 \<longleftrightarrow> v = 0" by (simp add: unat_eq_zero)
  ultimately show ?thesis
    unfolding quantity_u64_def trim_0x_lower_hex using lt
    by (simp add: from_str_radix16_lower_hex hd_lower_hex_zero)
qed

text \<open>
  A storage word renders as the hex of its 32 big-endian bytes: \<open>0x\<close> and exactly 64 digits.
\<close>

theorem bytes32_hex_is_be_bytes:
  "bytes32_hex v = hex_prefixed (to_be_bytes 32 v) \<and> length (bytes32_hex v) = 66"
  by (simp add: bytes32_hex_eq) (simp add: hex_prefixed_def)

text \<open>
  The decoder is laxer than its documentation (only pairs of hex digits): a plus sign in the
  first position of a pair is accepted, because \<open>u8::from_str_radix\<close> takes a sign.
\<close>

theorem hex_decode_accepts_plus: "hex_decode ''+f'' = Inr [15]"
  by code_simp

end
