(* ===== verification/Precompiles.thy ===== *)
theory Precompiles
  imports Hex
begin

text \<open>
  The post-quantum verification precompiles (\<^verbatim>\<open>crates/move-execution/src/precompiles.rs\<close>):
  the length-prefixed input parser, the fail-closed verify driver, the provider that extends the
  standard set, and the parameters of an EVM instance. The signature schemes live in
  \<^verbatim>\<open>kanari-crypto\<close> and the standard precompiles in \<^verbatim>\<open>revm\<close>; both are arguments here.
\<close>

section \<open>Constants\<close>

definition FALCON512_VERIFY_ADDRESS :: Address where "FALCON512_VERIFY_ADDRESS = 0x100"
definition DILITHIUM3_VERIFY_ADDRESS :: Address where "DILITHIUM3_VERIFY_ADDRESS = 0x101"
definition FALCON512_VERIFY_GAS :: u64 where "FALCON512_VERIFY_GAS = 3000"
definition DILITHIUM3_VERIFY_GAS :: u64 where "DILITHIUM3_VERIFY_GAS = 5000"
definition FALCON512_PUBLIC_KEY_LEN :: nat where "FALCON512_PUBLIC_KEY_LEN = 897"
definition DILITHIUM3_PUBLIC_KEY_LEN :: nat where "DILITHIUM3_PUBLIC_KEY_LEN = 1952"
definition DILITHIUM3_SIGNATURE_LEN :: nat where "DILITHIUM3_SIGNATURE_LEN = 3309"

lemmas pqc_consts = FALCON512_VERIFY_ADDRESS_def DILITHIUM3_VERIFY_ADDRESS_def
  FALCON512_VERIFY_GAS_def DILITHIUM3_VERIFY_GAS_def FALCON512_PUBLIC_KEY_LEN_def
  DILITHIUM3_PUBLIC_KEY_LEN_def DILITHIUM3_SIGNATURE_LEN_def

section \<open>Parsing the input\<close>

text \<open>
  Slices that are bounds-checked with \<open>get\<close> return \<open>None\<close>; the indexing expressions
  \<open>&input[2..]\<close> and \<open>&rest[pubkey_len + 2..]\<close> would panic, so the parser returns an outcome.
\<close>

definition split_u16_prefix :: "bytes \<Rightarrow> (nat \<times> bytes) option outcome" where
  "split_u16_prefix input =
     (case get_to input 2 of
        None \<Rightarrow> Returns None
      | Some len_bytes \<Rightarrow>
          out_bind (slice_from input 2)
            (\<lambda>rest. Returns (Some (unat (from_be_bytes len_bytes :: u16), rest))))"

definition parse_verify_input ::
  "bytes \<Rightarrow> nat \<Rightarrow> nat option \<Rightarrow> (bytes \<times> bytes \<times> bytes) option outcome" where
  "parse_verify_input input expected_pubkey_len expected_sig_len =
     out_bind (split_u16_prefix input) (\<lambda>r. case r of
       None \<Rightarrow> Returns None
     | Some (pubkey_len, rest) \<Rightarrow>
         (case get_from rest pubkey_len of
            None \<Rightarrow> Returns None
          | Some tail \<Rightarrow>
              out_bind (split_u16_prefix tail) (\<lambda>r'. case r' of
                None \<Rightarrow> Returns None
              | Some (msg_len, _) \<Rightarrow>
                  (case get_to rest pubkey_len of
                     None \<Rightarrow> Returns None
                   | Some pubkey \<Rightarrow>
                       if length pubkey \<noteq> expected_pubkey_len then Returns None
                       else out_bind (slice_from rest (pubkey_len + 2)) (\<lambda>after_pubkey.
                         case get_to after_pubkey msg_len of
                           None \<Rightarrow> Returns None
                         | Some msg \<Rightarrow>
                             (case get_from after_pubkey msg_len of
                                None \<Rightarrow> Returns None
                              | Some sig \<Rightarrow>
                                  if sig = [] then Returns None
                                  else if (case expected_sig_len of
                                             None \<Rightarrow> False
                                           | Some expected \<Rightarrow> length sig \<noteq> expected)
                                  then Returns None
                                  else Returns (Some (pubkey, msg, sig))))))))"

section \<open>The verify driver\<close>

datatype PrecompileHalt = OutOfGas

record EthPrecompileOutput =
  po_gas_used :: u64
  po_bytes :: bytes

type_synonym EthPrecompileResult = "(PrecompileHalt + EthPrecompileOutput) outcome"

definition bool_word :: "bool \<Rightarrow> bytes" where
  "bool_word ok = (replicate 32 0)[31 := if ok then 1 else 0]"

definition run_pqc_verify ::
  "bytes \<Rightarrow> u64 \<Rightarrow> u64 \<Rightarrow> nat \<Rightarrow> nat option \<Rightarrow> (bytes \<Rightarrow> bytes \<Rightarrow> bytes \<Rightarrow> bool)
     \<Rightarrow> EthPrecompileResult" where
  "run_pqc_verify input gas_limit cost expected_pubkey_len expected_sig_len verify =
     (if cost > gas_limit then Returns (Inl OutOfGas)
      else out_bind (parse_verify_input input expected_pubkey_len expected_sig_len) (\<lambda>parsed.
        let ok = (case parsed of None \<Rightarrow> False | Some (pubkey, msg, sig) \<Rightarrow> verify pubkey msg sig)
        in Returns (Inr \<lparr>po_gas_used = cost, po_bytes = bool_word ok\<rparr>)))"

text \<open>The \<^verbatim>\<open>kanari-crypto\<close> verifiers take the key as hex and may fail; a failure is \<open>false\<close>.\<close>

type_synonym crypto_verify = "string \<Rightarrow> bytes \<Rightarrow> bytes \<Rightarrow> string + bool"

definition verify_pqc_bytes :: "crypto_verify \<Rightarrow> bytes \<Rightarrow> bytes \<Rightarrow> bytes \<Rightarrow> bool" where
  "verify_pqc_bytes verify_signature pubkey msg sig =
     (case verify_signature (hex_encode pubkey) msg sig of Inl _ \<Rightarrow> False | Inr b \<Rightarrow> b)"

definition verify_falcon512_bytes :: "crypto_verify \<Rightarrow> bytes \<Rightarrow> bytes \<Rightarrow> bytes \<Rightarrow> bool" where
  "verify_falcon512_bytes verify_signature_falcon512 = verify_pqc_bytes verify_signature_falcon512"

definition verify_dilithium3_bytes :: "crypto_verify \<Rightarrow> bytes \<Rightarrow> bytes \<Rightarrow> bytes \<Rightarrow> bool" where
  "verify_dilithium3_bytes verify_signature_dilithium3 =
     verify_pqc_bytes verify_signature_dilithium3"

definition falcon512_verify_run :: "crypto_verify \<Rightarrow> bytes \<Rightarrow> u64 \<Rightarrow> EthPrecompileResult" where
  "falcon512_verify_run V input gas_limit =
     run_pqc_verify input gas_limit FALCON512_VERIFY_GAS FALCON512_PUBLIC_KEY_LEN None
       (verify_falcon512_bytes V)"

definition dilithium3_verify_run :: "crypto_verify \<Rightarrow> bytes \<Rightarrow> u64 \<Rightarrow> EthPrecompileResult" where
  "dilithium3_verify_run V input gas_limit =
     run_pqc_verify input gas_limit DILITHIUM3_VERIFY_GAS DILITHIUM3_PUBLIC_KEY_LEN
       (Some DILITHIUM3_SIGNATURE_LEN) (verify_dilithium3_bytes V)"

section \<open>The provider and the EVM instance\<close>

datatype SpecId = AMSTERDAM | OtherSpec nat

type_synonym Precompile = "bytes \<Rightarrow> u64 \<Rightarrow> EthPrecompileResult"

record PqcEnv =
  pqc_falcon :: crypto_verify
  pqc_dilithium :: crypto_verify
  pqc_standard :: "SpecId \<Rightarrow> Address \<rightharpoonup> Precompile"

record KanariPrecompiles =
  kp_inner :: "Address \<rightharpoonup> Precompile"
  kp_spec :: SpecId

text \<open>\<open>Precompile::new\<close> with a name, an address and the function.\<close>

definition FALCON512_VERIFY_FUN :: "PqcEnv \<Rightarrow> string \<times> Address \<times> Precompile" where
  "FALCON512_VERIFY_FUN P =
     (''KANARI_FALCON512'', FALCON512_VERIFY_ADDRESS, falcon512_verify_run (pqc_falcon P))"

definition DILITHIUM3_VERIFY_FUN :: "PqcEnv \<Rightarrow> string \<times> Address \<times> Precompile" where
  "DILITHIUM3_VERIFY_FUN P =
     (''KANARI_DILITHIUM3'', DILITHIUM3_VERIFY_ADDRESS, dilithium3_verify_run (pqc_dilithium P))"

definition kanari_custom_precompiles :: "PqcEnv \<Rightarrow> (string \<times> Address \<times> Precompile) list" where
  "kanari_custom_precompiles P = [FALCON512_VERIFY_FUN P, DILITHIUM3_VERIFY_FUN P]"

text \<open>\<open>Precompiles::extend\<close> inserts by address and overwrites what is there.\<close>

definition precompiles_new :: "PqcEnv \<Rightarrow> SpecId \<Rightarrow> KanariPrecompiles" where
  "precompiles_new P spec =
     \<lparr>kp_inner = foldl (\<lambda>m (_, a, p). m(a \<mapsto> p)) (pqc_standard P spec) (kanari_custom_precompiles P),
      kp_spec = spec\<rparr>"

definition set_spec :: "PqcEnv \<Rightarrow> KanariPrecompiles \<Rightarrow> SpecId \<Rightarrow> bool \<times> KanariPrecompiles" where
  "set_spec P self spec =
     (if spec = kp_spec self then (False, self) else (True, precompiles_new P spec))"

text \<open>
  \<open>run\<close>: \<open>execute\<close> and \<open>convert\<close> are revm's \<open>Precompile::execute\<close> and
  \<open>precompile_output_to_interpreter_result\<close>.
\<close>

definition precompiles_run ::
  "(Precompile \<Rightarrow> bytes \<Rightarrow> u64 \<Rightarrow> u64 \<Rightarrow> string + 'o) \<Rightarrow> ('o \<Rightarrow> u64 \<Rightarrow> 'r) \<Rightarrow>
     KanariPrecompiles \<Rightarrow> Address \<Rightarrow> bytes \<Rightarrow> u64 \<Rightarrow> u64 \<Rightarrow> string + 'r option" where
  "precompiles_run execute convert self bytecode_address input gas_limit reservoir =
     (case kp_inner self bytecode_address of
        None \<Rightarrow> Inr None
      | Some precompile \<Rightarrow>
          (case execute precompile input gas_limit reservoir of
             Inl e \<Rightarrow> Inl e
           | Inr output \<Rightarrow> Inr (Some (convert output gas_limit))))"

definition warm_addresses :: "KanariPrecompiles \<Rightarrow> Address set" where
  "warm_addresses self = dom (kp_inner self)"

record KanariEvmParams =
  ep_chain_id :: u64
  ep_spec :: SpecId
  ep_number :: u64
  ep_timestamp :: u64
  ep_basefee :: u64
  ep_gas_limit :: u64
  ep_beneficiary :: Address

text \<open>The configuration and block environment of a built EVM; the database is passed beside it.\<close>

record KanariEvm =
  evm_chain_id :: u64
  evm_spec :: SpecId
  evm_number :: U256
  evm_timestamp :: U256
  evm_beneficiary :: Address
  evm_basefee :: u64
  evm_gas_limit :: u64
  evm_difficulty :: U256
  evm_prevrandao :: "B256 option"
  evm_precompiles :: KanariPrecompiles

definition build_kanari_evm :: "PqcEnv \<Rightarrow> KanariEvmParams \<Rightarrow> KanariEvm" where
  "build_kanari_evm P params =
     \<lparr>evm_chain_id = ep_chain_id params, evm_spec = ep_spec params,
      evm_number = ucast (ep_number params), evm_timestamp = ucast (ep_timestamp params),
      evm_beneficiary = ep_beneficiary params, evm_basefee = ep_basefee params,
      evm_gas_limit = ep_gas_limit params, evm_difficulty = 0, evm_prevrandao = Some 0,
      evm_precompiles = precompiles_new P (ep_spec params)\<rparr>"

text \<open>The same EVM with an inspector attached.\<close>

record 'insp KanariTracedEvm = KanariEvm +
  evm_inspector :: 'insp

definition build_kanari_evm_traced :: "PqcEnv \<Rightarrow> KanariEvmParams \<Rightarrow> 'insp \<Rightarrow> 'insp KanariTracedEvm" where
  "build_kanari_evm_traced P params inspector =
     \<lparr>evm_chain_id = ep_chain_id params, evm_spec = ep_spec params,
      evm_number = ucast (ep_number params), evm_timestamp = ucast (ep_timestamp params),
      evm_beneficiary = ep_beneficiary params, evm_basefee = ep_basefee params,
      evm_gas_limit = ep_gas_limit params, evm_difficulty = 0, evm_prevrandao = Some 0,
      evm_precompiles = precompiles_new P (ep_spec params), evm_inspector = inspector\<rparr>"

lemma traced_evm_truncate [simp]:
  "KanariEvm.truncate (build_kanari_evm_traced P params inspector) = build_kanari_evm P params"
  by (simp add: build_kanari_evm_traced_def build_kanari_evm_def KanariEvm.truncate_def)

section \<open>The wire format\<close>

text \<open>The layout the parser documents: \<open>len(pk) || pk || len(msg) || msg || sig\<close>.\<close>

definition encode_verify_input :: "bytes \<Rightarrow> bytes \<Rightarrow> bytes \<Rightarrow> bytes" where
  "encode_verify_input pk msg sig =
     to_be_bytes 2 (of_nat (length pk) :: u16) @ pk
       @ to_be_bytes 2 (of_nat (length msg) :: u16) @ msg @ sig"

definition sig_len_ok :: "nat option \<Rightarrow> bytes \<Rightarrow> bool" where
  "sig_len_ok expected sig \<longleftrightarrow> sig \<noteq> [] \<and> (\<forall>n. expected = Some n \<longrightarrow> length sig = n)"

lemma split_u16_prefix_eq:
  "split_u16_prefix xs =
     Returns (if 2 \<le> length xs then Some (unat (from_be_bytes (take 2 xs) :: u16), drop 2 xs)
              else None)"
  by (simp add: split_u16_prefix_def slice_defs)

lemma u16_prefix_decode:
  assumes "2 \<le> length xs"
  shows "to_be_bytes 2 (of_nat (unat (from_be_bytes (take 2 xs) :: u16)) :: u16) = take 2 xs"
    and "unat (from_be_bytes (take 2 xs) :: u16) < 2 ^ 16"
  using assms unsigned_less [of "from_be_bytes (take 2 xs) :: u16", where ?'a = nat]
  by (simp_all add: to_from_be_bytes)

text \<open>Parsing is total and inverts the layout: soundness, completeness, absence of panics.\<close>

lemma parse_verify_input_returns: "\<exists>r. parse_verify_input input ek es = Returns r"
  by (auto simp: parse_verify_input_def split_u16_prefix_eq slice_defs split: if_splits option.splits)

lemma parse_verify_input_sound:
  assumes "parse_verify_input input ek es = Returns (Some (pk, msg, sig))"
  shows "input = encode_verify_input pk msg sig \<and> length pk = ek \<and> length pk < 2 ^ 16
       \<and> length msg < 2 ^ 16 \<and> sig_len_ok es sig"
proof -
  define rest where "rest = drop 2 input"
  define pl where "pl = unat (from_be_bytes (take 2 input) :: u16)"
  define tail where "tail = drop pl rest"
  define ml where "ml = unat (from_be_bytes (take 2 tail) :: u16)"
  define after where "after = drop (pl + 2) rest"
  from assms have f: "2 \<le> length input" "pl \<le> length rest" "2 \<le> length tail"
      "length (take pl rest) = ek" "ml \<le> length after"
      "pk = take pl rest" "msg = take ml after" "sig = drop ml after" "sig_len_ok es sig"
    unfolding parse_verify_input_def split_u16_prefix_eq slice_defs sig_len_ok_def
      rest_def pl_def tail_def ml_def after_def
    by (auto split: if_splits option.splits)
  have after: "after = drop 2 tail" by (simp add: after_def tail_def add.commute)
  have lens: "length pk = pl" "length msg = ml" using f by auto
  have i: "input = take 2 input @ rest" "rest = pk @ tail" "tail = take 2 tail @ after"
      "after = msg @ sig"
    unfolding rest_def f(6,7,8) by (simp_all only: tail_def rest_def after append_take_drop_id)
  have "input = encode_verify_input pk msg sig"
    unfolding encode_verify_input_def lens
    using u16_prefix_decode(1) [OF f(1)] u16_prefix_decode(1) [OF f(3)] i
    by (metis pl_def ml_def append_assoc)
  then show ?thesis
    using f lens u16_prefix_decode(2) [OF f(1)] u16_prefix_decode(2) [OF f(3)]
    by (simp add: pl_def ml_def)
qed

lemma parse_verify_input_complete:
  assumes "length pk < 2 ^ 16" and "length msg < 2 ^ 16" and "sig_len_ok es sig"
  shows "parse_verify_input (encode_verify_input pk msg sig) (length pk) es
           = Returns (Some (pk, msg, sig))"
proof -
  have l: "unat (of_nat (length pk) :: u16) = length pk" "unat (of_nat (length msg) :: u16) = length msg"
    using assms(1,2) by (simp_all add: unat_of_nat)
  have t: "take 2 (to_be_bytes 2 (w :: u16) @ xs) = to_be_bytes 2 w"
    "drop 2 (to_be_bytes 2 w @ xs) = xs" for w xs by simp_all
  show ?thesis
    using assms(3)
    by (auto simp: parse_verify_input_def encode_verify_input_def split_u16_prefix_eq slice_defs t l
        sig_len_ok_def split: option.splits)
qed

section \<open>Properties\<close>

text \<open>
  C36. The input parser never panics, and it accepts exactly the documented layout: it returns a
  key, a message and a signature if and only if the input is
  \<open>len(pk) || pk || len(msg) || msg || sig\<close> for them, the key has the expected length, both lengths
  fit in 16 bits, and the signature is non-empty and has the expected length where one is fixed.
\<close>

theorem parse_verify_input_exact:
  "parse_verify_input input ek es \<noteq> Panics
   \<and> (parse_verify_input input ek es = Returns (Some (pk, msg, sig)) \<longleftrightarrow>
        input = encode_verify_input pk msg sig \<and> length pk = ek \<and> length pk < 2 ^ 16
        \<and> length msg < 2 ^ 16 \<and> sig_len_ok es sig)"
  using parse_verify_input_returns [of input ek es] parse_verify_input_sound [of input ek es]
    parse_verify_input_complete [of pk msg es sig] by auto

lemma parse_verify_input_exact_aux:
  "parse_verify_input input ek es = Returns (Some (pk, msg, sig)) \<longleftrightarrow>
     input = encode_verify_input pk msg sig \<and> length pk = ek \<and> length pk < 2 ^ 16
     \<and> length msg < 2 ^ 16 \<and> sig_len_ok es sig"
  using parse_verify_input_sound [of input ek es] parse_verify_input_complete [of pk msg es sig]
  by auto

lemma run_pqc_verify_cases:
  obtains (gas) "gas_limit < cost"
      "run_pqc_verify input gas_limit cost ek es verify = Returns (Inl OutOfGas)"
    | (ran) r where "cost \<le> gas_limit" "parse_verify_input input ek es = Returns r"
      "run_pqc_verify input gas_limit cost ek es verify =
         Returns (Inr \<lparr>po_gas_used = cost,
           po_bytes = bool_word (\<exists>pk msg sig. r = Some (pk, msg, sig) \<and> verify pk msg sig)\<rparr>)"
proof (cases "gas_limit < cost")
  case True
  then show ?thesis by (intro gas) (simp_all add: run_pqc_verify_def)
next
  case False
  obtain r where r: "parse_verify_input input ek es = Returns r"
    using parse_verify_input_returns by blast
  show ?thesis
    by (rule ran [of r]) (use False r in \<open>auto simp: run_pqc_verify_def split: option.splits\<close>)
qed

text \<open>
  C37. Both precompiles fail closed. Below the flat price the call halts out of gas; otherwise it
  returns, charges exactly the flat price, and answers the 32-byte word 1 if and only if the input
  is a well-formed \<open>(key, message, signature)\<close> triple that the scheme's verifier accepts; every
  malformed input and every verifier error answers the word 0.
\<close>

theorem pqc_precompiles_fail_closed:
  "falcon512_verify_run V input gl =
     (if gl < 3000 then Returns (Inl OutOfGas)
      else Returns (Inr \<lparr>po_gas_used = 3000, po_bytes = bool_word
        (\<exists>pk msg sig. input = encode_verify_input pk msg sig \<and> length pk = 897
           \<and> length msg < 2 ^ 16 \<and> sig \<noteq> [] \<and> V (hex_encode pk) msg sig = Inr True)\<rparr>))
   \<and> dilithium3_verify_run V input gl =
     (if gl < 5000 then Returns (Inl OutOfGas)
      else Returns (Inr \<lparr>po_gas_used = 5000, po_bytes = bool_word
        (\<exists>pk msg sig. input = encode_verify_input pk msg sig \<and> length pk = 1952
           \<and> length msg < 2 ^ 16 \<and> length sig = 3309 \<and> V (hex_encode pk) msg sig = Inr True)\<rparr>))"
proof -
  have v: "verify_pqc_bytes V pk msg sig \<longleftrightarrow> V (hex_encode pk) msg sig = Inr True" for pk msg sig
    by (auto simp: verify_pqc_bytes_def split: sum.splits)
  have run: "run_pqc_verify input gl cost ek es (verify_pqc_bytes V) =
      (if gl < cost then Returns (Inl OutOfGas)
       else Returns (Inr \<lparr>po_gas_used = cost, po_bytes = bool_word
         (\<exists>pk msg sig. parse_verify_input input ek es = Returns (Some (pk, msg, sig))
            \<and> V (hex_encode pk) msg sig = Inr True)\<rparr>))" for cost ek es
    by (rule run_pqc_verify_cases [of gl cost input ek es "verify_pqc_bytes V"]) (auto simp: v)
  have parse: "parse_verify_input input ek es = Returns (Some (pk, msg, sig)) \<longleftrightarrow>
      input = encode_verify_input pk msg sig \<and> length pk = ek \<and> length msg < 2 ^ 16
      \<and> sig_len_ok es sig" if "ek < 2 ^ 16" for pk msg sig ek es
    using that by (auto simp: parse_verify_input_exact_aux)
  have sl: "sig_len_ok None sig \<longleftrightarrow> sig \<noteq> []" "sig_len_ok (Some 3309) sig \<longleftrightarrow> length sig = 3309"
    for sig by (auto simp: sig_len_ok_def)
  show ?thesis
    unfolding falcon512_verify_run_def dilithium3_verify_run_def verify_falcon512_bytes_def
      verify_dilithium3_bytes_def run
    by (simp add: pqc_consts parse sl conj_assoc)
qed

text \<open>
  The provider adds the two Kanari precompiles to the standard set of every hardfork and leaves
  every other address as the standard set has it; a standard precompile at \<open>0x100\<close> or \<open>0x101\<close>
  is replaced, whatever it is. \<open>set_spec\<close> rebuilds exactly on a change of hardfork.
\<close>

theorem precompiles_new_lookup:
  "kp_inner (precompiles_new P spec) a =
     (if a = 0x100 then Some (falcon512_verify_run (pqc_falcon P))
      else if a = 0x101 then Some (dilithium3_verify_run (pqc_dilithium P))
      else pqc_standard P spec a)
   \<and> warm_addresses (precompiles_new P spec) = dom (pqc_standard P spec) \<union> {0x100, 0x101}
   \<and> set_spec P (precompiles_new P spec) spec' = (spec' \<noteq> spec, precompiles_new P spec')"
  by (auto simp: precompiles_new_def kanari_custom_precompiles_def FALCON512_VERIFY_FUN_def
      DILITHIUM3_VERIFY_FUN_def pqc_consts warm_addresses_def set_spec_def)

end
