(* ===== verification/Gas.thy ===== *)
theory Gas
  imports Prelude
begin

text \<open>
  Gas economics (\<^verbatim>\<open>crates/evm-types/src/gas.rs\<close>): the EIP-1559 base-fee update, the effective
  gas price and the base-fee share of a transaction. Quantities are \<^typ>\<open>u128\<close>, \<^typ>\<open>u64\<close> and
  \<^typ>\<open>U256\<close> words with Rust's saturating operations; the specification side is over \<^typ>\<open>nat\<close>
  with no overflow, and the lemmas show where the two agree.
\<close>

section \<open>Constants and operations\<close>

definition BLOCK_GAS_LIMIT :: u64 where "BLOCK_GAS_LIMIT = 30000000"
definition GENESIS_BASE_FEE_WEI :: u128 where "GENESIS_BASE_FEE_WEI = 1000000000"
definition MIN_BASE_FEE_WEI :: u128 where "MIN_BASE_FEE_WEI = 1"
definition BASE_FEE_MAX_CHANGE_DENOMINATOR :: u128 where "BASE_FEE_MAX_CHANGE_DENOMINATOR = 8"
definition GAS_TARGET_DIVISOR :: u128 where "GAS_TARGET_DIVISOR = 2"

definition calc_next_base_fee :: "u128 \<Rightarrow> u128 \<Rightarrow> u128 \<Rightarrow> u128" where
  "calc_next_base_fee parent_fee_wei gas_used gas_limit =
     (let gas_target = gas_limit div GAS_TARGET_DIVISOR in
      if gas_target = 0 then max parent_fee_wei MIN_BASE_FEE_WEI
      else if gas_used = gas_target then max parent_fee_wei MIN_BASE_FEE_WEI
      else if gas_used > gas_target then
        (let delta = sat_mul parent_fee_wei (gas_used - gas_target)
                       div gas_target div BASE_FEE_MAX_CHANGE_DENOMINATOR
         in max (sat_add parent_fee_wei (max delta 1)) MIN_BASE_FEE_WEI)
      else
        (let delta = sat_mul parent_fee_wei (gas_target - gas_used)
                       div gas_target div BASE_FEE_MAX_CHANGE_DENOMINATOR
         in max (sat_sub parent_fee_wei delta) MIN_BASE_FEE_WEI))"

definition effective_gas_price :: "u128 \<Rightarrow> u128 \<Rightarrow> u128 \<Rightarrow> u128" where
  "effective_gas_price max_fee_per_gas base_fee_wei max_priority_fee_per_gas =
     min max_fee_per_gas (sat_add base_fee_wei max_priority_fee_per_gas)"

definition base_fee_share :: "u64 \<Rightarrow> u128 \<Rightarrow> U256" where
  "base_fee_share gas_used base_fee_wei = sat_mul (ucast gas_used) (ucast base_fee_wei)"

lemmas gas_consts = BLOCK_GAS_LIMIT_def GENESIS_BASE_FEE_WEI_def MIN_BASE_FEE_WEI_def
  BASE_FEE_MAX_CHANGE_DENOMINATOR_def GAS_TARGET_DIVISOR_def

section \<open>The specification without overflow\<close>

text \<open>The EIP-1559 rule on unbounded naturals, with target \<open>t > 0\<close> and a floor of 1 wei.\<close>

definition eip1559_next :: "nat \<Rightarrow> nat \<Rightarrow> nat \<Rightarrow> nat" where
  "eip1559_next f g t =
     (if g > t then f + max 1 (f * (g - t) div t div 8)
      else max 1 (f - f * (t - g) div t div 8))"

lemma unat_calc_next_base_fee:
  assumes t: "unat gas_limit div 2 > 0"
    and small: "unat parent * max (unat gas_used) (unat gas_limit div 2) < 2 ^ 128 - 1"
    and room: "unat parent + max 1 (unat parent * (unat gas_used - unat gas_limit div 2)
                 div (unat gas_limit div 2) div 8) < 2 ^ 128"
  shows "unat (calc_next_base_fee parent gas_used gas_limit)
           = eip1559_next (unat parent) (unat gas_used) (unat gas_limit div 2)"
proof -
  define tw where "tw = gas_limit div GAS_TARGET_DIVISOR"
  define t where "t = unat gas_limit div 2"
  have ut: "unat tw = t" by (simp add: tw_def t_def GAS_TARGET_DIVISOR_def unat_div_distrib)
  have tw0: "tw \<noteq> 0" using assms(1) ut t_def by auto
  have prod: "unat parent * (x - y) < 2 ^ 128 - 1" if "x \<le> max (unat gas_used) t" for x y
  proof -
    have "unat parent * (x - y) \<le> unat parent * max (unat gas_used) t"
      using that by (intro mult_le_mono2) auto
    also have "\<dots> < 2 ^ 128 - 1" using small by (simp only: t_def)
    finally show ?thesis .
  qed
  show ?thesis
  proof (cases "gas_used > tw")
    case True
    then have gt: "unat gas_used > t" by (simp add: ut word_less_nat_alt)
    have "unat (gas_used - tw) = unat gas_used - t"
      using True by (simp add: unat_sub ut less_imp_le)
    then have m: "unat (sat_mul parent (gas_used - tw)) = unat parent * (unat gas_used - t)"
      using prod [of "unat gas_used" t] by (simp add: unat_sat_mul)
    define d where "d = unat parent * (unat gas_used - t) div t div 8"
    have "calc_next_base_fee parent gas_used gas_limit
        = max (sat_add parent (max (sat_mul parent (gas_used - tw) div tw div 8) 1)) 1"
      using True tw0 by (auto simp: calc_next_base_fee_def Let_def tw_def [symmetric]
          MIN_BASE_FEE_WEI_def BASE_FEE_MAX_CHANGE_DENOMINATOR_def)
    then have "unat (calc_next_base_fee parent gas_used gas_limit)
        = max (min (unat parent + max d 1) (2 ^ 128 - 1)) 1"
      by (simp add: unat_max unat_sat_add unat_div_distrib m ut d_def)
    moreover have "unat parent + max 1 d < 2 ^ 128" using room by (simp only: t_def d_def)
    ultimately show ?thesis
      using gt by (simp add: eip1559_next_def t_def [symmetric] d_def [symmetric] max.commute)
  next
    case False
    then have le: "unat gas_used \<le> t" by (simp add: ut word_le_nat_alt not_less)
    have "unat (tw - gas_used) = t - unat gas_used"
      using False by (simp add: unat_sub ut not_less)
    then have m: "unat (sat_mul parent (tw - gas_used)) = unat parent * (t - unat gas_used)"
      using prod [of t "unat gas_used"] by (simp add: unat_sat_mul)
    show ?thesis
    proof (cases "gas_used = tw")
      case True
      then show ?thesis using tw0 ut
        by (simp add: calc_next_base_fee_def Let_def tw_def [symmetric] eip1559_next_def
            t_def [symmetric] unat_max MIN_BASE_FEE_WEI_def max.commute)
    next
      case neq: False
      with False tw0 have "calc_next_base_fee parent gas_used gas_limit
          = max (sat_sub parent (sat_mul parent (tw - gas_used) div tw div 8)) 1"
        by (auto simp: calc_next_base_fee_def Let_def tw_def [symmetric]
            MIN_BASE_FEE_WEI_def BASE_FEE_MAX_CHANGE_DENOMINATOR_def)
      with le show ?thesis
        by (simp add: unat_max unat_sat_sub unat_div_distrib m ut eip1559_next_def
            t_def [symmetric] max.commute)
    qed
  qed
qed

section \<open>Bounds of the rule\<close>

lemma eip1559_next_pos: "1 \<le> eip1559_next f g t"
  by (auto simp: eip1559_next_def max_def)

lemma eip1559_scaled_le:
  fixes f d t :: nat
  assumes "d \<le> t" and "t > 0"
  shows "f * d div t div 8 \<le> f div 8"
proof -
  have "f * d \<le> f * t" using assms(1) by simp
  then have "f * d div t \<le> f * t div t" by (rule div_le_mono)
  then have "f * d div t \<le> f" using assms(2) by simp
  then show ?thesis by (rule div_le_mono)
qed

lemma eip1559_next_step:
  assumes "t > 0" and "g \<le> 2 * t"
  shows "f - f div 8 \<le> eip1559_next f g t \<and> eip1559_next f g t \<le> max 1 (f + max 1 (f div 8))"
proof (cases "g > t")
  case True
  with assms have "f * (g - t) div t div 8 \<le> f div 8"
    by (intro eip1559_scaled_le) auto
  with True show ?thesis by (auto simp: eip1559_next_def)
next
  case False
  with assms have "f * (t - g) div t div 8 \<le> f div 8"
    by (intro eip1559_scaled_le) auto
  with False show ?thesis by (auto simp: eip1559_next_def)
qed

lemma eip1559_next_mono:
  assumes "g \<le> g'" and "f > 0"
  shows "eip1559_next f g t \<le> eip1559_next f g' t"
proof -
  have up: "f * (g - t) div t div 8 \<le> f * (g' - t) div t div 8"
    using assms(1) by (intro div_le_mono mult_le_mono2 diff_le_mono)
  have dn: "f * (t - g') div t div 8 \<le> f * (t - g) div t div 8"
    using assms(1) by (intro div_le_mono mult_le_mono2 diff_le_mono2)
  have down: "f - f * (t - g) div t div 8 \<le> f - f * (t - g') div t div 8"
    using dn by (rule diff_le_mono2)
  show ?thesis
  proof (cases "g' > t")
    case True
    have "max 1 (f - f * (t - g) div t div 8) \<le> f" using assms(2) by simp
    with True up show ?thesis by (auto simp: eip1559_next_def intro: max.mono trans_le_add1)
  next
    case False
    with assms(1) max.mono [OF order.refl down, of 1] show ?thesis
      by (simp add: eip1559_next_def)
  qed
qed

section \<open>Properties of the code\<close>

lemma unat_block_gas_target: "unat (ucast BLOCK_GAS_LIMIT :: u128) div 2 = 15000000"
  by (simp add: BLOCK_GAS_LIMIT_def)

lemma calc_next_base_fee_exact_aux:
  "unat (calc_next_base_fee (ucast (f :: u64)) (ucast (g :: u64)) (ucast BLOCK_GAS_LIMIT))
     = eip1559_next (unat f) (unat g) 15000000"
proof -
  have f: "unat (ucast f :: u128) = unat f" "unat f \<le> 2 ^ 64 - 1"
    using unsigned_less [of f, where ?'a = nat] by (simp_all add: unat_ucast_up)
  have g: "unat (ucast g :: u128) = unat g" "unat g \<le> 2 ^ 64 - 1"
    using unsigned_less [of g, where ?'a = nat] by (simp_all add: unat_ucast_up)
  have fg: "unat f * x \<le> (2 ^ 64 - 1) * (2 ^ 64 - 1)" if "x \<le> 2 ^ 64 - 1" for x
    using f(2) that by (rule mult_le_mono)
  have "unat f * max (unat g) 15000000 < 2 ^ 128 - 1"
    using fg [of "max (unat g) 15000000"] g(2) by simp
  moreover have "unat f * (unat g - 15000000) div 15000000 div 8
      \<le> (2 ^ 64 - 1) * (2 ^ 64 - 1) div 15000000 div 8"
    using fg [of "unat g - 15000000"] g(2) by (intro div_le_mono) simp
  ultimately show ?thesis
    using f g by (subst unat_calc_next_base_fee) (simp_all only: unat_block_gas_target, auto)
qed

lemma unat_base_fee_share: "unat (base_fee_share g f) = unat g * unat f"
proof -
  have g: "unat (ucast g :: U256) = unat g" "unat g \<le> 2 ^ 64"
    using unsigned_less [of g, where ?'a = nat] by (simp_all add: unat_ucast_up)
  have f: "unat (ucast f :: U256) = unat f" "unat f \<le> 2 ^ 128"
    using unsigned_less [of f, where ?'a = nat] by (simp_all add: unat_ucast_up)
  have "unat g * unat f \<le> 2 ^ 64 * 2 ^ 128" using g(2) f(2) by (rule mult_le_mono)
  then show ?thesis by (simp add: base_fee_share_def unat_sat_mul g f)
qed

text \<open>
  C27. The base-fee update is the EIP-1559 rule, exactly. For every head fee and every gas use a
  sealed block can record (both \<open>u64\<close>), with the chain's block gas limit, none of the
  saturating operations of \<open>calc_next_base_fee\<close> saturates: the result is the value of the rule
  over unbounded naturals around the target of 15M gas.
\<close>

theorem calc_next_base_fee_exact:
  "unat (calc_next_base_fee (ucast (f :: u64)) (ucast (g :: u64)) (ucast BLOCK_GAS_LIMIT))
     = eip1559_next (unat f) (unat g) 15000000"
  by (rule calc_next_base_fee_exact_aux)

text \<open>
  C28. One block moves the base fee by at most one eighth (and by at most 1 wei upwards when an
  eighth is less than that), and never to zero: for a block that respects the gas limit the next
  fee lies between \<open>f - f/8\<close> and \<open>f + max 1 (f/8)\<close>, with a floor of 1 wei.
\<close>

theorem calc_next_base_fee_bounds:
  fixes f g :: u64
  assumes "g \<le> BLOCK_GAS_LIMIT"
  shows "let n = unat (calc_next_base_fee (ucast f) (ucast g) (ucast BLOCK_GAS_LIMIT))
         in 1 \<le> n \<and> unat f - unat f div 8 \<le> n \<and> n \<le> max 1 (unat f + max 1 (unat f div 8))"
proof -
  have "unat g \<le> 2 * 15000000"
    using assms by (simp add: word_le_nat_alt BLOCK_GAS_LIMIT_def)
  then show ?thesis
    using eip1559_next_step [of 15000000 "unat g" "unat f"] eip1559_next_pos
    by (simp add: Let_def calc_next_base_fee_exact_aux)
qed

theorem calc_next_base_fee_bounds_witness:
  "let n = unat (calc_next_base_fee (ucast (1000000000 :: u64)) (ucast (30000000 :: u64))
                   (ucast BLOCK_GAS_LIMIT))
   in 1 \<le> n \<and> 875000000 \<le> n \<and> n \<le> 1125000000"
  using calc_next_base_fee_bounds [of 30000000 1000000000]
  by (simp add: BLOCK_GAS_LIMIT_def Let_def)

text \<open>
  Fee pressure is monotone in use: of two blocks under the same positive fee, the fuller one
  never leads to the lower next fee; any use above the 15M target raises the fee strictly and any
  use at or below it never raises it.
\<close>

theorem calc_next_base_fee_monotone:
  fixes f g g' :: u64
  assumes "g \<le> g'" and "0 < f"
  shows "calc_next_base_fee (ucast f) (ucast g) (ucast BLOCK_GAS_LIMIT)
           \<le> calc_next_base_fee (ucast f) (ucast g') (ucast BLOCK_GAS_LIMIT)
       \<and> (15000000 < g \<longleftrightarrow>
            ucast f < calc_next_base_fee (ucast f) (ucast g) (ucast BLOCK_GAS_LIMIT))"
proof -
  have f: "unat f > 0" using assms(2) by (simp add: word_less_nat_alt)
  have gg: "unat g \<le> unat g'" using assms(1) by (simp add: word_le_nat_alt)
  have t: "15000000 < g \<longleftrightarrow> 15000000 < unat g" by (simp add: word_less_nat_alt)
  have raise: "unat f < eip1559_next (unat f) (unat g) 15000000 \<longleftrightarrow> 15000000 < unat g"
    using f by (auto simp: eip1559_next_def)
  show ?thesis
    using eip1559_next_mono [OF gg f, of 15000000] raise t
    by (simp add: word_le_nat_alt word_less_nat_alt [of "ucast f"] calc_next_base_fee_exact_aux
        unat_ucast_up)
qed

theorem calc_next_base_fee_monotone_witness:
  "calc_next_base_fee (ucast (7 :: u64)) (ucast (15000001 :: u64)) (ucast BLOCK_GAS_LIMIT)
     \<le> calc_next_base_fee (ucast (7 :: u64)) (ucast (20000000 :: u64)) (ucast BLOCK_GAS_LIMIT)"
  using calc_next_base_fee_monotone [of 15000001 20000000 7] by simp

text \<open>
  The base-fee share is the exact product \<open>gas_used * base_fee\<close>: the saturating
  multiplication of 256-bit values never saturates on a \<open>u64\<close> and a \<open>u128\<close>.
\<close>

theorem base_fee_share_exact: "unat (base_fee_share g f) = unat g * unat f"
  by (rule unat_base_fee_share)

text \<open>
  What a sender pays per unit of gas: never more than the fee cap; the base fee plus a priority
  share of at most the priority cap; and, when the cap covers the base fee, never less than the
  base fee (so the base-fee share credited at seal time was really paid).
\<close>

theorem effective_gas_price_range:
  "effective_gas_price cap base prio \<le> cap
   \<and> unat (effective_gas_price cap base prio) \<le> unat base + unat prio
   \<and> (base \<le> effective_gas_price cap base prio \<longleftrightarrow> base \<le> cap)"
proof -
  have b: "unat base \<le> 2 ^ 128 - 1"
    using unsigned_less [of base, where ?'a = nat] by simp
  have "unat base \<le> unat (sat_add base prio)" using b by (simp add: unat_sat_add)
  then have "base \<le> sat_add base prio" by (simp add: word_le_nat_alt)
  moreover have "unat (sat_add base prio) \<le> unat base + unat prio" by (simp add: unat_sat_add)
  ultimately show ?thesis
    by (auto simp: effective_gas_price_def unat_min)
qed

end
