(* ===== verification/Chain_Types.thy ===== *)
theory Chain_Types
  imports Precompiles Gas
begin

text \<open>
  The data of the chain: the stored shapes of \<^verbatim>\<open>crates/storage/src/store.rs\<close>, the chain
  specification and node records of \<^verbatim>\<open>crates/move-execution\<close>, and the shapes the sources take
  from \<^verbatim>\<open>alloy\<close> (transaction envelopes) and \<^verbatim>\<open>revm\<close> (accounts, transaction environment,
  execution result). Fields of third-party types that no source line reads are left out; byte
  codes are represented by the bytes they were built from, signatures and signed authorizations
  by their encodings.
\<close>

section \<open>Stored shapes\<close>

record SealedBlock =
  sb_number :: u64
  sb_timestamp :: u64
  sb_hash :: B256
  sb_parent_hash :: B256
  sb_txs :: "bytes list"
  sb_state_root :: "B256 option"
  sb_base_fee :: u64

record StoredLog =
  sl_address :: Address
  sl_topics :: "B256 list"
  sl_data :: bytes

record StoredReceipt =
  sr_tx_hash :: B256
  sr_block_number :: u64
  sr_block_hash :: B256
  sr_gas_used :: u64
  sr_success :: bool
  sr_from :: Address
  sr_to :: "Address option"
  sr_contract_address :: "Address option"
  sr_logs :: "StoredLog list"

text \<open>The legacy JSON journal of \<^verbatim>\<open>node.rs\<close>.\<close>

record Journal =
  jr_chain_id :: u64
  jr_genesis_alloc :: "(Address \<times> U256) list"
  jr_blocks :: "SealedBlock list"

section \<open>Transactions\<close>

datatype TxKind = Call Address | Create

type_synonym AccessList = "(Address \<times> B256 list) list"

record TxLegacy =
  tl_chain_id :: "u64 option"
  tl_nonce :: u64
  tl_gas_price :: u128
  tl_gas_limit :: u64
  tl_to :: TxKind
  tl_value :: U256
  tl_input :: bytes

record TxEip2930 =
  t1_chain_id :: u64
  t1_nonce :: u64
  t1_gas_price :: u128
  t1_gas_limit :: u64
  t1_to :: TxKind
  t1_value :: U256
  t1_access_list :: AccessList
  t1_input :: bytes

record TxEip1559 =
  t2_chain_id :: u64
  t2_nonce :: u64
  t2_gas_limit :: u64
  t2_max_fee_per_gas :: u128
  t2_max_priority_fee_per_gas :: u128
  t2_to :: TxKind
  t2_value :: U256
  t2_access_list :: AccessList
  t2_input :: bytes

record TxEip7702 =
  t4_chain_id :: u64
  t4_nonce :: u64
  t4_gas_limit :: u64
  t4_max_fee_per_gas :: u128
  t4_max_priority_fee_per_gas :: u128
  t4_to :: Address
  t4_value :: U256
  t4_access_list :: AccessList
  t4_authorization_list :: "bytes list"
  t4_input :: bytes

text \<open>A signed envelope: the transaction and its signature.\<close>

datatype TxEnvelope =
    Legacy TxLegacy bytes
  | Eip2930 TxEip2930 bytes
  | Eip1559 TxEip1559 bytes
  | Eip4844 bytes
  | Eip7702 TxEip7702 bytes

text \<open>The fields of revm's \<open>TxEnv\<close> the sources set; \<open>TxEnv::default()\<close> has type 0 and no
  authorizations.\<close>

record TxEnv =
  te_tx_type :: u8
  te_caller :: Address
  te_gas_limit :: u64
  te_gas_price :: u128
  te_kind :: TxKind
  te_value :: U256
  te_data :: bytes
  te_nonce :: u64
  te_chain_id :: "u64 option"
  te_access_list :: AccessList
  te_gas_priority_fee :: "u128 option"
  te_authorization_list :: "bytes list"

section \<open>EVM state and results\<close>

record AccountInfo =
  ai_balance :: U256
  ai_nonce :: u64
  ai_code_hash :: B256
  ai_code :: "bytes option"

record DbAccount =
  da_info :: AccountInfo
  da_storage :: "(U256 \<times> U256) list"

record EvmLog =
  lg_address :: Address
  lg_topics :: "B256 list"
  lg_data :: bytes

datatype Output = OutCall bytes | OutCreate bytes "Address option"

text \<open>The first component is \<open>gas.tx_gas_used()\<close>.\<close>

datatype ExecutionResult =
    Success u64 Output "EvmLog list"
  | Revert u64 bytes
  | Halt u64

fun tx_gas_used :: "ExecutionResult \<Rightarrow> u64" where
  "tx_gas_used (Success g _ _) = g"
| "tx_gas_used (Revert g _) = g"
| "tx_gas_used (Halt g) = g"

section \<open>Chain specification\<close>

record KanariChainSpec =
  cs_chain_id :: u64
  cs_spec_id :: SpecId
  cs_genesis_alloc :: "(Address \<times> U256) list"
  cs_genesis_code :: "(Address \<times> bytes) list"
  cs_genesis_storage :: "(Address \<times> U256 \<times> U256) list"
  cs_base_fee_wei :: u128

section \<open>Errors\<close>

datatype StoreError = Backend string | ChainMismatch u64 u64

datatype NodeError =
    InvalidTransaction string
  | UnsupportedTxType
  | UnsupportedBlobTransactions
  | BadSignature string
  | WrongChainId u64 u64
  | Execution string
  | Storage string
  | NoFaucetConfigured

text \<open>Decimal rendering of a number in a message.\<close>

fun decimal :: "nat \<Rightarrow> string" where
  "decimal n = (if n < 10 then [''0123456789'' ! n] else decimal (n div 10) @ [''0123456789'' ! (n mod 10)])"

declare decimal.simps [simp del]

fun store_error_string :: "StoreError \<Rightarrow> string" where
  "store_error_string (Backend m) = ''storage error: '' @ m"
| "store_error_string (ChainMismatch held wanted) =
     ''chain id mismatch: database holds '' @ decimal (unat held) @ '', node wants ''
       @ decimal (unat wanted)"

definition node_error_of_store :: "StoreError \<Rightarrow> NodeError" where
  "node_error_of_store e = Storage (store_error_string e)"

section \<open>The node\<close>

record NodeMetrics =
  nm_blocks_sealed :: u64
  nm_txs_sealed :: u64
  nm_commits_seen :: u64

text \<open>
  \<open>'db\<close> is revm's in-memory database, \<open>'h\<close> the RocksDB contents behind both \<open>ChainStore\<close> and the
  sparse Merkle tree (one shared handle). The DAG sender is the sequence of batches handed to the
  mempool channel so far, \<open>None\<close> while no sender is attached.
\<close>

record ('db, 'h) KanariNode =
  n_spec :: KanariChainSpec
  n_db :: 'db
  n_blocks :: "SealedBlock list"
  n_receipts :: "B256 \<rightharpoonup> StoredReceipt"
  n_store :: 'h
  n_genesis_root :: B256
  n_faucet_key :: "B256 option"
  n_dag_sender :: "bytes list list option"
  n_metrics :: NodeMetrics

definition MAX_FAUCET_ETH_PER_REQUEST :: u128 where "MAX_FAUCET_ETH_PER_REQUEST = 10000"
definition WEI_IN_ETH :: u128 where "WEI_IN_ETH = 1000000000000000000"
definition DEFAULT_CALL_GAS :: u64 where "DEFAULT_CALL_GAS = 15000000"
definition BLOCK_BENEFICIARY :: Address where
  "BLOCK_BENEFICIARY = 0x7985132aa87aD878a1fCb69Fa62b301f4CDe4ccA"

end
