(* ===== verification/Externals.thy ===== *)
theory Externals
  imports Chain_Types
begin

text \<open>
  The third-party code the sources call, as arguments of the model: \<^verbatim>\<open>revm\<close> (in-memory
  database and interpreter), RocksDB with the sparse Merkle tree on top of it, \<^verbatim>\<open>serde_json\<close>
  codecs of the stored shapes, hashing, transaction decoding and signing. Each record collects the
  operations of one crate; the predicates below name the documented behaviour that the theorems
  rely on.
\<close>

section \<open>revm\<close>

text \<open>
  Operations that take \<open>&mut self\<close> return the new database, also on an error. \<open>rv_transact\<close> is
  \<open>Evm::transact\<close> on an EVM built over the database: the result and the state changes, which
  \<open>rv_commit\<close> (\<open>DatabaseCommit::commit\<close>) writes. \<open>rv_accounts\<close> is \<open>cache.accounts.iter()\<close> and
  \<open>rv_contract\<close> the lookup in \<open>cache.contracts\<close>. A \<open>Bytecode\<close> is named by its original bytes; \<open>rv_new_raw\<close> is
  \<open>Bytecode::new_raw\<close>, which panics on code it cannot take (a malformed delegation designator), and
  \<open>rv_hash_slow\<close> is \<open>Bytecode::hash_slow\<close>.
\<close>

record ('db, 'st) Revm =
  rv_default :: 'db
  rv_basic :: "'db \<Rightarrow> Address \<Rightarrow> (string + AccountInfo option) \<times> 'db"
  rv_storage :: "'db \<Rightarrow> Address \<Rightarrow> U256 \<Rightarrow> (string + U256) \<times> 'db"
  rv_insert_account_info :: "'db \<Rightarrow> Address \<Rightarrow> AccountInfo \<Rightarrow> 'db"
  rv_insert_account_storage :: "'db \<Rightarrow> Address \<Rightarrow> U256 \<Rightarrow> U256 \<Rightarrow> (string + unit) \<times> 'db"
  rv_accounts :: "'db \<Rightarrow> (Address \<times> DbAccount) list"
  rv_contract :: "'db \<Rightarrow> B256 \<Rightarrow> bytes option"
  rv_transact :: "KanariEvm \<Rightarrow> 'db \<Rightarrow> TxEnv \<Rightarrow> (string + ExecutionResult \<times> 'st) \<times> 'db"
  rv_transact_one :: "KanariEvm \<Rightarrow> 'db \<Rightarrow> TxEnv \<Rightarrow> (string + ExecutionResult) \<times> 'db"
  rv_commit :: "'db \<Rightarrow> 'st \<Rightarrow> 'db"
  rv_new_raw :: "bytes \<Rightarrow> bytes outcome"
  rv_hash_slow :: "bytes \<Rightarrow> B256"
  rv_keccak_empty :: B256

text \<open>The balance of an account and the sum over all addresses.\<close>

definition balance_in :: "('db, 'st) Revm \<Rightarrow> 'db \<Rightarrow> Address \<Rightarrow> nat" where
  "balance_in rv db a =
     (case fst (rv_basic rv db a) of Inr (Some i) \<Rightarrow> unat (ai_balance i) | _ \<Rightarrow> 0)"

definition total_supply :: "('db, 'st) Revm \<Rightarrow> 'db \<Rightarrow> nat" where
  "total_supply rv db = (\<Sum>a\<in>UNIV. balance_in rv db a)"

text \<open>
  The in-memory database: reads do not fail and do not change any balance, and writing an account
  sets that account's balance only.
\<close>

definition db_ok :: "('db, 'st) Revm \<Rightarrow> bool" where
  "db_ok rv \<longleftrightarrow>
     (\<forall>db a. \<exists>i. fst (rv_basic rv db a) = Inr i) \<and>
     (\<forall>db a b. balance_in rv (snd (rv_basic rv db a)) b = balance_in rv db b) \<and>
     (\<forall>db a i b. balance_in rv (rv_insert_account_info rv db a i) b =
        (if b = a then unat (ai_balance i) else balance_in rv db b))"

text \<open>
  The fee rule of EIP-1559, of one execution: what leaves circulation is exactly \<open>gas_used * basefee\<close>, the
  priority share stays with the beneficiary. It holds of an execution that destroys no value; a contract that
  self-destructs to itself in its creating transaction destroys its balance as well. It is therefore only ever
  assumed of particular executions. The weaker rule below, that an execution never creates value, holds of all.
\<close>

definition burns_base_fee :: "('db, 'st) Revm \<Rightarrow> KanariEvm \<Rightarrow> 'db \<Rightarrow> TxEnv \<Rightarrow> bool" where
  "burns_base_fee rv evm db tx \<longleftrightarrow>
     (case rv_transact rv evm db tx of
        (Inr (res, st), db') \<Rightarrow>
          total_supply rv (rv_commit rv db' st) + unat (tx_gas_used res) * unat (evm_basefee evm)
            = total_supply rv db
      | _ \<Rightarrow> True)"

definition never_mints :: "('db, 'st) Revm \<Rightarrow> bool" where
  "never_mints rv \<longleftrightarrow>
     (\<forall>evm db tx res st db'. rv_transact rv evm db tx = (Inr (res, st), db') \<longrightarrow>
        total_supply rv (rv_commit rv db' st) + unat (tx_gas_used res) * unat (evm_basefee evm)
          \<le> total_supply rv db) \<and>
     (\<forall>evm db tx. total_supply rv (snd (rv_transact rv evm db tx)) = total_supply rv db)"

text \<open>In the in-memory database a storage insert never fails and changes no balance.\<close>

definition storage_insert_ok :: "('db, 'st) Revm \<Rightarrow> bool" where
  "storage_insert_ok rv \<longleftrightarrow>
     (\<forall>db a s v. fst (rv_insert_account_storage rv db a s v) = Inr ()
        \<and> (\<forall>b. balance_in rv (snd (rv_insert_account_storage rv db a s v)) b = balance_in rv db b))"

lemma balance_insert:
  "db_ok rv \<Longrightarrow> balance_in rv (rv_insert_account_info rv db a i) b =
     (if b = a then unat (ai_balance i) else balance_in rv db b)"
  by (simp add: db_ok_def)

lemma sum_single_key:
  fixes f :: "'a::finite \<Rightarrow> nat"
  shows "(\<Sum>b\<in>UNIV. if b = a then v else f b) = v + (\<Sum>b\<in>UNIV - {a}. f b)"
  by (subst sum.remove [of UNIV a]) auto

lemma total_supply_insert:
  assumes "db_ok rv"
  shows "total_supply rv (rv_insert_account_info rv db a i) + balance_in rv db a
    = total_supply rv db + unat (ai_balance i)"
proof -
  have "total_supply rv db = balance_in rv db a + (\<Sum>b\<in>UNIV - {a}. balance_in rv db b)"
    unfolding total_supply_def by (rule sum.remove) auto
  then show ?thesis
    by (simp add: total_supply_def balance_insert [OF assms] sum_single_key)
qed

lemma total_supply_basic:
  "db_ok rv \<Longrightarrow> total_supply rv (snd (rv_basic rv db a)) = total_supply rv db"
  by (simp add: total_supply_def db_ok_def)

lemma balance_le_total: "balance_in rv db a \<le> total_supply rv db"
  unfolding total_supply_def by (rule member_le_sum) auto

section \<open>RocksDB and the sparse Merkle tree\<close>

text \<open>
  \<open>kv_write\<close> commits a \<open>WriteBatch\<close>, the list of its puts in order. The Merkle tree lives in the
  same database.
\<close>

record 'h Kv =
  kv_get :: "'h \<Rightarrow> bytes \<Rightarrow> string + bytes option"
  kv_put :: "'h \<Rightarrow> bytes \<Rightarrow> bytes \<Rightarrow> (string + unit) \<times> 'h"
  kv_write :: "'h \<Rightarrow> (bytes \<times> bytes) list \<Rightarrow> (string + unit) \<times> 'h"
  smt_rebuild :: "'h \<Rightarrow> (bytes \<times> bytes) list \<Rightarrow> (string + unit) \<times> 'h"
  smt_root_hash :: "'h \<Rightarrow> string + B256"
  smt_get :: "'h \<Rightarrow> bytes \<Rightarrow> string + bytes option"
  smt_proof_of :: "'h \<Rightarrow> bytes \<Rightarrow> string + bool \<times> B256 \<times> B256 list"

text \<open>Keys of chain data start with one of four tags; the tree keeps to other keys.\<close>

definition chain_key :: "bytes \<Rightarrow> bool" where
  "chain_key k \<longleftrightarrow> take 2 k \<in> {ascii ''m:'', ascii ''b:'', ascii ''r:'', ascii ''t:''}"

text \<open>A batch commits as a whole or not at all; a later put of a batch wins.\<close>

definition kv_ok :: "'h Kv \<Rightarrow> bool" where
  "kv_ok kv \<longleftrightarrow>
     (\<forall>h ops h' k. kv_write kv h ops = (Inr (), h') \<longrightarrow>
        kv_get kv h' k = (case map_of (rev ops) k of Some v \<Rightarrow> Inr (Some v) | None \<Rightarrow> kv_get kv h k)) \<and>
     (\<forall>h ops e h' k. kv_write kv h ops = (Inl e, h') \<longrightarrow> kv_get kv h' k = kv_get kv h k) \<and>
     (\<forall>h k v. kv_put kv h k v = kv_write kv h [(k, v)]) \<and>
     (\<forall>h es k. chain_key k \<longrightarrow> kv_get kv (snd (smt_rebuild kv h es)) k = kv_get kv h k)"

text \<open>The disk works: writes and rebuilds succeed, and the root depends on the leaves only.\<close>

definition kv_reliable :: "'h Kv \<Rightarrow> ((bytes \<times> bytes) set \<Rightarrow> B256) \<Rightarrow> bool" where
  "kv_reliable kv root_of \<longleftrightarrow>
     (\<forall>h ops. fst (kv_write kv h ops) = Inr ()) \<and>
     (\<forall>h es. fst (smt_rebuild kv h es) = Inr ()) \<and>
     (\<forall>h es. smt_root_hash kv (snd (smt_rebuild kv h es)) = Inr (root_of (set es)))"

text \<open>A rebuilt tree answers from the entries it was built from, the later entry of a key winning,
  and its proofs report membership accordingly.\<close>

definition smt_ok :: "'h Kv \<Rightarrow> bool" where
  "smt_ok kv \<longleftrightarrow>
     (\<forall>h es h' k. smt_rebuild kv h es = (Inr (), h') \<longrightarrow>
        smt_get kv h' k = Inr (map_of (rev es) k) \<and>
        (\<exists>leaf siblings. smt_proof_of kv h' k = Inr (map_of (rev es) k \<noteq> None, leaf, siblings)))"

section \<open>Codecs, hashes, signatures\<close>

record Codec =
  ser_block :: "SealedBlock \<Rightarrow> string + bytes"
  de_block :: "bytes \<Rightarrow> string + SealedBlock"
  ser_receipt :: "StoredReceipt \<Rightarrow> string + bytes"
  de_receipt :: "bytes \<Rightarrow> string + StoredReceipt"
  ser_alloc :: "(Address \<times> U256) list \<Rightarrow> string + bytes"
  de_alloc :: "bytes \<Rightarrow> string + (Address \<times> U256) list"
  de_journal :: "bytes \<Rightarrow> string + Journal"

text \<open>Derived \<^verbatim>\<open>serde\<close> implementations serialise every value and read back what they wrote.\<close>

definition codec_ok :: "Codec \<Rightarrow> bool" where
  "codec_ok cd \<longleftrightarrow>
     (\<forall>b. \<exists>bs. ser_block cd b = Inr bs \<and> de_block cd bs = Inr b) \<and>
     (\<forall>r. \<exists>bs. ser_receipt cd r = Inr bs \<and> de_receipt cd bs = Inr r) \<and>
     (\<forall>a. \<exists>bs. ser_alloc cd a = Inr bs \<and> de_alloc cd bs = Inr a)"

type_synonym Signer = B256

record Crypto =
  keccak256 :: "bytes \<Rightarrow> B256"
  blake3 :: "bytes \<Rightarrow> bytes"
  decode_2718 :: "bytes \<Rightarrow> string + TxEnvelope"
  encode_2718 :: "TxEnvelope \<Rightarrow> bytes"
  recover_signer :: "TxEnvelope \<Rightarrow> string + Address"
  signer_from_bytes :: "B256 \<Rightarrow> string + Signer"
  signer_address :: "Signer \<Rightarrow> Address"
  signature_hash :: "TxEip1559 \<Rightarrow> B256"
  sign_hash :: "Signer \<Rightarrow> B256 \<Rightarrow> string + bytes"

section \<open>The environment of a node\<close>

text \<open>\<open>x_try_send\<close> decides whether the mempool channel takes a batch, given what it was sent.\<close>

record ('db, 'st, 'h) Ext =
  x_revm :: "('db, 'st) Revm"
  x_kv :: "'h Kv"
  x_codec :: Codec
  x_crypto :: Crypto
  x_pqc :: PqcEnv
  x_try_send :: "bytes list list \<Rightarrow> bytes list \<Rightarrow> string + unit"

end
