(* ===== verification/Instances.thy ===== *)
theory Instances
  imports Externals
begin

text \<open>
  A concrete environment: an in-memory database with a fee-charging interpreter, a key-value map,
  self-delimiting codecs for the stored shapes and a small transaction decoder. Nothing of the
  program depends on it; it shows that the behaviour assumed of third-party code is satisfiable
  and lets the theorems be applied to concrete inputs.
\<close>

section \<open>Self-delimiting codecs\<close>

type_synonym 'a enc = "'a \<Rightarrow> bytes"
type_synonym 'a dec = "bytes \<Rightarrow> ('a \<times> bytes) option"

definition delimited :: "'a enc \<Rightarrow> 'a dec \<Rightarrow> bool" where
  "delimited e d \<longleftrightarrow> (\<forall>x rest. d (e x @ rest) = Some (x, rest))"

named_theorems delim

lemma delimitedD: "delimited e d \<Longrightarrow> d (e x @ rest) = Some (x, rest)"
  by (simp add: delimited_def)

definition enc_word :: "nat \<Rightarrow> 'a::len word enc" where "enc_word n w = to_be_bytes n w"
definition dec_word :: "nat \<Rightarrow> 'a::len word dec" where
  "dec_word n bs = (if length bs < n then None else Some (from_be_bytes (take n bs), drop n bs))"

lemma delimited_word [delim]:
  "LENGTH('a) \<le> 8 * n \<Longrightarrow> delimited (enc_word n :: 'a::len word enc) (dec_word n)"
  by (simp add: delimited_def enc_word_def dec_word_def)

definition enc_bool :: "bool enc" where "enc_bool b = [if b then 1 else 0]"
fun dec_bool :: "bool dec" where
  "dec_bool [] = None"
| "dec_bool (x # bs) = Some (x = 1, bs)"

lemma delimited_bool [delim]: "delimited enc_bool dec_bool"
  by (simp add: delimited_def enc_bool_def)

definition enc_pair :: "'a enc \<Rightarrow> 'b enc \<Rightarrow> ('a \<times> 'b) enc" where
  "enc_pair e1 e2 p = e1 (fst p) @ e2 (snd p)"
definition dec_pair :: "'a dec \<Rightarrow> 'b dec \<Rightarrow> ('a \<times> 'b) dec" where
  "dec_pair d1 d2 bs = (case d1 bs of None \<Rightarrow> None | Some (x, r) \<Rightarrow>
     (case d2 r of None \<Rightarrow> None | Some (y, s) \<Rightarrow> Some ((x, y), s)))"

lemma delimited_pair [delim]:
  "delimited e1 d1 \<Longrightarrow> delimited e2 d2 \<Longrightarrow> delimited (enc_pair e1 e2) (dec_pair d1 d2)"
  by (simp add: delimited_def enc_pair_def dec_pair_def)

definition enc_list :: "'a enc \<Rightarrow> 'a list enc" where
  "enc_list e xs = concat (map (\<lambda>x. 1 # e x) xs) @ [0]"
fun dec_list_fuel :: "nat \<Rightarrow> 'a dec \<Rightarrow> 'a list dec" where
  "dec_list_fuel 0 d bs = None"
| "dec_list_fuel (Suc n) d [] = None"
| "dec_list_fuel (Suc n) d (b # bs) = (if b = 0 then Some ([], bs) else
     (case d bs of None \<Rightarrow> None | Some (x, r) \<Rightarrow>
       (case dec_list_fuel n d r of None \<Rightarrow> None | Some (xs, s) \<Rightarrow> Some (x # xs, s))))"
definition dec_list :: "'a dec \<Rightarrow> 'a list dec" where
  "dec_list d bs = dec_list_fuel (length bs) d bs"

lemma dec_list_fuel_enc:
  "delimited e d \<Longrightarrow> length xs < n \<Longrightarrow> dec_list_fuel n d (enc_list e xs @ rest) = Some (xs, rest)"
proof (induction xs arbitrary: n)
  case Nil
  then show ?case by (cases n) (simp_all add: enc_list_def)
next
  case (Cons x xs)
  then obtain m where m: "n = Suc m" "length xs < m" by (cases n) auto
  have "enc_list e (x # xs) @ rest = 1 # e x @ enc_list e xs @ rest" by (simp add: enc_list_def)
  with Cons m show ?case by (simp add: delimitedD)
qed

lemma length_enc_list: "length xs < length (enc_list e xs)"
  by (induction xs) (auto simp: enc_list_def)

lemma delimited_list [delim]: "delimited e d \<Longrightarrow> delimited (enc_list e) (dec_list d)"
  unfolding delimited_def [of "enc_list e"] dec_list_def
  by (auto intro!: dec_list_fuel_enc trans_less_add1 length_enc_list)

definition enc_option :: "'a enc \<Rightarrow> 'a option enc" where
  "enc_option e x = enc_list e (case x of None \<Rightarrow> [] | Some y \<Rightarrow> [y])"
definition dec_option :: "'a dec \<Rightarrow> 'a option dec" where
  "dec_option d bs = map_option (apfst (\<lambda>xs. case xs of [] \<Rightarrow> None | y # _ \<Rightarrow> Some y)) (dec_list d bs)"

lemma delimited_option [delim]: "delimited e d \<Longrightarrow> delimited (enc_option e) (dec_option d)"
  unfolding delimited_def [of "enc_option e"] enc_option_def dec_option_def
  by (auto simp: delimitedD [OF delimited_list] split: option.splits)

definition enc_via :: "('a \<Rightarrow> 'b) \<Rightarrow> 'b enc \<Rightarrow> 'a enc" where "enc_via f e x = e (f x)"
definition dec_via :: "('b \<Rightarrow> 'a) \<Rightarrow> 'b dec \<Rightarrow> 'a dec" where
  "dec_via g d bs = map_option (apfst g) (d bs)"

lemma delimited_via:
  "delimited e d \<Longrightarrow> (\<And>x. g (f x) = x) \<Longrightarrow> delimited (enc_via f e) (dec_via g d)"
  by (simp add: delimited_def enc_via_def dec_via_def)

section \<open>Codecs of the stored shapes\<close>

definition enc_bytes :: "bytes enc" where "enc_bytes = enc_list (enc_word 1)"
definition dec_bytes :: "bytes dec" where "dec_bytes = dec_list (dec_word 1)"

lemma delimited_bytes [delim]: "delimited enc_bytes dec_bytes"
  unfolding enc_bytes_def dec_bytes_def by (intro delim) simp

definition enc_block :: "SealedBlock enc" where
  "enc_block = enc_via (\<lambda>b. (sb_number b, sb_timestamp b, sb_hash b, sb_parent_hash b, sb_txs b,
       sb_state_root b, sb_base_fee b))
     (enc_pair (enc_word 8) (enc_pair (enc_word 8) (enc_pair (enc_word 32) (enc_pair (enc_word 32)
       (enc_pair (enc_list enc_bytes) (enc_pair (enc_option (enc_word 32)) (enc_word 8)))))))"
definition dec_block :: "SealedBlock dec" where
  "dec_block = dec_via (\<lambda>(n, t, h, p, txs, sr, f). \<lparr>sb_number = n, sb_timestamp = t, sb_hash = h,
       sb_parent_hash = p, sb_txs = txs, sb_state_root = sr, sb_base_fee = f\<rparr>)
     (dec_pair (dec_word 8) (dec_pair (dec_word 8) (dec_pair (dec_word 32) (dec_pair (dec_word 32)
       (dec_pair (dec_list dec_bytes) (dec_pair (dec_option (dec_word 32)) (dec_word 8)))))))"

lemma delimited_block: "delimited enc_block dec_block"
  unfolding enc_block_def dec_block_def by (rule delimited_via, (intro delim; simp)) simp

definition enc_log :: "StoredLog enc" where
  "enc_log = enc_via (\<lambda>l. (sl_address l, sl_topics l, sl_data l))
     (enc_pair (enc_word 20) (enc_pair (enc_list (enc_word 32)) enc_bytes))"
definition dec_log :: "StoredLog dec" where
  "dec_log = dec_via (\<lambda>(a, t, d). \<lparr>sl_address = a, sl_topics = t, sl_data = d\<rparr>)
     (dec_pair (dec_word 20) (dec_pair (dec_list (dec_word 32)) dec_bytes))"

lemma delimited_log [delim]: "delimited enc_log dec_log"
  unfolding enc_log_def dec_log_def by (rule delimited_via, (intro delim; simp)) simp

definition enc_receipt :: "StoredReceipt enc" where
  "enc_receipt = enc_via (\<lambda>r. (sr_tx_hash r, sr_block_number r, sr_block_hash r, sr_gas_used r,
       sr_success r, sr_from r, sr_to r, sr_contract_address r, sr_logs r))
     (enc_pair (enc_word 32) (enc_pair (enc_word 8) (enc_pair (enc_word 32) (enc_pair (enc_word 8)
       (enc_pair enc_bool (enc_pair (enc_word 20) (enc_pair (enc_option (enc_word 20))
         (enc_pair (enc_option (enc_word 20)) (enc_list enc_log)))))))))"
definition dec_receipt :: "StoredReceipt dec" where
  "dec_receipt = dec_via (\<lambda>(h, n, bh, g, s, f, t, c, ls). \<lparr>sr_tx_hash = h, sr_block_number = n,
       sr_block_hash = bh, sr_gas_used = g, sr_success = s, sr_from = f, sr_to = t,
       sr_contract_address = c, sr_logs = ls\<rparr>)
     (dec_pair (dec_word 32) (dec_pair (dec_word 8) (dec_pair (dec_word 32) (dec_pair (dec_word 8)
       (dec_pair dec_bool (dec_pair (dec_word 20) (dec_pair (dec_option (dec_word 20))
         (dec_pair (dec_option (dec_word 20)) (dec_list dec_log)))))))))"

lemma delimited_receipt: "delimited enc_receipt dec_receipt"
  unfolding enc_receipt_def dec_receipt_def by (rule delimited_via, (intro delim; simp)) simp

definition enc_alloc :: "(Address \<times> U256) list enc" where
  "enc_alloc = enc_list (enc_pair (enc_word 20) (enc_word 32))"
definition dec_alloc :: "(Address \<times> U256) list dec" where
  "dec_alloc = dec_list (dec_pair (dec_word 20) (dec_word 32))"

lemma delimited_alloc: "delimited enc_alloc dec_alloc"
  unfolding enc_alloc_def dec_alloc_def by (intro delim; simp)

definition dec_result :: "'a dec \<Rightarrow> bytes \<Rightarrow> string + 'a" where
  "dec_result d bs = (case d bs of None \<Rightarrow> Inl ''eof'' | Some (x, _) \<Rightarrow> Inr x)"

lemma dec_result_enc: "delimited e d \<Longrightarrow> dec_result d (e x) = Inr x"
  using delimitedD [of e d x "[]"] by (simp add: dec_result_def)

definition mem_codec :: Codec where
  "mem_codec = \<lparr>ser_block = Inr \<circ> enc_block, de_block = dec_result dec_block,
     ser_receipt = Inr \<circ> enc_receipt, de_receipt = dec_result dec_receipt,
     ser_alloc = Inr \<circ> enc_alloc, de_alloc = dec_result dec_alloc, de_journal = (\<lambda>_. Inl ''eof'')\<rparr>"

lemma mem_codec_ok: "codec_ok mem_codec"
  by (simp add: codec_ok_def mem_codec_def dec_result_enc delimited_block delimited_receipt
      delimited_alloc)

section \<open>A key-value map with leaves\<close>

type_synonym mem_handle = "(bytes \<rightharpoonup> bytes) \<times> (bytes \<times> bytes) list"

definition leaf_count :: "(bytes \<times> bytes) set \<Rightarrow> B256" where
  "leaf_count s = of_nat (card s)"

definition mem_kv :: "mem_handle Kv" where
  "mem_kv = \<lparr>kv_get = (\<lambda>h k. Inr (fst h k)),
     kv_put = (\<lambda>h k v. (Inr (), ((fst h)(k \<mapsto> v), snd h))),
     kv_write = (\<lambda>h ops. (Inr (), (fst h ++ map_of (rev ops), snd h))),
     smt_rebuild = (\<lambda>h es. (Inr (), (fst h, es))),
     smt_root_hash = (\<lambda>h. Inr (leaf_count (set (snd h)))),
     smt_get = (\<lambda>h k. Inr (map_of (rev (snd h)) k)),
     smt_proof_of = (\<lambda>h k. Inr (map_of (rev (snd h)) k \<noteq> None, 0, []))\<rparr>"

lemma mem_kv_ok: "kv_ok mem_kv"
  by (auto simp: kv_ok_def mem_kv_def map_add_def split: option.splits)

lemma mem_kv_reliable: "kv_reliable mem_kv leaf_count"
  by (simp add: kv_reliable_def mem_kv_def)

lemma mem_kv_smt_ok: "smt_ok mem_kv"
  by (auto simp: smt_ok_def mem_kv_def)

definition mem_empty :: mem_handle where "mem_empty = (Map.empty, [])"

section \<open>An interpreter that charges an intrinsic fee\<close>

type_synonym mem_db = "(Address \<times> DbAccount) list"

definition mem_set :: "mem_db \<Rightarrow> Address \<Rightarrow> DbAccount \<Rightarrow> mem_db" where
  "mem_set db a acc = (a, acc) # filter (\<lambda>p. fst p \<noteq> a) db"

definition mem_get :: "mem_db \<Rightarrow> Address \<Rightarrow> DbAccount" where
  "mem_get db a = (case map_of db a of Some acc \<Rightarrow> acc
     | None \<Rightarrow> \<lparr>da_info = \<lparr>ai_balance = 0, ai_nonce = 0, ai_code_hash = 0, ai_code = None\<rparr>,
               da_storage = []\<rparr>)"

lemma map_of_mem_set: "map_of (mem_set db a acc) b = (if b = a then Some acc else map_of db b)"
  by (induction db) (auto simp: mem_set_def)

definition mem_charge :: "KanariEvm \<Rightarrow> mem_db \<Rightarrow> TxEnv \<Rightarrow> string + ExecutionResult \<times> mem_db" where
  "mem_charge evm db tx =
     (let acc = mem_get db (te_caller tx); info = da_info acc;
          fee = 21000 * unat (evm_basefee evm)
      in if fee \<le> unat (ai_balance info)
         then Inr (Success 21000 (OutCall []) [],
                   mem_set db (te_caller tx)
                     (acc\<lparr>da_info := info\<lparr>ai_balance := ai_balance info - of_nat fee,
                                         ai_nonce := ai_nonce info + 1\<rparr>\<rparr>))
         else Inl ''lack of funds'')"

text \<open>Code that starts like a delegation designator must be one: 0xef0100 and an address.\<close>

definition designator_checked :: "bytes \<Rightarrow> bytes outcome" where
  "designator_checked c = (if take 2 c = [0xef, 0x01] \<and> (length c \<noteq> 23 \<or> c ! 2 \<noteq> 0) then Panics else Returns c)"

definition mem_revm :: "(mem_db, mem_db) Revm" where
  "mem_revm = \<lparr>rv_default = [],
     rv_basic = (\<lambda>db a. (Inr (map_option da_info (map_of db a)), db)),
     rv_storage = (\<lambda>db a s. (Inr (case map_of (da_storage (mem_get db a)) s of Some v \<Rightarrow> v | None \<Rightarrow> 0), db)),
     rv_insert_account_info = (\<lambda>db a i. mem_set db a ((mem_get db a)\<lparr>da_info := i\<rparr>)),
     rv_insert_account_storage = (\<lambda>db a s v. (Inr (), let acc = mem_get db a in
        mem_set db a (acc\<lparr>da_storage := (s, v) # filter (\<lambda>p. fst p \<noteq> s) (da_storage acc)\<rparr>))),
     rv_accounts = (\<lambda>db. db),
     rv_contract = (\<lambda>_ _. None),
     rv_transact = (\<lambda>evm db tx. (mem_charge evm db tx, db)),
     rv_transact_one = (\<lambda>evm db tx. (map_sum id fst (mem_charge evm db tx), db)),
     rv_commit = (\<lambda>_ st. st),
     rv_new_raw = designator_checked,
     rv_hash_slow = (\<lambda>_. 1),
     rv_keccak_empty = 0\<rparr>"

lemma mem_balance: "balance_in mem_revm db a = unat (ai_balance (da_info (mem_get db a)))"
  by (simp add: balance_in_def mem_revm_def mem_get_def split: option.splits)

lemma mem_get_set: "mem_get (mem_set db a acc) b = (if b = a then acc else mem_get db b)"
  by (simp add: mem_get_def map_of_mem_set)

lemma mem_db_ok: "db_ok mem_revm"
  unfolding db_ok_def mem_balance by (simp add: mem_revm_def mem_get_set)

lemma mem_storage_insert_ok: "storage_insert_ok mem_revm"
  unfolding storage_insert_ok_def mem_balance by (simp add: mem_revm_def mem_get_set Let_def)

lemma mem_total_empty: "total_supply mem_revm [] = 0"
  by (simp add: total_supply_def mem_balance mem_get_def)

lemma mem_charge_supply:
  assumes "mem_charge evm db tx = Inr (res, st)"
  shows "total_supply mem_revm st + unat (tx_gas_used res) * unat (evm_basefee evm)
    = total_supply mem_revm db"
proof -
  define acc where "acc = mem_get db (te_caller tx)"
  define fee where "fee = 21000 * unat (evm_basefee evm)"
  define i where "i = (da_info acc)\<lparr>ai_balance := ai_balance (da_info acc) - of_nat fee,
    ai_nonce := ai_nonce (da_info acc) + 1\<rparr>"
  from assms have le: "fee \<le> unat (ai_balance (da_info acc))"
    and st: "st = rv_insert_account_info mem_revm db (te_caller tx) i"
    and gas: "unat (tx_gas_used res) * unat (evm_basefee evm) = fee"
    by (auto simp: mem_charge_def mem_revm_def acc_def fee_def i_def Let_def split: if_splits)
  have "unat (of_nat fee :: U256) = fee"
    using le unsigned_less [of "ai_balance (da_info acc)", where ?'a = nat] by (simp add: unat_of_nat)
  with le have "unat (ai_balance i) + fee = unat (ai_balance (da_info acc))"
    by (simp add: i_def unat_sub word_le_nat_alt)
  then show ?thesis
    using total_supply_insert [OF mem_db_ok, of db "te_caller tx" i]
    by (simp add: st gas mem_balance acc_def)
qed

lemma mem_burns_base_fee: "burns_base_fee mem_revm evm db tx"
  using mem_charge_supply [of evm db tx]
  by (auto simp: burns_base_fee_def mem_revm_def split: sum.splits)

lemma mem_never_mints: "never_mints mem_revm"
  unfolding never_mints_def using mem_charge_supply by (auto simp: mem_revm_def order.refl)

section \<open>Decoding and signing\<close>

text \<open>A raw transaction is a byte list whose first byte is its nonce; 0xff is malformed.\<close>

definition mem_tx :: "u64 \<Rightarrow> TxLegacy" where
  "mem_tx nonce = \<lparr>tl_chain_id = Some 19088, tl_nonce = nonce, tl_gas_price = 1000000000,
     tl_gas_limit = 21000, tl_to = Call 7, tl_value = 0, tl_input = []\<rparr>"

definition mem_decode :: "bytes \<Rightarrow> string + TxEnvelope" where
  "mem_decode bs = (case bs of [] \<Rightarrow> Inl ''empty''
     | b # r \<Rightarrow> (if b = 0xff then Inl ''bad'' else Inr (Legacy (mem_tx (ucast b)) r)))"

definition mem_crypto :: Crypto where
  "mem_crypto = \<lparr>keccak256 = from_be_bytes, blake3 = (\<lambda>bs. bs), decode_2718 = mem_decode,
     encode_2718 = (\<lambda>_. []), recover_signer = (\<lambda>_. Inr 0xabc), signer_from_bytes = Inr,
     signer_address = ucast, signature_hash = (\<lambda>_. 0), sign_hash = (\<lambda>_ _. Inr [])\<rparr>"

definition mem_pqc :: PqcEnv where
  "mem_pqc = \<lparr>pqc_falcon = (\<lambda>_ _ _. Inr False), pqc_dilithium = (\<lambda>_ _ _. Inr False),
     pqc_standard = (\<lambda>_. Map.empty)\<rparr>"

definition mem_ext :: "(mem_db, mem_db, mem_handle) Ext" where
  "mem_ext = \<lparr>x_revm = mem_revm, x_kv = mem_kv, x_codec = mem_codec, x_crypto = mem_crypto,
     x_pqc = mem_pqc, x_try_send = (\<lambda>_ _. Inr ())\<rparr>"

definition mem_account :: "U256 \<Rightarrow> DbAccount" where
  "mem_account b = \<lparr>da_info = \<lparr>ai_balance = b, ai_nonce = 0, ai_code_hash = 0, ai_code = None\<rparr>,
     da_storage = []\<rparr>"

definition mem_spec :: KanariChainSpec where
  "mem_spec = \<lparr>cs_chain_id = 19088, cs_spec_id = AMSTERDAM,
     cs_genesis_alloc = [(0xabc, 1000000000000000000)], cs_genesis_code = [],
     cs_genesis_storage = [], cs_base_fee_wei = GENESIS_BASE_FEE_WEI\<rparr>"

text \<open>A node before its first block, its only account holding one ether.\<close>

definition mem_node :: "(mem_db, mem_handle) KanariNode" where
  "mem_node = \<lparr>n_spec = mem_spec, n_db = [(0xabc, mem_account 1000000000000000000)],
     n_blocks = [], n_receipts = Map.empty, n_store = mem_empty, n_genesis_root = 1,
     n_faucet_key = None, n_dag_sender = None,
     n_metrics = \<lparr>nm_blocks_sealed = 0, nm_txs_sealed = 0, nm_commits_seen = 0\<rparr>\<rparr>"

definition sample_block :: "u64 \<Rightarrow> SealedBlock" where
  "sample_block n = \<lparr>sb_number = n, sb_timestamp = 100, sb_hash = 5, sb_parent_hash = 0, sb_txs = [[1]],
     sb_state_root = Some 1, sb_base_fee = 1000000000\<rparr>"

definition sample_receipt :: StoredReceipt where
  "sample_receipt = \<lparr>sr_tx_hash = 9, sr_block_number = 1, sr_block_hash = 5, sr_gas_used = 21000,
     sr_success = True, sr_from = 3, sr_to = Some 4, sr_contract_address = None, sr_logs = []\<rparr>"

lemmas mem_sels = mem_ext_def mem_crypto_def mem_kv_def mem_codec_def mem_revm_def

lemma mem_ext_sels [simp]:
  "x_revm mem_ext = mem_revm" "x_kv mem_ext = mem_kv" "x_codec mem_ext = mem_codec"
  "x_crypto mem_ext = mem_crypto" "x_pqc mem_ext = mem_pqc"
  by (simp_all add: mem_ext_def)

lemma mem_node_sels [simp]:
  "n_spec mem_node = mem_spec" "n_blocks mem_node = []" "n_receipts mem_node = Map.empty"
  "n_store mem_node = mem_empty" "n_dag_sender mem_node = None" "cs_chain_id mem_spec = 19088"
  by (simp_all add: mem_node_def mem_spec_def)

lemma mem_reads [simp]:
  "rv_basic mem_revm db a = (Inr (map_option da_info (map_of db a)), db)"
  "rv_transact mem_revm evm db tx = (mem_charge evm db tx, db)"
  "rv_commit mem_revm db st = st"
  by (simp_all add: mem_revm_def)

lemma mem_supply_bound: "total_supply mem_revm (n_db mem_node) = 1000000000000000000"
proof -
  have "n_db mem_node = rv_insert_account_info mem_revm [] 0xabc (da_info (mem_account 1000000000000000000))"
    by (simp add: mem_node_def mem_revm_def mem_set_def mem_get_def mem_account_def)
  then show ?thesis
    using total_supply_insert [OF mem_db_ok, of "[]" "0xabc" "da_info (mem_account 1000000000000000000)"]
    by (simp add: mem_total_empty mem_balance mem_get_def) (simp add: mem_account_def)
qed

end
