(* ===== verification/Chain_Spec.thy ===== *)
theory Chain_Spec
  imports Instances
begin

text \<open>
  Chain specification and genesis (\<^verbatim>\<open>crates/move-execution/src/chainspec.rs\<close>): the devnet
  constants, the constructors of \<open>KanariChainSpec\<close> and \<open>apply_genesis\<close>, which writes the
  allocations, code and storage into revm's in-memory database.
\<close>

section \<open>Constants and constructors\<close>

definition KANARI_EVM_DEV_CHAIN_ID :: u64 where "KANARI_EVM_DEV_CHAIN_ID = 19088"
definition KANARI_EVM_GENESIS_SPEC :: SpecId where "KANARI_EVM_GENESIS_SPEC = AMSTERDAM"
definition DEV_FUNDED_ACCOUNT :: Address where
  "DEV_FUNDED_ACCOUNT = 0xc88c539aa6f67daedaea7aff75fe1f8848d6cec2"
definition DEV_FUNDED_BALANCE :: u128 where
  "DEV_FUNDED_BALANCE = 11000000000000000000000000"
definition KANARI_EVM_MAX_SUPPLY_ETH :: u128 where "KANARI_EVM_MAX_SUPPLY_ETH = 11000000"

definition with_alloc :: "u64 \<Rightarrow> SpecId \<Rightarrow> (Address \<times> U256) list \<Rightarrow> KanariChainSpec" where
  "with_alloc chain_id spec_id genesis_alloc =
     \<lparr>cs_chain_id = chain_id, cs_spec_id = spec_id, cs_genesis_alloc = genesis_alloc,
      cs_genesis_code = [], cs_genesis_storage = [], cs_base_fee_wei = GENESIS_BASE_FEE_WEI\<rparr>"

definition devnet :: KanariChainSpec where
  "devnet =
     \<lparr>cs_chain_id = KANARI_EVM_DEV_CHAIN_ID, cs_spec_id = KANARI_EVM_GENESIS_SPEC,
      cs_genesis_alloc = [(DEV_FUNDED_ACCOUNT, ucast DEV_FUNDED_BALANCE)],
      cs_genesis_code = [], cs_genesis_storage = [], cs_base_fee_wei = GENESIS_BASE_FEE_WEI\<rparr>"

definition with_base_fee :: "KanariChainSpec \<Rightarrow> u128 \<Rightarrow> KanariChainSpec" where
  "with_base_fee spec base_fee_wei = spec\<lparr>cs_base_fee_wei := max base_fee_wei 1\<rparr>"

section \<open>Genesis\<close>

text \<open>
  The account of one allocation: code is looked up by address, built (which may panic) and dropped when empty.
\<close>

definition genesis_account ::
  "('db, 'st) Revm \<Rightarrow> KanariChainSpec \<Rightarrow> Address \<Rightarrow> U256 \<Rightarrow> AccountInfo outcome" where
  "genesis_account rv spec address balance =
     out_bind (case find (\<lambda>(a, _). a = address) (cs_genesis_code spec) of
                 None \<Rightarrow> Returns None
               | Some (_, c) \<Rightarrow> out_bind (rv_new_raw rv c) (\<lambda>bc. Returns (Some bc))) (\<lambda>built.
     let code = (case built of None \<Rightarrow> None | Some bc \<Rightarrow> (if bc = [] then None else Some bc));
         (code_hash, code') = (case code of
            Some bc \<Rightarrow> (rv_hash_slow rv bc, Some bc)
          | None \<Rightarrow> (rv_keccak_empty rv, None))
     in Returns \<lparr>ai_balance = balance, ai_nonce = 0, ai_code_hash = code_hash, ai_code = code'\<rparr>)"

fun insert_genesis_alloc ::
  "('db, 'st) Revm \<Rightarrow> KanariChainSpec \<Rightarrow> (Address \<times> U256) list \<Rightarrow> 'db \<Rightarrow> 'db outcome" where
  "insert_genesis_alloc rv spec [] db = Returns db"
| "insert_genesis_alloc rv spec ((address, balance) # rest) db =
     out_bind (genesis_account rv spec address balance) (\<lambda>info.
       insert_genesis_alloc rv spec rest (rv_insert_account_info rv db address info))"

text \<open>Contracts with no balance entry.\<close>

fun insert_genesis_code ::
  "('db, 'st) Revm \<Rightarrow> KanariChainSpec \<Rightarrow> (Address \<times> bytes) list \<Rightarrow> 'db \<Rightarrow> 'db outcome" where
  "insert_genesis_code rv spec [] db = Returns db"
| "insert_genesis_code rv spec ((address, code) # rest) db =
     (if code = [] \<or> (\<exists>p\<in>set (cs_genesis_alloc spec). fst p = address) then insert_genesis_code rv spec rest db
      else out_bind (rv_new_raw rv code) (\<lambda>bytecode.
        insert_genesis_code rv spec rest
          (rv_insert_account_info rv db address
             \<lparr>ai_balance = 0, ai_nonce = 0, ai_code_hash = rv_hash_slow rv bytecode, ai_code = Some bytecode\<rparr>)))"

text \<open>Storage slots; the \<open>expect\<close> on a failed insert is a panic.\<close>

fun insert_genesis_storage ::
  "('db, 'st) Revm \<Rightarrow> (Address \<times> U256 \<times> U256) list \<Rightarrow> 'db \<Rightarrow> 'db outcome" where
  "insert_genesis_storage rv [] db = Returns db"
| "insert_genesis_storage rv ((address, slot, value) # rest) db =
     (case rv_insert_account_storage rv db address slot value of
        (Inl _, _) \<Rightarrow> Panics
      | (Inr _, db') \<Rightarrow> insert_genesis_storage rv rest db')"

definition apply_genesis :: "('db, 'st) Revm \<Rightarrow> KanariChainSpec \<Rightarrow> 'db \<Rightarrow> 'db outcome" where
  "apply_genesis rv spec db =
     out_bind (insert_genesis_alloc rv spec (cs_genesis_alloc spec) db) (\<lambda>db1.
     out_bind (insert_genesis_code rv spec (cs_genesis_code spec) db1) (\<lambda>db2.
       insert_genesis_storage rv (cs_genesis_storage spec) db2))"

section \<open>Balances at genesis\<close>

text \<open>
  The codes that have to be built: for an allocated address the first code listed for it, and every non-empty code
  of an address without allocation.
\<close>

definition alloc_code :: "KanariChainSpec \<Rightarrow> Address \<Rightarrow> bytes set" where
  "alloc_code spec a = (case find (\<lambda>(a', _). a' = a) (cs_genesis_code spec) of None \<Rightarrow> {} | Some (_, c) \<Rightarrow> {c})"

definition other_code :: "KanariChainSpec \<Rightarrow> (Address \<times> bytes) list \<Rightarrow> bytes set" where
  "other_code spec code = {c. \<exists>a. (a, c) \<in> set code \<and> c \<noteq> [] \<and> a \<notin> fst ` set (cs_genesis_alloc spec)}"

definition built_codes :: "KanariChainSpec \<Rightarrow> bytes set" where
  "built_codes spec = (\<Union>a\<in>fst ` set (cs_genesis_alloc spec). alloc_code spec a) \<union> other_code spec (cs_genesis_code spec)"

lemma genesis_account_cases:
  obtains (rejected) c where "c \<in> alloc_code spec a" "rv_new_raw rv c = Panics" "genesis_account rv spec a v = Panics"
  | (built) info where "\<forall>c\<in>alloc_code spec a. rv_new_raw rv c \<noteq> Panics" "genesis_account rv spec a v = Returns info"
      "ai_balance info = v"
proof (cases "find (\<lambda>(a', _). a' = a) (cs_genesis_code spec)")
  case None
  then show thesis by (intro built) (auto simp: alloc_code_def genesis_account_def Let_def split: prod.splits)
next
  case (Some p)
  then obtain b c where p: "find (\<lambda>(a', _). a' = a) (cs_genesis_code spec) = Some (b, c)" by (cases p) simp
  show thesis
  proof (cases "rv_new_raw rv c")
    case Panics
    with p show thesis by (intro rejected [of c]) (simp_all add: alloc_code_def genesis_account_def)
  next
    case (Returns bc)
    with p show thesis
      by (intro built [of "\<lparr>ai_balance = v, ai_nonce = 0,
            ai_code_hash = (if bc = [] then rv_keccak_empty rv else rv_hash_slow rv bc),
            ai_code = (if bc = [] then None else Some bc)\<rparr>"])
        (simp_all add: alloc_code_def genesis_account_def Let_def)
  qed
qed

lemma insert_genesis_alloc_cases:
  assumes "db_ok rv"
  shows "if \<exists>a\<in>fst ` set alloc. \<exists>c\<in>alloc_code spec a. rv_new_raw rv c = Panics
    then insert_genesis_alloc rv spec alloc db = Panics
    else \<exists>db'. insert_genesis_alloc rv spec alloc db = Returns db' \<and> (\<forall>b. balance_in rv db' b =
      (case map_of (rev alloc) b of Some v \<Rightarrow> unat v | None \<Rightarrow> balance_in rv db b))"
proof (induction alloc arbitrary: db)
  case Nil
  then show ?case by simp
next
  case (Cons p alloc)
  obtain a v where p: "p = (a, v)" by (cases p)
  show ?case
  proof (cases rule: genesis_account_cases [of spec a rv v])
    case (rejected c)
    then show ?thesis by (auto simp: p)
  next
    case (built info)
    then have "(\<exists>b\<in>fst ` set (p # alloc). \<exists>c\<in>alloc_code spec b. rv_new_raw rv c = Panics)
      \<longleftrightarrow> (\<exists>b\<in>fst ` set alloc. \<exists>c\<in>alloc_code spec b. rv_new_raw rv c = Panics)" by (auto simp: p)
    with Cons [of "rv_insert_account_info rv db a info"] built(2,3) show ?thesis
      by (auto simp: p balance_insert [OF assms] map_of_append map_add_def split: if_splits option.splits)
  qed
qed

lemma insert_genesis_code_cases:
  assumes "db_ok rv"
  shows "if \<exists>c\<in>other_code spec code. rv_new_raw rv c = Panics
    then insert_genesis_code rv spec code db = Panics
    else \<exists>db'. insert_genesis_code rv spec code db = Returns db' \<and> (\<forall>b. balance_in rv db' b =
      (if \<exists>c. c \<noteq> [] \<and> (b, c) \<in> set code \<and> b \<notin> fst ` set (cs_genesis_alloc spec) then 0 else balance_in rv db b))"
proof (induction code arbitrary: db)
  case Nil
  then show ?case by (simp add: other_code_def)
next
  case (Cons p code)
  obtain a c where p: "p = (a, c)" by (cases p)
  show ?case
  proof (cases "c = [] \<or> a \<in> fst ` set (cs_genesis_alloc spec)")
    case True
    then have "other_code spec (p # code) = other_code spec code" by (auto simp: other_code_def p)
    moreover have "insert_genesis_code rv spec (p # code) db = insert_genesis_code rv spec code db"
      using True by (auto simp: p image_iff)
    moreover have "(\<exists>d. d \<noteq> [] \<and> (b, d) \<in> set (p # code) \<and> b \<notin> fst ` set (cs_genesis_alloc spec))
      \<longleftrightarrow> (\<exists>d. d \<noteq> [] \<and> (b, d) \<in> set code \<and> b \<notin> fst ` set (cs_genesis_alloc spec))" for b
      using True by (auto simp: p)
    ultimately show ?thesis using Cons [of db] by simp
  next
    case False
    then have "other_code spec (p # code) = insert c (other_code spec code)" by (auto simp: other_code_def p)
    then have oc: "(\<exists>d\<in>other_code spec (p # code). rv_new_raw rv d = Panics)
      \<longleftrightarrow> rv_new_raw rv c = Panics \<or> (\<exists>d\<in>other_code spec code. rv_new_raw rv d = Panics)" by simp
    have ins: "insert_genesis_code rv spec (p # code) db = out_bind (rv_new_raw rv c) (\<lambda>bytecode.
        insert_genesis_code rv spec code (rv_insert_account_info rv db a
          \<lparr>ai_balance = 0, ai_nonce = 0, ai_code_hash = rv_hash_slow rv bytecode, ai_code = Some bytecode\<rparr>))"
      using False by (auto simp: p image_iff)
    show ?thesis
    proof (cases "rv_new_raw rv c")
      case Panics
      then show ?thesis unfolding oc ins by simp
    next
      case (Returns bc)
      with Cons [of "rv_insert_account_info rv db a
          \<lparr>ai_balance = 0, ai_nonce = 0, ai_code_hash = rv_hash_slow rv bc, ai_code = Some bc\<rparr>"] False
      show ?thesis unfolding oc ins by (auto simp: p balance_insert [OF assms]) blast+
    qed
  qed
qed

lemma balance_insert_genesis_storage:
  assumes "storage_insert_ok rv"
  shows "\<exists>db'. insert_genesis_storage rv st db = Returns db'
    \<and> (\<forall>b. balance_in rv db' b = balance_in rv db b)"
proof (induction st arbitrary: db)
  case Nil
  then show ?case by simp
next
  case (Cons x st)
  obtain a s v where x: "x = (a, s, v)" by (cases x)
  obtain db1 where db1: "rv_insert_account_storage rv db a s v = (Inr (), db1)"
      "\<And>b. balance_in rv db1 b = balance_in rv db b"
    using assms unfolding storage_insert_ok_def by (metis prod.collapse snd_conv)
  with Cons [of db1] show ?case by (auto simp: x)
qed

text \<open>The sum over the whole address space of the last allocation of each address.\<close>

lemma sum_map_of_distinct:
  assumes "distinct (map fst alloc)"
  shows "(\<Sum>b\<in>UNIV. case map_of alloc b of Some v \<Rightarrow> unat v | None \<Rightarrow> 0)
     = sum_list (map (\<lambda>(a, v). unat v) (alloc :: (Address \<times> U256) list))"
  using assms
proof (induction alloc)
  case Nil
  then show ?case by simp
next
  case (Cons p alloc)
  obtain a v where p: "p = (a, v)" by (cases p)
  with Cons.prems have none: "map_of alloc a = None" by (auto simp: map_of_eq_None_iff)
  have "(\<Sum>b\<in>UNIV. case map_of (p # alloc) b of Some v \<Rightarrow> unat v | None \<Rightarrow> 0)
      = (\<Sum>b\<in>UNIV. if b = a then unat v
           else (case map_of alloc b of Some v \<Rightarrow> unat v | None \<Rightarrow> 0))"
    by (rule sum.cong) (auto simp: p)
  also have "\<dots> = unat v + (\<Sum>b\<in>UNIV. case map_of alloc b of Some v \<Rightarrow> unat v | None \<Rightarrow> 0)"
    using sum.remove [of UNIV a "\<lambda>b. case map_of alloc b of Some v \<Rightarrow> unat v | None \<Rightarrow> 0"]
    by (simp add: sum_single_key none)
  finally show ?case using Cons by (simp add: p)
qed

text \<open>Genesis returns exactly when every code that has to be built is accepted, with these balances.\<close>

definition genesis_balance :: "('db, 'st) Revm \<Rightarrow> KanariChainSpec \<Rightarrow> 'db \<Rightarrow> Address \<Rightarrow> nat" where
  "genesis_balance rv spec db b =
     (case map_of (rev (cs_genesis_alloc spec)) b of
        Some v \<Rightarrow> unat v
      | None \<Rightarrow> (if \<exists>c. c \<noteq> [] \<and> (b, c) \<in> set (cs_genesis_code spec) then 0 else balance_in rv db b))"

lemma apply_genesis_cases:
  assumes "db_ok rv" and "storage_insert_ok rv"
  shows "if \<exists>c\<in>built_codes spec. rv_new_raw rv c = Panics then apply_genesis rv spec db = Panics
    else \<exists>db'. apply_genesis rv spec db = Returns db' \<and> (\<forall>b. balance_in rv db' b = genesis_balance rv spec db b)"
proof (cases "\<exists>a\<in>fst ` set (cs_genesis_alloc spec). \<exists>c\<in>alloc_code spec a. rv_new_raw rv c = Panics")
  case True
  then have "insert_genesis_alloc rv spec (cs_genesis_alloc spec) db = Panics"
    using insert_genesis_alloc_cases [OF assms(1), of "cs_genesis_alloc spec" spec db] by simp
  with True show ?thesis by (auto simp: apply_genesis_def built_codes_def)
next
  case False
  then obtain db1 where db1: "insert_genesis_alloc rv spec (cs_genesis_alloc spec) db = Returns db1"
      "\<And>b. balance_in rv db1 b = (case map_of (rev (cs_genesis_alloc spec)) b of Some v \<Rightarrow> unat v | None \<Rightarrow> balance_in rv db b)"
    using insert_genesis_alloc_cases [OF assms(1), of "cs_genesis_alloc spec" spec db] by auto
  show ?thesis
  proof (cases "\<exists>c\<in>other_code spec (cs_genesis_code spec). rv_new_raw rv c = Panics")
    case True
    then have "insert_genesis_code rv spec (cs_genesis_code spec) db1 = Panics"
      using insert_genesis_code_cases [OF assms(1), of spec "cs_genesis_code spec" db1] by simp
    with True db1(1) show ?thesis by (auto simp: apply_genesis_def built_codes_def)
  next
    case False': False
    then obtain db2 where db2: "insert_genesis_code rv spec (cs_genesis_code spec) db1 = Returns db2"
        "\<And>b. balance_in rv db2 b = (if \<exists>c. c \<noteq> [] \<and> (b, c) \<in> set (cs_genesis_code spec) \<and> b \<notin> fst ` set (cs_genesis_alloc spec)
           then 0 else balance_in rv db1 b)"
      using insert_genesis_code_cases [OF assms(1), of spec "cs_genesis_code spec" db1] by auto
    obtain db' where db': "insert_genesis_storage rv (cs_genesis_storage spec) db2 = Returns db'"
        "\<And>b. balance_in rv db' b = balance_in rv db2 b"
      using balance_insert_genesis_storage [OF assms(2)] by blast
    have none: "map_of (rev (cs_genesis_alloc spec)) b = None \<longleftrightarrow> b \<notin> fst ` set (cs_genesis_alloc spec)" for b
      by (simp add: map_of_eq_None_iff)
    have "balance_in rv db' b = genesis_balance rv spec db b" for b
      unfolding db'(2) db2(2) db1(2) genesis_balance_def none [symmetric] by (auto split: option.split)
    with False False' db1(1) db2(1) db'(1) show ?thesis by (auto simp: apply_genesis_def built_codes_def)
  qed
qed

lemma apply_genesis_returns:
  assumes "db_ok rv" and "storage_insert_ok rv" and "apply_genesis rv spec db = Returns db'"
  shows "balance_in rv db' b = genesis_balance rv spec db b"
  using apply_genesis_cases [OF assms(1,2), of spec db] assms(3) by (auto split: if_splits)

lemma apply_genesis_no_code:
  assumes "db_ok rv" and "storage_insert_ok rv" and "cs_genesis_code spec = []"
  obtains db' where "apply_genesis rv spec db = Returns db'"
proof -
  have "built_codes spec = {}" by (simp add: built_codes_def alloc_code_def other_code_def assms(3))
  with apply_genesis_cases [OF assms(1,2), of spec db] that show thesis by auto
qed

lemma total_supply_apply_genesis:
  assumes "db_ok rv" and "storage_insert_ok rv" and "total_supply rv db = 0"
    and "distinct (map fst (cs_genesis_alloc spec))" and "apply_genesis rv spec db = Returns db'"
  shows "total_supply rv db' = sum_list (map (\<lambda>(a, v). unat v) (cs_genesis_alloc spec))"
proof -
  have "balance_in rv db b = 0" for b using balance_le_total [of rv db b] assms(3) by simp
  then have "total_supply rv db'
      = (\<Sum>b\<in>UNIV. case map_of (rev (cs_genesis_alloc spec)) b of Some v \<Rightarrow> unat v | None \<Rightarrow> 0)"
    unfolding total_supply_def
    by (intro sum.cong) (auto simp: apply_genesis_returns [OF assms(1,2,5)] genesis_balance_def split: option.splits)
  also have "\<dots> = sum_list (map (\<lambda>(a, v). unat v) (rev (cs_genesis_alloc spec)))"
    by (rule sum_map_of_distinct) (use assms(4) in \<open>simp add: rev_map [symmetric]\<close>)
  finally show ?thesis by (simp add: rev_map [symmetric] sum_list_rev)
qed

section \<open>Properties\<close>

text \<open>
  C29. Genesis balances: applying a chain specification panics exactly when \<open>Bytecode::new_raw\<close> rejects one of the codes
  that have to be built; otherwise it returns, an allocated address holds its last allocation, a contract of the
  genesis code without an allocation holds nothing, and every other balance is untouched.
\<close>

theorem apply_genesis_balances:
  assumes "db_ok rv" and "storage_insert_ok rv"
  shows "if \<exists>c\<in>built_codes spec. rv_new_raw rv c = Panics then apply_genesis rv spec db = Panics
    else \<exists>db'. apply_genesis rv spec db = Returns db' \<and>
      (\<forall>b. balance_in rv db' b =
        (case map_of (rev (cs_genesis_alloc spec)) b of
           Some v \<Rightarrow> unat v
         | None \<Rightarrow> (if \<exists>c. c \<noteq> [] \<and> (b, c) \<in> set (cs_genesis_code spec) then 0 else balance_in rv db b)))"
  using apply_genesis_cases [OF assms, of spec db] unfolding genesis_balance_def .

text \<open>The development network, and a specification whose code is a designator of unknown version.\<close>

theorem apply_genesis_balances_witness:
  "(\<exists>db'. apply_genesis mem_revm devnet [] = Returns db'
     \<and> balance_in mem_revm db' DEV_FUNDED_ACCOUNT = 11000000000000000000000000
     \<and> balance_in mem_revm db' 1 = 0)
   \<and> apply_genesis mem_revm (devnet\<lparr>cs_genesis_code := [(7, [0xef, 0x01, 0x02])]\<rparr>) [] = Panics"
proof -
  have *: "map_of (rev (cs_genesis_alloc devnet)) DEV_FUNDED_ACCOUNT = Some 11000000000000000000000000"
    "map_of (rev (cs_genesis_alloc devnet)) 1 = None"
    by (simp_all add: devnet_def DEV_FUNDED_BALANCE_def) (simp add: DEV_FUNDED_ACCOUNT_def)
  have "built_codes devnet = {}" by (simp add: built_codes_def alloc_code_def other_code_def devnet_def)
  then obtain db' where "apply_genesis mem_revm devnet [] = Returns db'"
    "\<forall>b. balance_in mem_revm db' b =
      (case map_of (rev (cs_genesis_alloc devnet)) b of
         Some v \<Rightarrow> unat v
       | None \<Rightarrow> (if \<exists>c. c \<noteq> [] \<and> (b, c) \<in> set (cs_genesis_code devnet) then 0
                 else balance_in mem_revm [] b))"
    using apply_genesis_balances [OF mem_db_ok mem_storage_insert_ok, of devnet "[]"] by auto
  moreover have "[0xef, 0x01, 0x02] \<in> built_codes (devnet\<lparr>cs_genesis_code := [(7, [0xef, 0x01, 0x02])]\<rparr>)"
    "rv_new_raw mem_revm [0xef, 0x01, 0x02] = Panics"
    by (auto simp: built_codes_def other_code_def devnet_def DEV_FUNDED_ACCOUNT_def)
      (simp add: mem_revm_def designator_checked_def)
  then have "apply_genesis mem_revm (devnet\<lparr>cs_genesis_code := [(7, [0xef, 0x01, 0x02])]\<rparr>) [] = Panics"
    by (intro apply_genesis_balances [OF mem_db_ok mem_storage_insert_ok, THEN if_P [THEN iffD1, rotated]]) blast
  ultimately show ?thesis by (intro conjI exI [of _ db']) (simp_all add: * mem_balance mem_get_def)
qed

text \<open>
  Supply at genesis: over an empty database, allocations to distinct addresses put exactly their
  sum into circulation, whatever code and storage the specification carries.
\<close>

theorem genesis_supply:
  assumes "db_ok rv" and "storage_insert_ok rv" and "total_supply rv db = 0"
    and "distinct (map fst (cs_genesis_alloc spec))" and "apply_genesis rv spec db = Returns db'"
  shows "total_supply rv db' = sum_list (map (\<lambda>(a, v). unat v) (cs_genesis_alloc spec))"
  using assms by (rule total_supply_apply_genesis)

theorem genesis_supply_witness:
  "\<exists>db'. apply_genesis mem_revm devnet [] = Returns db'
     \<and> total_supply mem_revm db' = 11000000 * 10 ^ 18"
proof -
  have "cs_genesis_code devnet = []" by (simp add: devnet_def)
  from apply_genesis_no_code [OF mem_db_ok mem_storage_insert_ok this, where db = "[]"]
  obtain db' where db': "apply_genesis mem_revm devnet [] = Returns db'" .
  from genesis_supply [OF mem_db_ok mem_storage_insert_ok mem_total_empty _ db'] have
    "total_supply mem_revm db' = 11000000 * 10 ^ 18" by (simp add: devnet_def DEV_FUNDED_BALANCE_def)
  with db' show ?thesis by blast
qed

end
