(* ===== verification/Store.thy ===== *)
theory Store
  imports Instances
begin

text \<open>
  The durable chain store (\<^verbatim>\<open>crates/storage/src/store.rs\<close>): key layout, the atomic block
  seal, point reads, the replay scan, chain metadata and the faucet key, over the RocksDB operations
  of \<^theory_text>\<open>Externals\<close>. \<open>&self\<close> methods that write return the new database contents.
\<close>

section \<open>Key layout\<close>

definition META_CHAIN_ID :: bytes where "META_CHAIN_ID = ascii ''m:chain_id''"
definition META_GENESIS :: bytes where "META_GENESIS = ascii ''m:genesis''"
definition META_HEIGHT :: bytes where "META_HEIGHT = ascii ''m:height''"
definition META_FAUCET_KEY :: bytes where "META_FAUCET_KEY = ascii ''m:faucet_key''"

definition block_key :: "u64 \<Rightarrow> bytes" where
  "block_key number = ascii (''b:'' @ pad_zero 16 (lower_hex (unat number)))"

definition receipt_key :: "B256 \<Rightarrow> bytes" where
  "receipt_key hash = ascii ''r:'' @ ascii (hex_encode (to_be_bytes 32 hash))"

definition tx_index_key :: "B256 \<Rightarrow> bytes" where
  "tx_index_key hash = ascii ''t:'' @ ascii (hex_encode (to_be_bytes 32 hash))"

lemmas meta_keys = META_CHAIN_ID_def META_GENESIS_def META_HEIGHT_def META_FAUCET_KEY_def

text \<open>\<open><base>.chain.db\<close>: the directory from the parent and the file name of the state path.\<close>

definition chain_db_dir :: "string option \<Rightarrow> string option \<Rightarrow> string \<times> string" where
  "chain_db_dir parent file_name =
     (let name = (case file_name of None \<Rightarrow> ''kanari-evm-state'' | Some n \<Rightarrow> n);
          stem = takeWhile (\<lambda>c. c \<noteq> CHR ''.'') name
      in ((case parent of None \<Rightarrow> ''.'' | Some p \<Rightarrow> p), stem @ ''.chain.db''))"

section \<open>Operations\<close>

definition get_u64 :: "'h Kv \<Rightarrow> 'h \<Rightarrow> bytes \<Rightarrow> StoreError + u64 option" where
  "get_u64 kv h key =
     (case kv_get kv h key of
        Inl e \<Rightarrow> Inl (Backend e)
      | Inr None \<Rightarrow> Inr None
      | Inr (Some bs) \<Rightarrow>
          (if length bs = 8 then Inr (Some (from_le_bytes bs))
           else Inl (Backend ''corrupt meta entry'')))"

definition is_fresh :: "'h Kv \<Rightarrow> 'h \<Rightarrow> StoreError + bool" where
  "is_fresh kv h =
     (case get_u64 kv h META_HEIGHT of Inl e \<Rightarrow> Inl e | Inr v \<Rightarrow> Inr (v = None))"

text \<open>The puts of a block's receipts, in order; the first codec error stops the loop.\<close>

fun receipt_puts ::
  "Codec \<Rightarrow> u64 \<Rightarrow> (B256 \<times> StoredReceipt) list \<Rightarrow> string + (bytes \<times> bytes) list" where
  "receipt_puts cd number [] = Inr []"
| "receipt_puts cd number ((hash, receipt) # rs) =
     (case ser_receipt cd receipt of
        Inl e \<Rightarrow> Inl e
      | Inr receipt_bytes \<Rightarrow>
          (case receipt_puts cd number rs of
             Inl e \<Rightarrow> Inl e
           | Inr puts \<Rightarrow> Inr ((receipt_key hash, receipt_bytes)
                            # (tx_index_key hash, to_le_bytes 8 number) # puts)))"

definition save_block ::
  "'h Kv \<Rightarrow> Codec \<Rightarrow> 'h \<Rightarrow> SealedBlock \<Rightarrow> (B256 \<times> StoredReceipt) list
     \<Rightarrow> (StoreError + unit) \<times> 'h" where
  "save_block kv cd h block receipts =
     (case ser_block cd block of
        Inl e \<Rightarrow> (Inl (Backend e), h)
      | Inr block_bytes \<Rightarrow>
          (case receipt_puts cd (sb_number block) receipts of
             Inl e \<Rightarrow> (Inl (Backend e), h)
           | Inr puts \<Rightarrow>
               (let (r, h') = kv_write kv h
                      ((block_key (sb_number block), block_bytes)
                       # puts @ [(META_HEIGHT, to_le_bytes 8 (sb_number block))])
                in (map_err Backend r, h'))))"

definition load_block :: "'h Kv \<Rightarrow> Codec \<Rightarrow> 'h \<Rightarrow> u64 \<Rightarrow> StoreError + SealedBlock option" where
  "load_block kv cd h number =
     (case kv_get kv h (block_key number) of
        Inl e \<Rightarrow> Inl (Backend e)
      | Inr None \<Rightarrow> Inr None
      | Inr (Some bs) \<Rightarrow> (case de_block cd bs of Inl e \<Rightarrow> Inl (Backend e) | Inr b \<Rightarrow> Inr (Some b)))"

text \<open>The body of \<open>for number in 1..=height\<close>: a missing block is skipped, an error stops.\<close>

fun load_block_list :: "'h Kv \<Rightarrow> Codec \<Rightarrow> 'h \<Rightarrow> u64 list \<Rightarrow> StoreError + SealedBlock list" where
  "load_block_list kv cd h [] = Inr []"
| "load_block_list kv cd h (n # ns) =
     (case load_block kv cd h n of
        Inl e \<Rightarrow> Inl e
      | Inr b \<Rightarrow>
          (case load_block_list kv cd h ns of
             Inl e \<Rightarrow> Inl e
           | Inr bs \<Rightarrow> Inr (case b of None \<Rightarrow> bs | Some blk \<Rightarrow> blk # bs)))"

definition load_blocks :: "'h Kv \<Rightarrow> Codec \<Rightarrow> 'h \<Rightarrow> StoreError + SealedBlock list" where
  "load_blocks kv cd h =
     (case get_u64 kv h META_HEIGHT of
        Inl e \<Rightarrow> Inl e
      | Inr v \<Rightarrow>
          (let height = (case v of None \<Rightarrow> 0 | Some n \<Rightarrow> n)
           in load_block_list kv cd h (map of_nat [1..<Suc (unat height)])))"

definition load_receipt :: "'h Kv \<Rightarrow> Codec \<Rightarrow> 'h \<Rightarrow> B256 \<Rightarrow> StoreError + StoredReceipt option" where
  "load_receipt kv cd h hash =
     (case kv_get kv h (receipt_key hash) of
        Inl e \<Rightarrow> Inl (Backend e)
      | Inr None \<Rightarrow> Inr None
      | Inr (Some bs) \<Rightarrow> (case de_receipt cd bs of Inl e \<Rightarrow> Inl (Backend e) | Inr r \<Rightarrow> Inr (Some r)))"

definition block_number_for_tx :: "'h Kv \<Rightarrow> 'h \<Rightarrow> B256 \<Rightarrow> StoreError + u64 option" where
  "block_number_for_tx kv h hash =
     (case kv_get kv h (tx_index_key hash) of
        Inl e \<Rightarrow> Inl (Backend e)
      | Inr None \<Rightarrow> Inr None
      | Inr (Some bs) \<Rightarrow>
          (if length bs = 8 then Inr (Some (from_le_bytes bs))
           else Inl (Backend ''corrupt tx index entry'')))"

definition height :: "'h Kv \<Rightarrow> 'h \<Rightarrow> StoreError + u64" where
  "height kv h =
     (case get_u64 kv h META_HEIGHT of
        Inl e \<Rightarrow> Inl e
      | Inr v \<Rightarrow> Inr (case v of None \<Rightarrow> 0 | Some n \<Rightarrow> n))"

definition init_meta ::
  "'h Kv \<Rightarrow> Codec \<Rightarrow> 'h \<Rightarrow> u64 \<Rightarrow> (Address \<times> U256) list \<Rightarrow> (StoreError + unit) \<times> 'h" where
  "init_meta kv cd h chain_id genesis_alloc =
     (case ser_alloc cd genesis_alloc of
        Inl e \<Rightarrow> (Inl (Backend e), h)
      | Inr alloc_bytes \<Rightarrow>
          (let (r, h') = kv_write kv h
                 [(META_CHAIN_ID, to_le_bytes 8 chain_id), (META_GENESIS, alloc_bytes)]
           in (map_err Backend r, h')))"

definition stored_chain_id :: "'h Kv \<Rightarrow> 'h \<Rightarrow> StoreError + u64 option" where
  "stored_chain_id kv h = get_u64 kv h META_CHAIN_ID"

definition stored_genesis_alloc :: "'h Kv \<Rightarrow> Codec \<Rightarrow> 'h \<Rightarrow> StoreError + (Address \<times> U256) list" where
  "stored_genesis_alloc kv cd h =
     (case kv_get kv h META_GENESIS of
        Inl e \<Rightarrow> Inl (Backend e)
      | Inr None \<Rightarrow> Inr []
      | Inr (Some bs) \<Rightarrow> map_err Backend (de_alloc cd bs))"

definition store_set_faucet_key :: "'h Kv \<Rightarrow> 'h \<Rightarrow> B256 \<Rightarrow> (StoreError + unit) \<times> 'h" where
  "store_set_faucet_key kv h secret =
     (let (r, h') = kv_put kv h META_FAUCET_KEY (to_be_bytes 32 secret) in (map_err Backend r, h'))"

definition store_load_faucet_key :: "'h Kv \<Rightarrow> 'h \<Rightarrow> StoreError + B256 option" where
  "store_load_faucet_key kv h =
     (case kv_get kv h META_FAUCET_KEY of
        Inl e \<Rightarrow> Inl (Backend e)
      | Inr None \<Rightarrow> Inr None
      | Inr (Some bs) \<Rightarrow>
          (if length bs = 32 then Inr (Some (from_be_bytes bs))
           else Inl (Backend ''corrupt faucet key'')))"

lemmas store_reads = get_u64_def load_block_def load_receipt_def block_number_for_tx_def height_def
  stored_chain_id_def stored_genesis_alloc_def store_load_faucet_key_def is_fresh_def

section \<open>Keys do not collide\<close>

lemma of_char_inject_byte: "(of_char a :: u8) = of_char b \<longleftrightarrow> a = b"
proof -
  have "unat (of_char c :: u8) = of_char c" for c
  proof -
    have "(of_char c :: nat) < 256" by (rule nat_of_char_less_256)
    moreover have "(of_char c :: u8) = of_nat (of_char c)" by (simp add: of_char_def)
    ultimately show ?thesis by (simp only: unat_of_nat) simp
  qed
  then show ?thesis by (metis of_char_eq_iff)
qed

lemma ascii_inject: "ascii s = ascii t \<longleftrightarrow> s = t"
proof
  assume "ascii s = ascii t"
  then show "s = t"
    unfolding ascii_def by (rule map_injective) (auto intro!: injI simp: of_char_inject_byte)
qed simp

lemma ascii_append: "ascii (s @ t) = ascii s @ ascii t"
  by (simp add: ascii_def)

lemma block_key_eq: "block_key n = ascii ''b:'' @ ascii (fixed_hex 16 (unat n))"
proof -
  have "unat n < 16 ^ Suc 15" using unsigned_less [of n, where ?'a = nat] by simp
  from pad_zero_lower_hex [OF this] have "pad_zero 16 (lower_hex (unat n)) = fixed_hex 16 (unat n)"
    by (simp only: eval_nat_numeral) simp
  then show ?thesis by (simp add: block_key_def) (simp add: ascii_def)
qed

lemma block_key_inject: "block_key m = block_key n \<longleftrightarrow> m = n"
proof -
  have "unat w < 16 ^ 16" for w :: u64 using unsigned_less [of w, where ?'a = nat] by simp
  then show ?thesis
    by (simp add: block_key_eq ascii_inject fixed_hex_inject word_unat_eq_iff)
qed

lemma receipt_key_inject: "receipt_key a = receipt_key b \<longleftrightarrow> a = b"
  by (simp add: receipt_key_def ascii_inject hex.enc_inject)

lemma tx_index_key_inject: "tx_index_key a = tx_index_key b \<longleftrightarrow> a = b"
  by (simp add: tx_index_key_def ascii_inject hex.enc_inject)

lemma key_tags:
  "take 2 (block_key n) = ascii ''b:''" "take 2 (receipt_key x) = ascii ''r:''"
  "take 2 (tx_index_key x) = ascii ''t:''" "take 2 META_CHAIN_ID = ascii ''m:''"
  "take 2 META_GENESIS = ascii ''m:''" "take 2 META_HEIGHT = ascii ''m:''"
  "take 2 META_FAUCET_KEY = ascii ''m:''"
  by (simp_all add: block_key_eq receipt_key_def tx_index_key_def meta_keys) (simp_all add: ascii_def)

lemma tags_distinct:
  "ascii ''b:'' \<noteq> ascii ''r:''" "ascii ''b:'' \<noteq> ascii ''t:''" "ascii ''b:'' \<noteq> ascii ''m:''"
  "ascii ''r:'' \<noteq> ascii ''t:''" "ascii ''r:'' \<noteq> ascii ''m:''" "ascii ''t:'' \<noteq> ascii ''m:''"
  by (simp_all add: ascii_inject)

lemma chain_keys [simp]:
  "chain_key (block_key n)" "chain_key (receipt_key x)" "chain_key (tx_index_key x)"
  "chain_key META_CHAIN_ID" "chain_key META_GENESIS" "chain_key META_HEIGHT"
  "chain_key META_FAUCET_KEY"
  by (simp_all add: chain_key_def key_tags)

lemma key_families_disjoint [simp]:
  "block_key n \<noteq> receipt_key x" "block_key n \<noteq> tx_index_key x" "receipt_key x \<noteq> tx_index_key y"
  "block_key n \<noteq> META_HEIGHT" "receipt_key x \<noteq> META_HEIGHT" "tx_index_key x \<noteq> META_HEIGHT"
  "block_key n \<noteq> META_CHAIN_ID" "receipt_key x \<noteq> META_CHAIN_ID" "tx_index_key x \<noteq> META_CHAIN_ID"
  "block_key n \<noteq> META_GENESIS" "receipt_key x \<noteq> META_GENESIS" "tx_index_key x \<noteq> META_GENESIS"
  "block_key n \<noteq> META_FAUCET_KEY" "receipt_key x \<noteq> META_FAUCET_KEY"
  "tx_index_key x \<noteq> META_FAUCET_KEY"
  using tags_distinct by (metis key_tags)+

lemma meta_keys_distinct [simp]:
  "META_HEIGHT \<noteq> META_CHAIN_ID" "META_HEIGHT \<noteq> META_GENESIS" "META_HEIGHT \<noteq> META_FAUCET_KEY"
  "META_CHAIN_ID \<noteq> META_GENESIS" "META_CHAIN_ID \<noteq> META_FAUCET_KEY"
  "META_GENESIS \<noteq> META_FAUCET_KEY"
  by (simp_all add: meta_keys ascii_inject)

lemmas keys_neq = key_families_disjoint key_families_disjoint [symmetric]
  meta_keys_distinct meta_keys_distinct [symmetric]

section \<open>Effects of the writes\<close>

lemma kv_get_write:
  "kv_ok kv \<Longrightarrow> kv_write kv h ops = (Inr (), h') \<Longrightarrow>
     kv_get kv h' k = (case map_of (rev ops) k of Some v \<Rightarrow> Inr (Some v) | None \<Rightarrow> kv_get kv h k)"
  by (simp add: kv_ok_def)

lemma kv_get_failed_write:
  "kv_ok kv \<Longrightarrow> kv_write kv h ops = (Inl e, h') \<Longrightarrow> kv_get kv h' k = kv_get kv h k"
  by (simp add: kv_ok_def)

lemma kv_get_smt_rebuild [simp]:
  "kv_ok kv \<Longrightarrow> chain_key k \<Longrightarrow> kv_get kv (snd (smt_rebuild kv h es)) k = kv_get kv h k"
  by (simp add: kv_ok_def)

lemma kv_put_write: "kv_ok kv \<Longrightarrow> kv_put kv h k v = kv_write kv h [(k, v)]"
  by (simp add: kv_ok_def)

text \<open>A successful save of one receipt, as the node calls it, read back key by key.\<close>

lemma save_block_ok:
  assumes "kv_ok kv" and "save_block kv cd h b [(x, r)] = (Inr (), h')"
  obtains bb rb where "ser_block cd b = Inr bb" and "ser_receipt cd r = Inr rb"
    and "\<And>k. kv_get kv h' k =
        (if k = META_HEIGHT then Inr (Some (to_le_bytes 8 (sb_number b)))
         else if k = tx_index_key x then Inr (Some (to_le_bytes 8 (sb_number b)))
         else if k = receipt_key x then Inr (Some rb)
         else if k = block_key (sb_number b) then Inr (Some bb)
         else kv_get kv h k)"
proof -
  from assms(2) obtain bb rb where *: "ser_block cd b = Inr bb" "ser_receipt cd r = Inr rb"
      "kv_write kv h [(block_key (sb_number b), bb), (receipt_key x, rb),
         (tx_index_key x, to_le_bytes 8 (sb_number b)), (META_HEIGHT, to_le_bytes 8 (sb_number b))]
       = (Inr (), h')"
    by (auto simp: save_block_def Let_def split: sum.splits prod.splits)
  show thesis
    by (rule that [OF *(1,2)]) (use kv_get_write [OF assms(1) *(3)] in \<open>auto simp: keys_neq\<close>)
qed

text \<open>A failed save leaves every key as it was.\<close>

lemma save_block_failed:
  assumes "kv_ok kv" and "save_block kv cd h b rs = (Inl e, h')"
  shows "kv_get kv h' k = kv_get kv h k"
  using assms(2) kv_get_failed_write [OF assms(1)]
  by (auto simp: save_block_def Let_def map_err_Inl_iff split: sum.splits prod.splits)

lemma init_meta_ok:
  assumes "kv_ok kv" and "init_meta kv cd h c alloc = (Inr (), h')"
  obtains ab where "ser_alloc cd alloc = Inr ab"
    and "\<And>k. kv_get kv h' k =
        (if k = META_CHAIN_ID then Inr (Some (to_le_bytes 8 c))
         else if k = META_GENESIS then Inr (Some ab) else kv_get kv h k)"
proof -
  from assms(2) obtain ab where *: "ser_alloc cd alloc = Inr ab"
      "kv_write kv h [(META_CHAIN_ID, to_le_bytes 8 c), (META_GENESIS, ab)] = (Inr (), h')"
    by (auto simp: init_meta_def Let_def split: sum.splits prod.splits)
  show thesis
    by (rule that [OF *(1)]) (use kv_get_write [OF assms(1) *(2)] in \<open>auto simp: keys_neq\<close>)
qed

lemma store_set_faucet_key_ok:
  assumes "kv_ok kv" and "store_set_faucet_key kv h s = (Inr (), h')"
  shows "kv_get kv h' k =
    (if k = META_FAUCET_KEY then Inr (Some (to_be_bytes 32 s)) else kv_get kv h k)"
proof -
  from assms have "kv_write kv h [(META_FAUCET_KEY, to_be_bytes 32 s)] = (Inr (), h')"
    by (auto simp: store_set_faucet_key_def kv_put_write Let_def split: prod.splits)
  from kv_get_write [OF assms(1) this] show ?thesis by auto
qed

section \<open>The contract the node relies on\<close>

text \<open>
  What the execution layer expects of a block store: a save is visible to the reads of that block,
  of its receipt and of the height, leaves other blocks and receipts alone, and changes nothing when
  it fails. The client lemmas keep a list of sealed blocks and a receipt map in step with the store.
\<close>

locale block_log_store =
  fixes ok :: "'env \<Rightarrow> bool"
    and save :: "'env \<Rightarrow> 'h \<Rightarrow> SealedBlock \<Rightarrow> B256 \<Rightarrow> StoredReceipt \<Rightarrow> (StoreError + unit) \<times> 'h"
    and block_at :: "'env \<Rightarrow> 'h \<Rightarrow> u64 \<Rightarrow> StoreError + SealedBlock option"
    and receipt_at :: "'env \<Rightarrow> 'h \<Rightarrow> B256 \<Rightarrow> StoreError + StoredReceipt option"
    and top :: "'env \<Rightarrow> 'h \<Rightarrow> StoreError + u64"
  assumes block_at_save: "ok e \<Longrightarrow> save e h b x r = (Inr (), h') \<Longrightarrow>
      block_at e h' n = (if n = sb_number b then Inr (Some b) else block_at e h n)"
    and receipt_at_save: "ok e \<Longrightarrow> save e h b x r = (Inr (), h') \<Longrightarrow>
      receipt_at e h' y = (if y = x then Inr (Some r) else receipt_at e h y)"
    and top_save: "ok e \<Longrightarrow> save e h b x r = (Inr (), h') \<Longrightarrow> top e h' = Inr (sb_number b)"
    and failed_save: "ok e \<Longrightarrow> save e h b x r = (Inl err, h') \<Longrightarrow>
      block_at e h' n = block_at e h n \<and> receipt_at e h' y = receipt_at e h y \<and> top e h' = top e h"
begin

lemma blocks_save:
  assumes "ok e" and "save e h b x r = (Inr (), h')"
    and "\<And>c. c \<in> set bs \<Longrightarrow> block_at e h (sb_number c) = Inr (Some c)"
    and "sb_number b \<notin> sb_number ` set bs"
    and "c \<in> set (bs @ [b])"
  shows "block_at e h' (sb_number c) = Inr (Some c)"
  using assms by (auto simp: block_at_save image_iff)

lemma receipts_save:
  assumes "ok e" and "save e h b x r = (Inr (), h')"
    and "\<And>y q. rs y = Some q \<Longrightarrow> receipt_at e h y = Inr (Some q)"
    and "(rs(x \<mapsto> r)) y = Some q"
  shows "receipt_at e h' y = Inr (Some q)"
  using assms by (auto simp: receipt_at_save split: if_splits)

end

definition store_ok :: "'h Kv \<times> Codec \<Rightarrow> bool" where
  "store_ok e \<longleftrightarrow> kv_ok (fst e) \<and> codec_ok (snd e)"

lemma codec_block: "codec_ok cd \<Longrightarrow> ser_block cd b = Inr bs \<Longrightarrow> de_block cd bs = Inr b"
  by (auto simp: codec_ok_def) (metis sum.inject(2))

lemma codec_receipt: "codec_ok cd \<Longrightarrow> ser_receipt cd r = Inr bs \<Longrightarrow> de_receipt cd bs = Inr r"
  by (auto simp: codec_ok_def) (metis sum.inject(2))

lemma codec_alloc: "codec_ok cd \<Longrightarrow> ser_alloc cd a = Inr bs \<Longrightarrow> de_alloc cd bs = Inr a"
  by (auto simp: codec_ok_def) (metis sum.inject(2))

interpretation chain_store: block_log_store
  store_ok
  "\<lambda>e h b x r. save_block (fst e) (snd e) h b [(x, r)]"
  "\<lambda>e. load_block (fst e) (snd e)"
  "\<lambda>e. load_receipt (fst e) (snd e)"
  "\<lambda>e. height (fst e)"
proof (unfold_locales, goal_cases)
  case (1 e h b x r h' n)
  then have ok: "kv_ok (fst e)" "codec_ok (snd e)" by (simp_all add: store_ok_def)
  from 1(2) show ?case
    by (rule save_block_ok [OF ok(1)])
      (simp add: load_block_def keys_neq block_key_inject codec_block [OF ok(2)])
next
  case (2 e h b x r h' y)
  then have ok: "kv_ok (fst e)" "codec_ok (snd e)" by (simp_all add: store_ok_def)
  from 2(2) show ?case
    by (rule save_block_ok [OF ok(1)])
      (simp add: load_receipt_def keys_neq receipt_key_inject codec_receipt [OF ok(2)])
next
  case (3 e h b x r h')
  then have ok: "kv_ok (fst e)" by (simp add: store_ok_def)
  from 3(2) show ?case
    by (rule save_block_ok [OF ok(1)]) (simp add: height_def get_u64_def)
next
  case (4 e h b x r err h' n y)
  then have "kv_get (fst e) h' k = kv_get (fst e) h k" for k
    by (intro save_block_failed) (auto simp: store_ok_def)
  then show ?case by (simp add: store_reads)
qed

section \<open>The replay scan\<close>

text \<open>Blocks numbered 1, 2, \<dots> in list order, as sealing numbers them.\<close>

definition numbered :: "SealedBlock list \<Rightarrow> bool" where
  "numbered bs \<longleftrightarrow> length bs < 2 ^ 64 \<and> (\<forall>i < length bs. sb_number (bs ! i) = of_nat (Suc i))"

lemma numbered_last: "numbered bs \<Longrightarrow> bs \<noteq> [] \<Longrightarrow> sb_number (last bs) = of_nat (length bs)"
  by (simp add: numbered_def last_conv_nth del: of_nat_Suc)

lemma load_block_list_present:
  assumes "\<And>b. b \<in> set bs \<Longrightarrow> load_block kv cd h (sb_number b) = Inr (Some b)"
  shows "load_block_list kv cd h (map sb_number bs) = Inr bs"
  using assms by (induction bs) auto

lemma numbered_map: "numbered bs \<Longrightarrow> map of_nat [1..<Suc (length bs)] = map sb_number bs"
  by (rule nth_equalityI) (auto simp: numbered_def nth_upt simp del: upt_Suc of_nat_Suc)

lemma load_blocks_present:
  assumes "numbered bs"
    and "\<And>b. b \<in> set bs \<Longrightarrow> load_block kv cd h (sb_number b) = Inr (Some b)"
    and "get_u64 kv h META_HEIGHT = Inr (if bs = [] then None else Some (sb_number (last bs)))"
  shows "load_blocks kv cd h = Inr bs"
proof (cases "bs = []")
  case True
  with assms(3) show ?thesis by (simp add: load_blocks_def)
next
  case False
  have "unat (sb_number (last bs)) = length bs"
    using numbered_last [OF assms(1) False] assms(1) by (simp add: unat_of_nat numbered_def)
  with False assms(3) show ?thesis
    using numbered_map [OF assms(1)] load_block_list_present [OF assms(2)]
    by (simp add: load_blocks_def del: upt_Suc)
qed

text \<open>The scan reads chain keys only.\<close>

lemma load_blocks_cong:
  assumes "\<And>k. chain_key k \<Longrightarrow> kv_get kv h' k = kv_get kv h k"
  shows "load_blocks kv cd h' = load_blocks kv cd h"
proof -
  have "load_block_list kv cd h' ns = load_block_list kv cd h ns" for ns
    by (induction ns) (simp_all add: load_block_def assms cong: sum.case_cong)
  then show ?thesis by (simp add: load_blocks_def get_u64_def assms cong: sum.case_cong)
qed

section \<open>Properties\<close>

text \<open>
  Key layout: keys of different families never collide, keys of one family are injective in the
  block number or the hash, and every key carries one of the four chain tags, so none of them is a
  key of the Merkle tree.
\<close>

theorem store_keys_disjoint:
  "(block_key m = block_key n \<longleftrightarrow> m = n) \<and> (receipt_key x = receipt_key y \<longleftrightarrow> x = y)
   \<and> (tx_index_key x = tx_index_key y \<longleftrightarrow> x = y)
   \<and> distinct [block_key m, receipt_key x, tx_index_key y, META_CHAIN_ID, META_GENESIS, META_HEIGHT,
        META_FAUCET_KEY]
   \<and> list_all chain_key [block_key m, receipt_key x, tx_index_key y, META_CHAIN_ID, META_GENESIS,
        META_HEIGHT, META_FAUCET_KEY]"
  by (simp add: block_key_inject receipt_key_inject tx_index_key_inject keys_neq)

text \<open>
  C16. A block seal is atomic. Over a database that commits a batch as a whole: when \<open>save_block\<close>
  succeeds, the block, its receipt, its transaction index entry and the height all read back, and
  every other block, receipt, index entry and the metadata are as before; when it fails, every read
  is as before.
\<close>

theorem save_block_atomic:
  assumes "kv_ok kv" and "codec_ok cd"
  shows "case save_block kv cd h b [(x, r)] of
     (Inr _, h') \<Rightarrow>
       load_block kv cd h' n = (if n = sb_number b then Inr (Some b) else load_block kv cd h n)
       \<and> load_receipt kv cd h' y = (if y = x then Inr (Some r) else load_receipt kv cd h y)
       \<and> block_number_for_tx kv h' y
           = (if y = x then Inr (Some (sb_number b)) else block_number_for_tx kv h y)
       \<and> height kv h' = Inr (sb_number b) \<and> stored_chain_id kv h' = stored_chain_id kv h
       \<and> stored_genesis_alloc kv cd h' = stored_genesis_alloc kv cd h
       \<and> store_load_faucet_key kv h' = store_load_faucet_key kv h
   | (Inl _, h') \<Rightarrow>
       load_block kv cd h' n = load_block kv cd h n \<and> load_receipt kv cd h' y = load_receipt kv cd h y
       \<and> block_number_for_tx kv h' y = block_number_for_tx kv h y \<and> height kv h' = height kv h
       \<and> load_blocks kv cd h' = load_blocks kv cd h"
proof (cases "save_block kv cd h b [(x, r)]")
  case (Pair res h')
  show ?thesis
  proof (cases res)
    case (Inl e)
    with Pair have "kv_get kv h' k = kv_get kv h k" for k
      using save_block_failed [OF assms(1)] by simp
    then show ?thesis
      by (simp add: Pair Inl store_reads load_blocks_cong [of kv h' h])
  next
    case (Inr u)
    with Pair have "save_block kv cd h b [(x, r)] = (Inr (), h')" by simp
    then show ?thesis
      by (rule save_block_ok [OF assms(1)])
        (simp add: Pair Inr store_reads keys_neq block_key_inject receipt_key_inject
          tx_index_key_inject codec_block [OF assms(2)] codec_receipt [OF assms(2)])
  qed
qed

theorem save_block_atomic_witness:
  "fst (save_block mem_kv mem_codec mem_empty (sample_block 1) [(9, sample_receipt)]) = Inr ()
   \<and> load_receipt mem_kv mem_codec
        (snd (save_block mem_kv mem_codec mem_empty (sample_block 1) [(9, sample_receipt)])) 9
       = Inr (Some sample_receipt)
   \<and> height mem_kv (snd (save_block mem_kv mem_codec mem_empty (sample_block 1) [(9, sample_receipt)]))
       = Inr 1"
proof -
  have "fst (save_block mem_kv mem_codec mem_empty (sample_block 1) [(9, sample_receipt)]) = Inr ()"
    by (simp add: save_block_def mem_kv_def mem_codec_def)
  then show ?thesis
    using save_block_atomic [OF mem_kv_ok mem_codec_ok, where h = mem_empty and b = "sample_block 1"
        and x = 9 and r = sample_receipt and n = 1 and y = 9]
    by (auto simp: sample_block_def split: prod.splits sum.splits)
qed

text \<open>
  Metadata round trips: after \<open>init_meta\<close> the chain id and the genesis allocations read back,
  and after \<open>set_faucet_key\<close> the 32-byte secret reads back, whatever was stored before.
\<close>

theorem store_meta_roundtrip:
  assumes "kv_ok kv" and "codec_ok cd"
    and "init_meta kv cd h c alloc = (Inr (), h1)"
    and "store_set_faucet_key kv h1 secret = (Inr (), h2)"
  shows "stored_chain_id kv h2 = Inr (Some c) \<and> stored_genesis_alloc kv cd h2 = Inr alloc
       \<and> store_load_faucet_key kv h2 = Inr (Some secret) \<and> height kv h2 = height kv h"
  using assms(3)
  by (rule init_meta_ok [OF assms(1)])
    (simp add: store_reads store_set_faucet_key_ok [OF assms(1,4)] keys_neq codec_alloc [OF assms(2)])

theorem store_meta_roundtrip_witness:
  "\<exists>h1 h2. init_meta mem_kv mem_codec mem_empty 19088 [(7, 500)] = (Inr (), h1)
     \<and> store_set_faucet_key mem_kv h1 42 = (Inr (), h2)
     \<and> stored_chain_id mem_kv h2 = Inr (Some 19088)
     \<and> stored_genesis_alloc mem_kv mem_codec h2 = Inr [(7, 500)]
     \<and> store_load_faucet_key mem_kv h2 = Inr (Some 42)"
proof -
  obtain h1 where h1: "init_meta mem_kv mem_codec mem_empty 19088 [(7, 500)] = (Inr (), h1)"
    by (simp add: init_meta_def mem_kv_def mem_codec_def)
  obtain h2 where h2: "store_set_faucet_key mem_kv h1 42 = (Inr (), h2)"
    by (simp add: store_set_faucet_key_def mem_kv_def)
  from store_meta_roundtrip [OF mem_kv_ok mem_codec_ok h1 h2] h1 h2 show ?thesis by blast
qed

text \<open>
  The replay scan returns the sealed chain: when blocks numbered \<open>1..n\<close> are all in the store
  and the height is the last number, \<open>load_blocks\<close> returns exactly them, in order.
\<close>

theorem load_blocks_complete:
  assumes "numbered bs"
    and "\<And>b. b \<in> set bs \<Longrightarrow> load_block kv cd h (sb_number b) = Inr (Some b)"
    and "get_u64 kv h META_HEIGHT = Inr (if bs = [] then None else Some (sb_number (last bs)))"
  shows "load_blocks kv cd h = Inr bs"
  using assms by (rule load_blocks_present)

theorem load_blocks_complete_witness:
  "load_blocks mem_kv mem_codec
     (snd (save_block mem_kv mem_codec mem_empty (sample_block 1) [(9, sample_receipt)]))
   = Inr [sample_block 1]"
proof (rule load_blocks_complete)
  show "numbered [sample_block 1]" by (simp add: numbered_def sample_block_def)
  have ok: "save_block mem_kv mem_codec mem_empty (sample_block 1) [(9, sample_receipt)]
      = (Inr (), snd (save_block mem_kv mem_codec mem_empty (sample_block 1) [(9, sample_receipt)]))"
    by (simp add: save_block_def mem_kv_def mem_codec_def)
  show "load_block mem_kv mem_codec
      (snd (save_block mem_kv mem_codec mem_empty (sample_block 1) [(9, sample_receipt)])) (sb_number b)
      = Inr (Some b)" if "b \<in> set [sample_block 1]" for b
    using that by (rule_tac save_block_ok [OF mem_kv_ok ok])
      (simp add: store_reads keys_neq codec_block [OF mem_codec_ok])
  show "get_u64 mem_kv
      (snd (save_block mem_kv mem_codec mem_empty (sample_block 1) [(9, sample_receipt)])) META_HEIGHT
      = Inr (if [sample_block 1] = [] then None else Some (sb_number (last [sample_block 1])))"
    by (rule save_block_ok [OF mem_kv_ok ok]) (simp add: store_reads)
qed

text \<open>
  The database directory depends on the state file's name up to its first dot only, so that state files that differ
  after it, in the same directory, have one database.
\<close>

theorem state_files_share_database:
  assumes "CHR ''.'' \<notin> set stem"
  shows "chain_db_dir parent (Some (stem @ ''.'' @ a)) = chain_db_dir parent (Some (stem @ ''.'' @ b))
    \<and> snd (chain_db_dir parent (Some (stem @ ''.'' @ a))) = stem @ ''.chain.db''"
proof -
  have "takeWhile (\<lambda>c. c \<noteq> CHR ''.'') (stem @ CHR ''.'' # rest) = stem" for rest
    using assms by (induction stem) auto
  then show ?thesis by (simp add: chain_db_dir_def Let_def)
qed

theorem state_files_share_database_witness:
  "chain_db_dir (Some ''data'') (Some ''node.first.json'') = chain_db_dir (Some ''data'') (Some ''node.second.json'')"
  using state_files_share_database [of "''node''" "Some ''data''" "''first.json''" "''second.json''"] by simp

end
