(* ===== verification/State.thy ===== *)
theory State
  imports Instances
begin

text \<open>
  State reads and the state commitment (\<^verbatim>\<open>crates/move-execution/src/state.rs\<close>): point reads of
  the live database, the keys and values of the sparse Merkle tree, its rebuild from the whole
  cache and the proofs served against the current root.
\<close>

type_synonym ('db, 'h, 'a) node_result = "(NodeError + 'a) \<times> ('db, 'h) KanariNode"

section \<open>Point reads\<close>

definition balance_of ::
  "('db, 'st) Revm \<Rightarrow> ('db, 'h) KanariNode \<Rightarrow> Address \<Rightarrow> ('db, 'h, U256) node_result" where
  "balance_of rv n address =
     (case rv_basic rv (n_db n) address of
        (Inl e, db) \<Rightarrow> (Inl (Storage e), n\<lparr>n_db := db\<rparr>)
      | (Inr info, db) \<Rightarrow> (Inr (case info of Some i \<Rightarrow> ai_balance i | None \<Rightarrow> 0), n\<lparr>n_db := db\<rparr>))"

definition nonce_of ::
  "('db, 'st) Revm \<Rightarrow> ('db, 'h) KanariNode \<Rightarrow> Address \<Rightarrow> ('db, 'h, u64) node_result" where
  "nonce_of rv n address =
     (case rv_basic rv (n_db n) address of
        (Inl e, db) \<Rightarrow> (Inl (Storage e), n\<lparr>n_db := db\<rparr>)
      | (Inr info, db) \<Rightarrow> (Inr (case info of Some i \<Rightarrow> ai_nonce i | None \<Rightarrow> 0), n\<lparr>n_db := db\<rparr>))"

definition code_of ::
  "('db, 'st) Revm \<Rightarrow> ('db, 'h) KanariNode \<Rightarrow> Address \<Rightarrow> ('db, 'h, bytes) node_result" where
  "code_of rv n address =
     (case rv_basic rv (n_db n) address of
        (Inl e, db) \<Rightarrow> (Inl (Storage e), n\<lparr>n_db := db\<rparr>)
      | (Inr None, db) \<Rightarrow> (Inr [], n\<lparr>n_db := db\<rparr>)
      | (Inr (Some info), db) \<Rightarrow>
          (if ai_code_hash info = rv_keccak_empty rv then (Inr [], n\<lparr>n_db := db\<rparr>)
           else case ai_code info of
                  Some code \<Rightarrow> (Inr code, n\<lparr>n_db := db\<rparr>)
                | None \<Rightarrow>
                    (Inr (case rv_contract rv db (ai_code_hash info) of Some c \<Rightarrow> c | None \<Rightarrow> []),
                     n\<lparr>n_db := db\<rparr>)))"

definition storage_of ::
  "('db, 'st) Revm \<Rightarrow> ('db, 'h) KanariNode \<Rightarrow> Address \<Rightarrow> U256 \<Rightarrow> ('db, 'h, U256) node_result" where
  "storage_of rv n address slot =
     (case rv_storage rv (n_db n) address slot of
        (r, db) \<Rightarrow> (map_err Storage r, n\<lparr>n_db := db\<rparr>))"

section \<open>Keys and values of the commitment\<close>

definition SMT_DOMAIN :: bytes where "SMT_DOMAIN = ascii ''kanari-evm-smt-v1''"

definition smt_account_key :: "Crypto \<Rightarrow> Address \<Rightarrow> bytes" where
  "smt_account_key cr address = blake3 cr (SMT_DOMAIN @ [0x00] @ to_be_bytes 20 address)"

definition smt_storage_key :: "Crypto \<Rightarrow> Address \<Rightarrow> U256 \<Rightarrow> bytes" where
  "smt_storage_key cr address slot =
     blake3 cr (SMT_DOMAIN @ [0x01] @ to_be_bytes 20 address @ to_be_bytes 32 slot)"

definition encode_account :: "AccountInfo \<Rightarrow> bytes" where
  "encode_account info =
     to_be_bytes 32 (ai_balance info) @ to_be_bytes 8 (ai_nonce info) @ to_be_bytes 32 (ai_code_hash info)"

section \<open>Root, rebuild, proofs\<close>

definition state_root :: "'h Kv \<Rightarrow> ('db, 'h) KanariNode \<Rightarrow> NodeError + B256" where
  "state_root kv n = map_err Storage (smt_root_hash kv (n_store n))"

record SmtProof =
  sp_root :: B256
  sp_key :: B256
  sp_value :: "bytes option"
  sp_exists :: bool
  sp_leaf :: B256
  sp_siblings :: "B256 list"

text \<open>The key chosen by \<open>smt_proof\<close>.\<close>

fun proof_key :: "Crypto \<Rightarrow> Address \<Rightarrow> U256 option \<Rightarrow> bytes" where
  "proof_key cr address (Some s) = smt_storage_key cr address s"
| "proof_key cr address None = smt_account_key cr address"

definition smt_proof ::
  "'h Kv \<Rightarrow> Crypto \<Rightarrow> ('db, 'h) KanariNode \<Rightarrow> Address \<Rightarrow> U256 option \<Rightarrow> NodeError + SmtProof" where
  "smt_proof kv cr n address slot =
     (let key = proof_key cr address slot in
      res_bind (map_err Storage (smt_get kv (n_store n) key)) (\<lambda>value.
      res_bind (map_err Storage (smt_proof_of kv (n_store n) key)) (\<lambda>(present, leaf, siblings).
      res_bind (state_root kv n) (\<lambda>root.
        Inr \<lparr>sp_root = root, sp_key = from_be_bytes key, sp_value = value, sp_exists = present,
             sp_leaf = leaf, sp_siblings = siblings\<rparr>))))"

text \<open>The entries of one account: none when it is empty, else the account and its slots.\<close>

definition smt_account_entries ::
  "('db, 'st) Revm \<Rightarrow> Crypto \<Rightarrow> Address \<times> DbAccount \<Rightarrow> (bytes \<times> bytes) list" where
  "smt_account_entries rv cr = (\<lambda>(address, account).
     (let info = da_info account in
      if ai_balance info = 0 \<and> ai_nonce info = 0 \<and> ai_code_hash info = rv_keccak_empty rv then []
      else (smt_account_key cr address, encode_account info)
             # map (\<lambda>(slot, value). (smt_storage_key cr address slot, to_be_bytes 32 value))
                 (da_storage account)))"

definition smt_entries :: "('db, 'st) Revm \<Rightarrow> Crypto \<Rightarrow> 'db \<Rightarrow> (bytes \<times> bytes) list" where
  "smt_entries rv cr db = concat (map (smt_account_entries rv cr) (rv_accounts rv db))"

definition rebuild_smt ::
  "('db, 'st) Revm \<Rightarrow> 'h Kv \<Rightarrow> Crypto \<Rightarrow> ('db, 'h) KanariNode \<Rightarrow> ('db, 'h, B256) node_result" where
  "rebuild_smt rv kv cr n =
     (case smt_rebuild kv (n_store n) (smt_entries rv cr (n_db n)) of
        (Inl e, h) \<Rightarrow> (Inl (Storage e), n\<lparr>n_store := h\<rparr>)
      | (Inr _, h) \<Rightarrow> (map_err Storage (smt_root_hash kv h), n\<lparr>n_store := h\<rparr>))"

section \<open>Lemmas\<close>

interpretation account_info: fixed_codec
  "\<lambda>(b :: U256, k :: u64, c :: B256). to_be_bytes 32 b @ to_be_bytes 8 k @ to_be_bytes 32 c"
  "\<lambda>bs. (from_be_bytes (take 32 bs), from_be_bytes (take 8 (drop 32 bs)), from_be_bytes (drop 40 bs))"
  72
  by unfold_locales auto

text \<open>Keys determine what they are keys of, as far as the hash does.\<close>

lemma proof_key_inject:
  assumes "inj (blake3 cr)"
  shows "proof_key cr a s = proof_key cr b t \<longleftrightarrow> a = b \<and> s = t"
  by (cases s; cases t)
    (use assms in \<open>simp_all add: smt_account_key_def smt_storage_key_def inj_eq
        address_be.enc_append_inject u256_be.enc_inject address_be.enc_inject\<close>)

lemma rebuild_smt_node:
  "\<exists>h. snd (rebuild_smt rv kv cr n) = n\<lparr>n_store := h\<rparr>
     \<and> h = snd (smt_rebuild kv (n_store n) (smt_entries rv cr (n_db n)))"
  by (auto simp: rebuild_smt_def split: prod.splits sum.splits)

lemma rebuild_smt_reliable:
  assumes "kv_reliable kv root_of"
  shows "rebuild_smt rv kv cr n =
    (Inr (root_of (set (smt_entries rv cr (n_db n)))),
     n\<lparr>n_store := snd (smt_rebuild kv (n_store n) (smt_entries rv cr (n_db n)))\<rparr>)"
  using assms unfolding kv_reliable_def rebuild_smt_def
  by (auto split: prod.splits sum.splits simp: map_err_def) (metis fst_conv snd_conv old.sum.inject Inl_Inr_False)+

section \<open>What the tree commits to\<close>

text \<open>Entries by the account or slot they are for, before hashing the key.\<close>

definition empty_account :: "('db, 'st) Revm \<Rightarrow> AccountInfo \<Rightarrow> bool" where
  "empty_account rv info \<longleftrightarrow>
     ai_balance info = 0 \<and> ai_nonce info = 0 \<and> ai_code_hash info = rv_keccak_empty rv"

definition account_leaves ::
  "('db, 'st) Revm \<Rightarrow> Address \<times> DbAccount \<Rightarrow> ((Address \<times> U256 option) \<times> bytes) list" where
  "account_leaves rv = (\<lambda>(a, acc).
     if empty_account rv (da_info acc) then []
     else ((a, None), encode_account (da_info acc))
            # map (\<lambda>(s, v). ((a, Some s), to_be_bytes 32 v)) (da_storage acc))"

definition leaves :: "('db, 'st) Revm \<Rightarrow> 'db \<Rightarrow> ((Address \<times> U256 option) \<times> bytes) list" where
  "leaves rv db = concat (map (account_leaves rv) (rv_accounts rv db))"

text \<open>The value a leaf should have.\<close>

definition committed ::
  "('db, 'st) Revm \<Rightarrow> 'db \<Rightarrow> Address \<Rightarrow> U256 option \<Rightarrow> bytes option" where
  "committed rv db a slot =
     (case map_of (rv_accounts rv db) a of
        None \<Rightarrow> None
      | Some acc \<Rightarrow>
          (if empty_account rv (da_info acc) then None
           else case slot of
                  None \<Rightarrow> Some (encode_account (da_info acc))
                | Some s \<Rightarrow> map_option (to_be_bytes 32) (map_of (da_storage acc) s)))"

text \<open>A hash map holds each address once, and each account each slot once.\<close>

definition cache_ok :: "('db, 'st) Revm \<Rightarrow> 'db \<Rightarrow> bool" where
  "cache_ok rv db \<longleftrightarrow> distinct (map fst (rv_accounts rv db)) \<and>
     (\<forall>p\<in>set (rv_accounts rv db). distinct (map fst (da_storage (snd p))))"

lemma smt_entries_leaves:
  "smt_entries rv cr db = map (\<lambda>((a, s), v). (proof_key cr a s, v)) (leaves rv db)"
  unfolding smt_entries_def leaves_def map_concat map_map
  by (rule arg_cong [where f = concat], rule map_cong [OF refl])
    (auto simp: smt_account_entries_def account_leaves_def empty_account_def Let_def split: prod.splits)

lemma account_leaves_fst: "x \<in> set (account_leaves rv p) \<Longrightarrow> fst (fst x) = fst p"
  by (auto simp: account_leaves_def split: prod.splits if_splits)

lemma map_of_account_leaves:
  "map_of (account_leaves rv (a, acc)) (b, slot) =
     (if b \<noteq> a \<or> empty_account rv (da_info acc) then None
      else case slot of
             None \<Rightarrow> Some (encode_account (da_info acc))
           | Some s \<Rightarrow> map_option (to_be_bytes 32) (map_of (da_storage acc) s))"
proof -
  have "map_of (map (\<lambda>(s, v). ((a, Some s), to_be_bytes 32 v)) st) (b, slot) =
      (if b \<noteq> a then None else case slot of None \<Rightarrow> None
         | Some s \<Rightarrow> map_option (to_be_bytes 32) (map_of st s))" for st :: "(U256 \<times> U256) list"
    by (induction st) (auto split: option.splits)
  then show ?thesis by (auto simp: account_leaves_def split: option.splits)
qed

lemma map_of_concat_leaves:
  assumes "distinct (map fst accs)"
  shows "map_of (concat (map (account_leaves rv) accs)) (a, slot) =
      (case map_of accs a of None \<Rightarrow> None
       | Some acc \<Rightarrow> (if empty_account rv (da_info acc) then None
           else case slot of None \<Rightarrow> Some (encode_account (da_info acc))
                | Some s \<Rightarrow> map_option (to_be_bytes 32) (map_of (da_storage acc) s)))"
  using assms
proof (induction accs)
  case Nil
  then show ?case by simp
next
  case (Cons p accs)
  obtain b acc where p: "p = (b, acc)" by (cases p)
  have "map_of accs b = None" using Cons.prems by (auto simp: p map_of_eq_None_iff)
  with Cons show ?case
    by (auto simp: p map_of_append map_add_def map_of_account_leaves split: option.splits)
qed

lemma map_of_leaves:
  "cache_ok rv db \<Longrightarrow> map_of (leaves rv db) (a, slot) = committed rv db a slot"
  by (simp add: leaves_def committed_def cache_ok_def map_of_concat_leaves)

lemma distinct_leaves:
  assumes "cache_ok rv db"
  shows "distinct (map fst (leaves rv db))"
proof -
  have 1: "distinct (map fst (account_leaves rv p))" if "p \<in> set (rv_accounts rv db)" for p
  proof -
    obtain a acc where p: "p = (a, acc)" by (cases p)
    have "map fst (map (\<lambda>(s, v). ((a, Some s), to_be_bytes 32 v :: bytes)) (da_storage acc))
        = map (\<lambda>s. (a, Some s)) (map fst (da_storage acc))" by auto
    moreover have "distinct (map fst (da_storage acc))"
      using assms that by (auto simp: cache_ok_def p)
    ultimately have "distinct (map fst (map (\<lambda>(s, v). ((a, Some s), to_be_bytes 32 v :: bytes))
        (da_storage acc)))"
      by (simp only: distinct_map [of "\<lambda>s. (a, Some s)"] inj_on_def) simp
    then show ?thesis by (auto simp: p account_leaves_def)
  qed
  have "distinct (map fst (concat (map (account_leaves rv) accs)))"
    if "distinct (map fst accs)" "\<And>p. p \<in> set accs \<Longrightarrow> distinct (map fst (account_leaves rv p))"
    for accs
    using that
  proof (induction accs)
    case (Cons p accs)
    then have "fst x \<noteq> fst y" if "x \<in> set (account_leaves rv p)" "q \<in> set accs"
        "y \<in> set (account_leaves rv q)" for x y q
      using that by (metis account_leaves_fst distinct.simps(2) image_eqI list.set_map list.simps(9))
    with Cons show ?case by (auto simp: image_iff) blast
  qed simp
  with 1 assms show ?thesis by (simp add: leaves_def cache_ok_def)
qed

lemma map_of_rev_distinct: "distinct (map fst xs) \<Longrightarrow> map_of (rev xs) k = map_of xs k"
  by (metis distinct_map map_of_inject_set distinct_rev rev_map set_rev)

lemma map_of_inj_keys:
  "inj_on f (insert k (fst ` set xs)) \<Longrightarrow> map_of (map (\<lambda>(k, v). (f k, v)) xs) (f k) = map_of xs k"
  by (induction xs) (auto simp: inj_on_def)

text \<open>Reading the rebuilt tree at a key that collides with no other key of the state.\<close>

lemma smt_entries_lookup:
  assumes "cache_ok rv db"
    and "inj_on (\<lambda>(a, s). proof_key cr a s) (insert (a, slot) (fst ` set (leaves rv db)))"
  shows "map_of (rev (smt_entries rv cr db)) (proof_key cr a slot) = committed rv db a slot"
proof -
  let ?f = "\<lambda>(a, s). proof_key cr a s"
  have "rev (smt_entries rv cr db) = map (\<lambda>(k, v). (?f k, v)) (rev (leaves rv db))"
    by (simp add: smt_entries_leaves rev_map case_prod_unfold)
  then show ?thesis
    using map_of_inj_keys [of ?f "(a, slot)" "rev (leaves rv db)"] assms(2)
    by (simp add: map_of_rev_distinct [OF distinct_leaves [OF assms(1)]] map_of_leaves [OF assms(1)])
qed

section \<open>Properties\<close>

text \<open>
  Domain separation of the commitment: two Merkle keys are equal only when they are for the same
  account or for the same slot of the same account, or else BLAKE3 itself has a collision. Account
  keys and slot keys never coincide by construction.
\<close>

theorem smt_keys_separate:
  "(\<exists>x y. blake3 cr x = blake3 cr y \<and> x \<noteq> y)
   \<or> (\<forall>a s b t. proof_key cr a s = proof_key cr b t \<longleftrightarrow> a = b \<and> s = t)"
  using proof_key_inject [of cr] unfolding inj_def by blast

text \<open>
  An account leaf is 72 bytes and commits to exactly the balance, the nonce and the code hash:
  two accounts have the same leaf when and only when they agree in all three.
\<close>

theorem encode_account_commits:
  "length (encode_account i) = 72 \<and>
   (encode_account i = encode_account j \<longleftrightarrow>
      ai_balance i = ai_balance j \<and> ai_nonce i = ai_nonce j \<and> ai_code_hash i = ai_code_hash j)"
  using account_info.enc_inject [of "(ai_balance i, ai_nonce i, ai_code_hash i)"
      "(ai_balance j, ai_nonce j, ai_code_hash j)"]
  by (simp add: encode_account_def)

text \<open>
  C17. Proofs served after a rebuild reflect the live state: for an account that is present and not
  empty the proof holds its encoded balance, nonce and code hash, for one of its slots the slot's
  big-endian value, and for anything else it is a proof of absence; it is served against the root
  the rebuild returned. The premise on keys says that the hash has no collision among the keys of
  this state and the queried one.
\<close>

theorem smt_proof_reflects_state:
  assumes "smt_ok kv" and "cache_ok rv (n_db n)"
    and "inj_on (\<lambda>(a, s). proof_key cr a s) (insert (a, slot) (fst ` set (leaves rv (n_db n))))"
    and "rebuild_smt rv kv cr n = (Inr root, n')"
  shows "\<exists>p. smt_proof kv cr n' a slot = Inr p \<and> sp_root p = root
     \<and> sp_value p = committed rv (n_db n) a slot
     \<and> (sp_exists p \<longleftrightarrow> committed rv (n_db n) a slot \<noteq> None)"
proof -
  from assms(4) obtain h where h: "smt_rebuild kv (n_store n) (smt_entries rv cr (n_db n)) = (Inr (), h)"
      "n' = n\<lparr>n_store := h\<rparr>" "smt_root_hash kv h = Inr root"
    by (auto simp: rebuild_smt_def split: prod.splits sum.splits)
  from h(1) assms(1) obtain leaf siblings where
      "smt_get kv h (proof_key cr a slot) = Inr (committed rv (n_db n) a slot)"
      "smt_proof_of kv h (proof_key cr a slot) = Inr (committed rv (n_db n) a slot \<noteq> None, leaf, siblings)"
    unfolding smt_ok_def by (metis smt_entries_lookup [OF assms(2,3)])
  then show ?thesis
    by (simp add: smt_proof_def state_root_def h(2,3))
qed

theorem smt_proof_reflects_state_witness:
  "\<exists>root n' p. rebuild_smt mem_revm mem_kv mem_crypto mem_node = (Inr root, n')
     \<and> smt_proof mem_kv mem_crypto n' 0xabc None = Inr p \<and> sp_exists p \<and> sp_root p = root
     \<and> sp_value p = Some (encode_account (da_info (mem_account 1000000000000000000)))"
proof -
  have cache: "cache_ok mem_revm (n_db mem_node)"
    by (simp add: cache_ok_def mem_revm_def mem_node_def mem_account_def)
  have "inj (blake3 mem_crypto)" by (simp add: mem_crypto_def inj_def)
  then have inj: "inj_on (\<lambda>(a, s). proof_key mem_crypto a s) X" for X
    by (auto simp: inj_on_def proof_key_inject)
  obtain root n' where r: "rebuild_smt mem_revm mem_kv mem_crypto mem_node = (Inr root, n')"
    using rebuild_smt_reliable [OF mem_kv_reliable] by blast
  have "committed mem_revm (n_db mem_node) 0xabc None
      = Some (encode_account (da_info (mem_account 1000000000000000000)))"
    by (simp add: committed_def mem_revm_def mem_node_def empty_account_def) (simp add: mem_account_def)
  with smt_proof_reflects_state [OF mem_kv_smt_ok cache inj r, of "0xabc" None] r show ?thesis by auto
qed

end
