(* ===== verification/Observation.thy ===== *)
theory Observation
  imports State
begin

text \<open>
  What the program can see of revm's database. Lookups change the database: \<open>CacheDB\<close> remembers what it was asked
  for, absent accounts included. Whether that matters depends on what the sources can observe afterwards, so two
  databases are compared by experiments: they are the same to the program when every sequence of operations gets the
  same answers from both. One flag says whether the leaves of the state commitment count as an answer; without
  them, databases may differ in their state root and in nothing else.
\<close>

section \<open>Experiments on a database\<close>

datatype 'st DbOp =
    AskBasic Address
  | AskStorage Address U256
  | AskContract B256
  | PutInfo Address AccountInfo
  | PutStorage Address U256 U256
  | Transact KanariEvm TxEnv
  | TransactOne KanariEvm TxEnv
  | Commit 'st
  | AskLeaves

datatype 'st DbAnswer =
    GotBasic "string + AccountInfo option"
  | GotStorage "string + U256"
  | GotContract "bytes option"
  | GotPut "string + unit"
  | GotExecution "string + ExecutionResult \<times> 'st"
  | GotCall "string + ExecutionResult"
  | GotLeaves "(bytes \<times> bytes) set"

fun db_op :: "('db, 'st) Revm \<Rightarrow> Crypto \<Rightarrow> 'st DbOp \<Rightarrow> 'db \<Rightarrow> 'st DbAnswer \<times> 'db" where
  "db_op rv cr (AskBasic a) d = (GotBasic (fst (rv_basic rv d a)), snd (rv_basic rv d a))"
| "db_op rv cr (AskStorage a s) d = (GotStorage (fst (rv_storage rv d a s)), snd (rv_storage rv d a s))"
| "db_op rv cr (AskContract h) d = (GotContract (rv_contract rv d h), d)"
| "db_op rv cr (PutInfo a i) d = (GotPut (Inr ()), rv_insert_account_info rv d a i)"
| "db_op rv cr (PutStorage a s v) d =
     (GotPut (fst (rv_insert_account_storage rv d a s v)), snd (rv_insert_account_storage rv d a s v))"
| "db_op rv cr (Transact evm tx) d = (GotExecution (fst (rv_transact rv evm d tx)), snd (rv_transact rv evm d tx))"
| "db_op rv cr (TransactOne evm tx) d = (GotCall (fst (rv_transact_one rv evm d tx)), snd (rv_transact_one rv evm d tx))"
| "db_op rv cr (Commit st) d = (GotPut (Inr ()), rv_commit rv d st)"
| "db_op rv cr AskLeaves d = (GotLeaves (set (smt_entries rv cr d)), d)"

fun db_answers :: "('db, 'st) Revm \<Rightarrow> Crypto \<Rightarrow> 'st DbOp list \<Rightarrow> 'db \<Rightarrow> 'st DbAnswer list" where
  "db_answers rv cr [] d = []"
| "db_answers rv cr (q # qs) d = fst (db_op rv cr q d) # db_answers rv cr qs (snd (db_op rv cr q d))"

definition db_sim :: "('db, 'st) Revm \<Rightarrow> Crypto \<Rightarrow> bool \<Rightarrow> 'db \<Rightarrow> 'db \<Rightarrow> bool" where
  "db_sim rv cr roots d e \<longleftrightarrow>
     (\<forall>qs. (AskLeaves \<in> set qs \<longrightarrow> roots) \<longrightarrow> db_answers rv cr qs d = db_answers rv cr qs e)"

section \<open>An equivalence that every operation keeps\<close>

lemma db_sim_refl [simp, intro]: "db_sim rv cr roots d d"
  by (simp add: db_sim_def)

lemma db_sim_sym: "db_sim rv cr roots d e \<Longrightarrow> db_sim rv cr roots e d"
  by (simp add: db_sim_def)

lemma db_sim_trans [trans]: "db_sim rv cr roots d e \<Longrightarrow> db_sim rv cr roots e f \<Longrightarrow> db_sim rv cr roots d f"
  by (simp add: db_sim_def)

lemma db_sim_weaken: "db_sim rv cr True d e \<Longrightarrow> db_sim rv cr roots d e"
  by (simp add: db_sim_def)

lemma db_sim_op:
  assumes "db_sim rv cr roots d e" and "q = AskLeaves \<longrightarrow> roots"
  shows "fst (db_op rv cr q d) = fst (db_op rv cr q e)"
    and "db_sim rv cr roots (snd (db_op rv cr q d)) (snd (db_op rv cr q e))"
proof -
  have cons: "db_answers rv cr (q # qs) d = db_answers rv cr (q # qs) e" if "AskLeaves \<in> set qs \<longrightarrow> roots" for qs
    using assms that unfolding db_sim_def by (metis set_ConsD)
  then show "db_sim rv cr roots (snd (db_op rv cr q d)) (snd (db_op rv cr q e))" by (simp add: db_sim_def)
  from cons [of "[]"] show "fst (db_op rv cr q d) = fst (db_op rv cr q e)" by simp
qed

lemma db_sim_ops:
  assumes "db_sim rv cr roots d e"
  shows "fst (rv_basic rv d a) = fst (rv_basic rv e a)"
    "db_sim rv cr roots (snd (rv_basic rv d a)) (snd (rv_basic rv e a))"
    "fst (rv_storage rv d a s) = fst (rv_storage rv e a s)"
    "db_sim rv cr roots (snd (rv_storage rv d a s)) (snd (rv_storage rv e a s))"
    "db_sim rv cr roots (rv_insert_account_info rv d a i) (rv_insert_account_info rv e a i)"
    "rv_contract rv d h = rv_contract rv e h"
    "fst (rv_transact rv evm d tx) = fst (rv_transact rv evm e tx)"
    "db_sim rv cr roots (snd (rv_transact rv evm d tx)) (snd (rv_transact rv evm e tx))"
    "fst (rv_transact_one rv evm d tx) = fst (rv_transact_one rv evm e tx)"
    "db_sim rv cr roots (snd (rv_transact_one rv evm d tx)) (snd (rv_transact_one rv evm e tx))"
    "db_sim rv cr roots (rv_commit rv d st) (rv_commit rv e st)"
  using db_sim_op [OF assms, of "AskBasic a"] db_sim_op [OF assms, of "AskStorage a s"]
    db_sim_op [OF assms, of "PutInfo a i"] db_sim_op [OF assms, of "AskContract h"]
    db_sim_op [OF assms, of "Transact evm tx"] db_sim_op [OF assms, of "TransactOne evm tx"]
    db_sim_op [OF assms, of "Commit st"]
  by simp_all

lemma db_sim_leaves: "db_sim rv cr True d e \<Longrightarrow> set (smt_entries rv cr d) = set (smt_entries rv cr e)"
  using db_sim_op(1) [of rv cr True d e AskLeaves] by simp

text \<open>A relation that every operation keeps, with equal answers, only relates databases that are the same.\<close>

lemma db_simI:
  assumes step: "\<And>d e q. R d e \<Longrightarrow> (q = AskLeaves \<longrightarrow> roots) \<Longrightarrow>
      fst (db_op rv cr q d) = fst (db_op rv cr q e) \<and> R (snd (db_op rv cr q d)) (snd (db_op rv cr q e))"
    and "R d e"
  shows "db_sim rv cr roots d e"
  unfolding db_sim_def
proof (intro allI impI)
  fix qs :: "'b DbOp list" assume "AskLeaves \<in> set qs \<longrightarrow> roots"
  with \<open>R d e\<close> show "db_answers rv cr qs d = db_answers rv cr qs e"
  proof (induction qs arbitrary: d e)
    case (Cons q qs)
    from step [OF Cons.prems(1), of q] Cons show ?case by simp
  qed simp
qed

lemma db_sim_balance: "db_sim rv cr roots d e \<Longrightarrow> balance_in rv d a = balance_in rv e a"
  by (simp add: balance_in_def db_sim_ops(1))

lemma db_sim_supply: "db_sim rv cr roots d e \<Longrightarrow> total_supply rv d = total_supply rv e"
  by (simp add: total_supply_def db_sim_balance)

section \<open>Documented behaviour of lookups\<close>

text \<open>
  Looking an account up is not observable: the cache may remember an absent account, which is no leaf and is
  looked up as absent again. A transaction that revm refuses in validation has only looked accounts up.
\<close>

definition lookups_unobserved :: "('db, 'st) Revm \<Rightarrow> Crypto \<Rightarrow> bool" where
  "lookups_unobserved rv cr \<longleftrightarrow> (\<forall>db a. db_sim rv cr True (snd (rv_basic rv db a)) db)"

definition rejects_cleanly :: "('db, 'st) Revm \<Rightarrow> Crypto \<Rightarrow> bool" where
  "rejects_cleanly rv cr \<longleftrightarrow>
     (\<forall>evm db tx e db'. rv_transact rv evm db tx = (Inl e, db') \<longrightarrow> db_sim rv cr True db' db)"

text \<open>
  A storage lookup or an execution that is not committed can leave leaves behind, so these are unobserved only
  when the state root does not count.
\<close>

definition executions_unobserved :: "('db, 'st) Revm \<Rightarrow> Crypto \<Rightarrow> bool" where
  "executions_unobserved rv cr \<longleftrightarrow>
     (\<forall>db a s. db_sim rv cr False (snd (rv_storage rv db a s)) db) \<and>
     (\<forall>evm db tx. db_sim rv cr False (snd (rv_transact_one rv evm db tx)) db)"

section \<open>A database that remembers absent accounts\<close>

text \<open>
  The behaviour assumed of lookups is not that they change nothing: here, as in \<open>CacheDB\<close>, a lookup of an absent
  account adds a blank entry, and still no experiment tells the databases apart.
\<close>

definition blank :: DbAccount where
  "blank = mem_get [] 0"

definition lazy_basic :: "mem_db \<Rightarrow> Address \<Rightarrow> (string + AccountInfo option) \<times> mem_db" where
  "lazy_basic db a =
     (Inr (if mem_get db a = blank then None else Some (da_info (mem_get db a))),
      if map_of db a = None then (a, blank) # db else db)"

definition lazy_charge :: "KanariEvm \<Rightarrow> mem_db \<Rightarrow> TxEnv \<Rightarrow> string + ExecutionResult \<times> (Address \<times> DbAccount)" where
  "lazy_charge evm db tx = map_sum id (\<lambda>(res, db'). (res, (te_caller tx, mem_get db' (te_caller tx)))) (mem_charge evm db tx)"

definition lazy_revm :: "(mem_db, Address \<times> DbAccount) Revm" where
  "lazy_revm = \<lparr>rv_default = [], rv_basic = lazy_basic, rv_storage = rv_storage mem_revm,
     rv_insert_account_info = rv_insert_account_info mem_revm,
     rv_insert_account_storage = rv_insert_account_storage mem_revm,
     rv_accounts = (\<lambda>db. db), rv_contract = (\<lambda>_ _. None),
     rv_transact = (\<lambda>evm db tx. (lazy_charge evm db tx, snd (lazy_basic db (te_caller tx)))),
     rv_transact_one = (\<lambda>evm db tx. (map_sum id fst (mem_charge evm db tx), snd (lazy_basic db (te_caller tx)))),
     rv_commit = (\<lambda>db (a, acc). mem_set db a acc), rv_new_raw = designator_checked, rv_hash_slow = (\<lambda>_. 1),
     rv_keccak_empty = 0\<rparr>"

text \<open>Databases with the same accounts, up to blank entries.\<close>

definition real_accounts :: "mem_db \<Rightarrow> (Address \<times> DbAccount) set" where
  "real_accounts d = {p \<in> set d. \<not> empty_account lazy_revm (da_info (snd p))}"

definition same_accounts :: "mem_db \<Rightarrow> mem_db \<Rightarrow> bool" where
  "same_accounts d e \<longleftrightarrow> (\<forall>a. mem_get d a = mem_get e a) \<and> real_accounts d = real_accounts e"

lemma blank_empty [simp]: "empty_account lazy_revm (da_info blank)"
  by (simp add: empty_account_def blank_def mem_get_def lazy_revm_def)

lemma mem_get_mem_set: "mem_get (mem_set d a acc) b = (if b = a then acc else mem_get d b)"
  by (simp add: mem_get_def map_of_mem_set)

lemma mem_get_blank: "map_of d a = None \<Longrightarrow> mem_get ((a, blank) # d) b = mem_get d b"
  by (auto simp: mem_get_def blank_def)

lemma real_accounts_set:
  "real_accounts (mem_set d a acc) =
     real_accounts [(a, acc)] \<union> {p \<in> real_accounts d. fst p \<noteq> a}"
  by (auto simp: real_accounts_def mem_set_def)

lemma same_accounts_set:
  "same_accounts d e \<Longrightarrow> same_accounts (mem_set d a acc) (mem_set e a acc)"
  by (simp add: same_accounts_def mem_get_mem_set real_accounts_set)

lemma same_accounts_lookup: "same_accounts (snd (lazy_basic d a)) d"
  by (auto simp: same_accounts_def lazy_basic_def mem_get_blank real_accounts_def)

lemma same_accounts_equiv:
  "same_accounts d e \<Longrightarrow> same_accounts e d" "same_accounts d e \<Longrightarrow> same_accounts e f \<Longrightarrow> same_accounts d f"
  by (auto simp: same_accounts_def)

lemma smt_entries_same:
  assumes "same_accounts d e"
  shows "set (smt_entries lazy_revm cr d) = set (smt_entries lazy_revm cr e)"
proof -
  have "smt_account_entries lazy_revm cr p = []" if "empty_account lazy_revm (da_info (snd p))" for p
    using that by (cases p) (simp add: smt_account_entries_def empty_account_def Let_def)
  moreover have "rv_accounts lazy_revm d = d" for d by (simp add: lazy_revm_def)
  ultimately have "set (smt_entries lazy_revm cr d) = (\<Union>p\<in>real_accounts d. set (smt_account_entries lazy_revm cr p))" for d
    by (force simp: smt_entries_def real_accounts_def)
  with assms show ?thesis by (simp add: same_accounts_def)
qed

lemma lazy_sim: "same_accounts d e \<Longrightarrow> db_sim lazy_revm cr roots d e"
proof (rule db_simI [where R = same_accounts])
  fix d e q assume s: "same_accounts d e"
  then have get: "mem_get d a = mem_get e a" for a by (simp add: same_accounts_def)
  have look: "same_accounts (snd (lazy_basic d a)) (snd (lazy_basic e a))" for a
    using same_accounts_lookup s same_accounts_equiv by metis
  show "fst (db_op lazy_revm cr q d) = fst (db_op lazy_revm cr q e)
    \<and> same_accounts (snd (db_op lazy_revm cr q d)) (snd (db_op lazy_revm cr q e))"
  proof (cases q)
    case AskLeaves
    then show ?thesis using smt_entries_same [OF s] s by simp
  next
    case (AskBasic a)
    then show ?thesis using look by (simp add: lazy_revm_def) (simp add: lazy_basic_def get)
  next
    case (Transact evm tx)
    then show ?thesis using look
      by (simp add: lazy_revm_def lazy_charge_def mem_charge_def get mem_get_mem_set Let_def)
  next
    case (TransactOne evm tx)
    then show ?thesis using look by (simp add: lazy_revm_def mem_charge_def get Let_def)
  next
    case (Commit st)
    then show ?thesis by (cases st) (simp add: lazy_revm_def same_accounts_set s)
  qed (simp_all add: lazy_revm_def mem_revm_def s get same_accounts_set Let_def)
qed

lemma lazy_lookups:
  "lookups_unobserved lazy_revm cr" "rejects_cleanly lazy_revm cr" "snd (rv_basic lazy_revm [] a) \<noteq> []"
proof -
  show "lookups_unobserved lazy_revm cr"
    using lazy_sim [OF same_accounts_lookup] by (simp add: lookups_unobserved_def lazy_revm_def)
  show "rejects_cleanly lazy_revm cr"
    using lazy_sim [OF same_accounts_lookup] by (auto simp: rejects_cleanly_def lazy_revm_def)
  show "snd (rv_basic lazy_revm [] a) \<noteq> []" by (simp add: lazy_revm_def lazy_basic_def)
qed

end
