(* ===== verification/Execution.thy ===== *)
theory Execution
  imports Chain_Spec Store Observation
begin

text \<open>
  Transaction execution and sealing (\<^verbatim>\<open>crates/move-execution/src/execution.rs\<close>), with the chain
  accessors of \<^verbatim>\<open>node.rs\<close> and the block hash functions of \<^verbatim>\<open>views.rs\<close> it uses. Methods on
  \<open>&mut self\<close> return the node also on an error: the early return of \<open>?\<close> keeps what was already
  changed. The clock (\<open>now_secs\<close>) is an argument. Unsigned additions wrap, as in a release build.
\<close>

section \<open>Chain accessors\<close>

definition block_number :: "('db, 'h) KanariNode \<Rightarrow> u64" where
  "block_number n = (if n_blocks n = [] then 0 else sb_number (last (n_blocks n)))"

definition block_by_number :: "('db, 'h) KanariNode \<Rightarrow> u64 \<Rightarrow> SealedBlock option" where
  "block_by_number n number = find (\<lambda>b. sb_number b = number) (n_blocks n)"

definition block_by_hash :: "('db, 'h) KanariNode \<Rightarrow> B256 \<Rightarrow> SealedBlock option" where
  "block_by_hash n hash = find (\<lambda>b. sb_hash b = hash) (n_blocks n)"

definition tx_record :: "Crypto \<Rightarrow> ('db, 'h) KanariNode \<Rightarrow> B256 \<Rightarrow> (Address \<times> bytes) option" where
  "tx_record cr n hash =
     (case n_receipts n hash of None \<Rightarrow> None | Some r \<Rightarrow>
      (case block_by_number n (sr_block_number r) of None \<Rightarrow> None | Some block \<Rightarrow>
       (case find (\<lambda>raw. keccak256 cr raw = hash) (sb_txs block) of
          None \<Rightarrow> None | Some raw \<Rightarrow> Some (sr_from r, raw))))"

definition receipt :: "('db, 'h) KanariNode \<Rightarrow> B256 \<Rightarrow> StoredReceipt option" where
  "receipt n hash = n_receipts n hash"

definition block_gas_used :: "Crypto \<Rightarrow> ('db, 'h) KanariNode \<Rightarrow> u64 \<Rightarrow> u64" where
  "block_gas_used cr n number =
     (case block_by_number n number of
        None \<Rightarrow> 0
      | Some block \<Rightarrow>
          sum_list (map (\<lambda>raw. case n_receipts n (keccak256 cr raw) of
                                 Some r \<Rightarrow> sr_gas_used r | None \<Rightarrow> 0) (sb_txs block)))"

definition pending_base_fee :: "Crypto \<Rightarrow> ('db, 'h) KanariNode \<Rightarrow> u128" where
  "pending_base_fee cr n =
     (if n_blocks n = [] then cs_base_fee_wei (n_spec n)
      else let head = last (n_blocks n)
           in calc_next_base_fee (ucast (sb_base_fee head))
                (ucast (block_gas_used cr n (sb_number head))) (ucast BLOCK_GAS_LIMIT))"

section \<open>Block hashes\<close>

definition block_hash :: "Crypto \<Rightarrow> B256 \<Rightarrow> u64 \<Rightarrow> u64 \<Rightarrow> B256" where
  "block_hash cr parent number timestamp =
     keccak256 cr (to_be_bytes 32 parent @ to_be_bytes 8 number @ to_be_bytes 8 timestamp)"

definition genesis_hash :: "Crypto \<Rightarrow> B256" where
  "genesis_hash cr = keccak256 cr (ascii ''kanari-evm-genesis'')"

definition next_parent_hash :: "Crypto \<Rightarrow> SealedBlock list \<Rightarrow> B256" where
  "next_parent_hash cr blocks = (if blocks = [] then genesis_hash cr else sb_hash (last blocks))"

section \<open>Decoding a transaction\<close>

record PreparedTx =
  pt_sender :: Address
  pt_to :: "Address option"
  pt_inner :: TxEnv

text \<open>Both sides of \<open>alloy_kind\<close> are the same type here.\<close>

fun alloy_kind :: "TxKind \<Rightarrow> TxKind" where
  "alloy_kind (Call addr) = Call addr"
| "alloy_kind Create = Create"

text \<open>The match on the envelope: chain id and environment of each accepted type.\<close>

fun envelope_env :: "Address \<Rightarrow> TxEnvelope \<Rightarrow> NodeError + u64 \<times> TxEnv" where
  "envelope_env sender (Legacy tx _) =
     res_bind (ok_or (InvalidTransaction ''unprotected legacy transactions are rejected'')
                 (tl_chain_id tx)) (\<lambda>tx_chain_id.
       Inr (tx_chain_id,
         \<lparr>te_tx_type = 0, te_caller = sender, te_gas_limit = tl_gas_limit tx,
          te_gas_price = tl_gas_price tx, te_kind = alloy_kind (tl_to tx), te_value = tl_value tx,
          te_data = tl_input tx, te_nonce = tl_nonce tx, te_chain_id = Some tx_chain_id,
          te_access_list = [], te_gas_priority_fee = None, te_authorization_list = []\<rparr>))"
| "envelope_env sender (Eip2930 tx _) =
     Inr (t1_chain_id tx,
       \<lparr>te_tx_type = 0, te_caller = sender, te_gas_limit = t1_gas_limit tx,
        te_gas_price = t1_gas_price tx, te_kind = alloy_kind (t1_to tx), te_value = t1_value tx,
        te_data = t1_input tx, te_nonce = t1_nonce tx, te_chain_id = Some (t1_chain_id tx),
        te_access_list = t1_access_list tx, te_gas_priority_fee = None, te_authorization_list = []\<rparr>)"
| "envelope_env sender (Eip1559 tx _) =
     Inr (t2_chain_id tx,
       \<lparr>te_tx_type = 0, te_caller = sender, te_gas_limit = t2_gas_limit tx,
        te_gas_price = t2_max_fee_per_gas tx, te_kind = alloy_kind (t2_to tx), te_value = t2_value tx,
        te_data = t2_input tx, te_nonce = t2_nonce tx, te_chain_id = Some (t2_chain_id tx),
        te_access_list = t2_access_list tx,
        te_gas_priority_fee = Some (t2_max_priority_fee_per_gas tx), te_authorization_list = []\<rparr>)"
| "envelope_env sender (Eip7702 tx _) =
     Inr (t4_chain_id tx,
       \<lparr>te_tx_type = 4, te_caller = sender, te_gas_limit = t4_gas_limit tx,
        te_gas_price = t4_max_fee_per_gas tx, te_kind = Call (t4_to tx), te_value = t4_value tx,
        te_data = t4_input tx, te_nonce = t4_nonce tx, te_chain_id = Some (t4_chain_id tx),
        te_access_list = t4_access_list tx,
        te_gas_priority_fee = Some (t4_max_priority_fee_per_gas tx),
        te_authorization_list = t4_authorization_list tx\<rparr>)"
| "envelope_env sender (Eip4844 _) = Inl UnsupportedBlobTransactions"

definition prepared_decode :: "Crypto \<Rightarrow> bytes \<Rightarrow> u64 \<Rightarrow> NodeError + PreparedTx" where
  "prepared_decode cr raw chain_id =
     res_bind (map_err InvalidTransaction (decode_2718 cr raw)) (\<lambda>envelope.
     res_bind (map_err BadSignature (recover_signer cr envelope)) (\<lambda>sender.
     res_bind (envelope_env sender envelope) (\<lambda>(tx_chain_id, inner).
       if tx_chain_id \<noteq> chain_id then Inl (WrongChainId tx_chain_id chain_id)
       else Inr \<lparr>pt_sender = sender,
                 pt_to = (case te_kind inner of Call addr \<Rightarrow> Some addr | Create \<Rightarrow> None),
                 pt_inner = inner\<rparr>)))"

section \<open>Execution\<close>

definition block_evm :: "PqcEnv \<Rightarrow> KanariChainSpec \<Rightarrow> u64 \<Rightarrow> u64 \<Rightarrow> u64 \<Rightarrow> KanariEvm" where
  "block_evm P spec number timestamp basefee =
     build_kanari_evm P
       \<lparr>ep_chain_id = cs_chain_id spec, ep_spec = cs_spec_id spec, ep_number = number,
        ep_timestamp = timestamp, ep_basefee = basefee, ep_gas_limit = BLOCK_GAS_LIMIT,
        ep_beneficiary = BLOCK_BENEFICIARY\<rparr>"

definition transact_raw ::
  "('db, 'st) Revm \<Rightarrow> PqcEnv \<Rightarrow> 'db \<Rightarrow> KanariChainSpec \<Rightarrow> PreparedTx \<Rightarrow> u64 \<Rightarrow> u64 \<Rightarrow> u64
     \<Rightarrow> (NodeError + ExecutionResult) \<times> 'db" where
  "transact_raw rv P db spec prepared number timestamp base_fee =
     (case rv_transact rv (block_evm P spec number timestamp base_fee) db (pt_inner prepared) of
        (Inl e, db') \<Rightarrow> (Inl (Execution e), db')
      | (Inr (result, state), db') \<Rightarrow> (Inr result, rv_commit rv db' state))"

fun execution_summary :: "ExecutionResult \<Rightarrow> bool \<times> u64 \<times> Address option \<times> StoredLog list" where
  "execution_summary (Success gas output logs) =
     (True, gas, (case output of OutCreate _ addr \<Rightarrow> addr | OutCall _ \<Rightarrow> None),
      map (\<lambda>log. \<lparr>sl_address = lg_address log, sl_topics = lg_topics log, sl_data = lg_data log\<rparr>) logs)"
| "execution_summary (Revert gas _) = (False, gas, None, [])"
| "execution_summary (Halt gas) = (False, gas, None, [])"

text \<open>The \<open>?\<close> operator on an operation of the node.\<close>

definition bind_node ::
  "('db, 'h, 'a) node_result \<Rightarrow> ('a \<Rightarrow> ('db, 'h) KanariNode \<Rightarrow> ('db, 'h, 'b) node_result)
     \<Rightarrow> ('db, 'h, 'b) node_result" where
  "bind_node r f = (case r of (Inl e, n) \<Rightarrow> (Inl e, n) | (Inr x, n) \<Rightarrow> f x n)"

definition credit_beneficiary ::
  "('db, 'st) Revm \<Rightarrow> ('db, 'h) KanariNode \<Rightarrow> U256 \<Rightarrow> ('db, 'h, unit) node_result" where
  "credit_beneficiary rv n amount =
     (case rv_basic rv (n_db n) BLOCK_BENEFICIARY of
        (Inl e, db) \<Rightarrow> (Inl (Storage e), n\<lparr>n_db := db\<rparr>)
      | (Inr found, db) \<Rightarrow>
          (let info = (case found of
                 Some i \<Rightarrow> i
               | None \<Rightarrow> \<lparr>ai_balance = 0, ai_nonce = 0, ai_code_hash = rv_keccak_empty rv,
                          ai_code = None\<rparr>);
               info' = info\<lparr>ai_balance := sat_add (ai_balance info) amount\<rparr>
           in (Inr (), n\<lparr>n_db := rv_insert_account_info rv db BLOCK_BENEFICIARY info'\<rparr>)))"

definition save_sealed ::
  "'h Kv \<Rightarrow> Codec \<Rightarrow> ('db, 'h) KanariNode \<Rightarrow> SealedBlock \<Rightarrow> B256 \<Rightarrow> StoredReceipt
     \<Rightarrow> ('db, 'h, unit) node_result" where
  "save_sealed kv cd n block hash rcpt =
     (case save_block kv cd (n_store n) block [(hash, rcpt)] of
        (r, h) \<Rightarrow> (map_err node_error_of_store r, n\<lparr>n_store := h\<rparr>))"

text \<open>The in-memory part of a seal: block, receipt and counters.\<close>

definition push_sealed ::
  "('db, 'h) KanariNode \<Rightarrow> SealedBlock \<Rightarrow> B256 \<Rightarrow> StoredReceipt \<Rightarrow> ('db, 'h) KanariNode" where
  "push_sealed n block hash rcpt =
     n\<lparr>n_blocks := n_blocks n @ [block], n_receipts := (n_receipts n)(hash \<mapsto> rcpt),
       n_metrics := (n_metrics n)\<lparr>nm_blocks_sealed := nm_blocks_sealed (n_metrics n) + 1,
                                  nm_txs_sealed := nm_txs_sealed (n_metrics n) + 1\<rparr>\<rparr>"

definition seal_raw_with_fee ::
  "('db, 'st, 'h) Ext \<Rightarrow> ('db, 'h) KanariNode \<Rightarrow> bytes \<Rightarrow> u64 \<Rightarrow> u64 \<Rightarrow> u64 \<Rightarrow> ('db, 'h, B256) node_result" where
  "seal_raw_with_fee x n raw number timestamp base_fee =
     (case prepared_decode (x_crypto x) raw (cs_chain_id (n_spec n)) of
        Inl e \<Rightarrow> (Inl e, n)
      | Inr prepared \<Rightarrow>
        (let parent_hash = next_parent_hash (x_crypto x) (n_blocks n);
             (r, db) = transact_raw (x_revm x) (x_pqc x) (n_db n) (n_spec n) prepared number
                         timestamp base_fee
         in bind_node (r, n\<lparr>n_db := db\<rparr>) (\<lambda>result n1.
            let (success, gas_used, created, logs) = execution_summary result;
                burned = base_fee_share gas_used (ucast base_fee)
            in bind_node (if burned \<noteq> 0 then credit_beneficiary (x_revm x) n1 burned else (Inr (), n1))
                (\<lambda>_ n2. bind_node (rebuild_smt (x_revm x) (x_kv x) (x_crypto x) n2) (\<lambda>state_root n3.
                  let hash = keccak256 (x_crypto x) raw;
                      bhash = block_hash (x_crypto x) parent_hash number timestamp;
                      block = \<lparr>sb_number = number, sb_timestamp = timestamp, sb_hash = bhash,
                               sb_parent_hash = parent_hash, sb_txs = [raw],
                               sb_state_root = Some state_root, sb_base_fee = base_fee\<rparr>;
                      rcpt = \<lparr>sr_tx_hash = hash, sr_block_number = number, sr_block_hash = bhash,
                                 sr_gas_used = gas_used, sr_success = success,
                                 sr_from = pt_sender prepared, sr_to = pt_to prepared,
                                 sr_contract_address = created, sr_logs = logs\<rparr>
                  in bind_node (save_sealed (x_kv x) (x_codec x) n3 block hash rcpt) (\<lambda>_ n4.
                       (Inr hash, push_sealed n4 block hash rcpt)))))))"

definition seal_raw ::
  "('db, 'st, 'h) Ext \<Rightarrow> ('db, 'h) KanariNode \<Rightarrow> bytes \<Rightarrow> u64 \<Rightarrow> u64 \<Rightarrow> ('db, 'h, B256) node_result" where
  "seal_raw x n raw number timestamp =
     seal_raw_with_fee x n raw number timestamp (ucast (pending_base_fee (x_crypto x) n))"

definition seal_committed ::
  "('db, 'st, 'h) Ext \<Rightarrow> ('db, 'h) KanariNode \<Rightarrow> bytes \<Rightarrow> u64 \<Rightarrow> ('db, 'h, B256) node_result" where
  "seal_committed x n raw timestamp = seal_raw x n raw (block_number n + 1) timestamp"

definition send_raw_transaction ::
  "('db, 'st, 'h) Ext \<Rightarrow> ('db, 'h) KanariNode \<Rightarrow> bytes \<Rightarrow> u64 \<Rightarrow> ('db, 'h, B256) node_result" where
  "send_raw_transaction x n raw now =
     (case n_dag_sender n of
        Some sent \<Rightarrow>
          (case x_try_send x sent [raw] of
             Inl e \<Rightarrow> (Inl (Execution (''dag mempool full: '' @ e)), n)
           | Inr _ \<Rightarrow> (Inr (keccak256 (x_crypto x) raw), n\<lparr>n_dag_sender := Some (sent @ [[raw]])\<rparr>))
      | None \<Rightarrow> seal_raw x n raw (block_number n + 1) now)"

definition evm_for_block ::
  "('db, 'st, 'h) Ext \<Rightarrow> ('db, 'h) KanariNode \<Rightarrow> u64 \<Rightarrow> u64 \<Rightarrow> KanariEvm" where
  "evm_for_block x n number timestamp =
     block_evm (x_pqc x) (n_spec n) number timestamp (ucast (pending_base_fee (x_crypto x) n))"

section \<open>Read-only calls\<close>

record CallRequest =
  cr_from :: "Address option"
  cr_to :: "Address option"
  cr_data :: "bytes option"
  cr_value :: "U256 option"
  cr_gas :: "u64 option"
  cr_gas_price :: "u128 option"
  cr_nonce :: "u64 option"

record CallResult =
  co_success :: bool
  co_gas_used :: u64
  co_output :: bytes

fun into_data :: "Output \<Rightarrow> bytes" where
  "into_data (OutCall d) = d"
| "into_data (OutCreate d _) = d"

fun from_output :: "ExecutionResult \<Rightarrow> CallResult" where
  "from_output (Success gas output _) = \<lparr>co_success = True, co_gas_used = gas, co_output = into_data output\<rparr>"
| "from_output (Revert gas output) = \<lparr>co_success = False, co_gas_used = gas, co_output = output\<rparr>"
| "from_output (Halt gas) = \<lparr>co_success = False, co_gas_used = gas, co_output = []\<rparr>"

definition call ::
  "('db, 'st, 'h) Ext \<Rightarrow> ('db, 'h) KanariNode \<Rightarrow> CallRequest \<Rightarrow> u64 \<Rightarrow> ('db, 'h, CallResult) node_result" where
  "call x n c now =
     (let caller = (case cr_from c of Some a \<Rightarrow> a | None \<Rightarrow> 0);
          (nonce, n1) = (case cr_nonce c of
             Some k \<Rightarrow> (k, n)
           | None \<Rightarrow> (case nonce_of (x_revm x) n caller of
                        (Inr k, n') \<Rightarrow> (k, n') | (Inl _, n') \<Rightarrow> (0, n')));
          tx = \<lparr>te_tx_type = 0, te_caller = caller,
                te_gas_limit = (case cr_gas c of Some g \<Rightarrow> g | None \<Rightarrow> DEFAULT_CALL_GAS),
                te_gas_price = (case cr_gas_price c of Some p \<Rightarrow> p
                                | None \<Rightarrow> pending_base_fee (x_crypto x) n1),
                te_kind = (case cr_to c of Some to \<Rightarrow> Call to | None \<Rightarrow> Create),
                te_value = (case cr_value c of Some v \<Rightarrow> v | None \<Rightarrow> 0),
                te_data = (case cr_data c of Some d \<Rightarrow> d | None \<Rightarrow> []),
                te_nonce = nonce, te_chain_id = Some (cs_chain_id (n_spec n1)),
                te_access_list = [], te_gas_priority_fee = None, te_authorization_list = []\<rparr>
      in (case rv_transact_one (x_revm x) (evm_for_block x n1 (block_number n1) now) (n_db n1) tx of
            (Inl e, db) \<Rightarrow> (Inl (Execution e), n1\<lparr>n_db := db\<rparr>)
          | (Inr out, db) \<Rightarrow> (Inr (from_output out), n1\<lparr>n_db := db\<rparr>)))"

section \<open>Replay\<close>

text \<open>The two loops of \<open>replay_blocks\<close>; a transaction of a block is compared with the block just
  sealed from it.\<close>

fun replay_txs ::
  "('db, 'st, 'h) Ext \<Rightarrow> SealedBlock \<Rightarrow> bytes list \<Rightarrow> ('db, 'h) KanariNode \<Rightarrow> ('db, 'h, unit) node_result" where
  "replay_txs x block [] n = (Inr (), n)"
| "replay_txs x block (raw # raws) n =
     bind_node (seal_raw_with_fee x n raw (sb_number block) (sb_timestamp block) (sb_base_fee block))
       (\<lambda>_ n'. let sealed = last (n_blocks n') in
          if sb_hash sealed \<noteq> sb_hash block
          then (Inl (Storage (''replay diverged at block '' @ decimal (unat (sb_number block)))), n')
          else if sb_state_root block \<noteq> None \<and> sb_state_root sealed \<noteq> sb_state_root block
          then (Inl (Storage (''state root mismatch at block '' @ decimal (unat (sb_number block)))), n')
          else replay_txs x block raws n')"

fun replay_blocks ::
  "('db, 'st, 'h) Ext \<Rightarrow> SealedBlock list \<Rightarrow> ('db, 'h) KanariNode \<Rightarrow> ('db, 'h, unit) node_result" where
  "replay_blocks x [] n = (Inr (), n)"
| "replay_blocks x (block # blocks) n =
     bind_node (replay_txs x block (sb_txs block) n) (\<lambda>_ n'. replay_blocks x blocks n')"

section \<open>What a seal does\<close>

lemma bind_node_Inr_iff:
  "bind_node r f = (Inr y, n') \<longleftrightarrow> (\<exists>z m. r = (Inr z, m) \<and> f z m = (Inr y, n'))"
  by (auto simp: bind_node_def split: prod.splits sum.splits)

lemma bind_node_Inl_iff:
  "bind_node r f = (Inl e, n') \<longleftrightarrow> r = (Inl e, n') \<or> (\<exists>z m. r = (Inr z, m) \<and> f z m = (Inl e, n'))"
  by (auto simp: bind_node_def split: prod.splits sum.splits)

lemma bind_node_simps [simp]:
  "bind_node (Inl e, n) f = (Inl e, n)" "bind_node (Inr z, n) f = f z n"
  by (simp_all add: bind_node_def)

text \<open>The fee step on the database: what the beneficiary is credited.\<close>

definition pay_base_fee ::
  "('db, 'st) Revm \<Rightarrow> ('db, 'h) KanariNode \<Rightarrow> u64 \<Rightarrow> u64 \<Rightarrow> ('db, 'h, unit) node_result" where
  "pay_base_fee rv n gas_used base_fee =
     (let burned = base_fee_share gas_used (ucast base_fee)
      in if burned \<noteq> 0 then credit_beneficiary rv n burned else (Inr (), n))"

definition sealed_block :: "Crypto \<Rightarrow> SealedBlock list \<Rightarrow> bytes \<Rightarrow> u64 \<Rightarrow> u64 \<Rightarrow> u64 \<Rightarrow> B256 \<Rightarrow> SealedBlock" where
  "sealed_block cr blocks raw number timestamp base_fee root =
     \<lparr>sb_number = number, sb_timestamp = timestamp,
      sb_hash = block_hash cr (next_parent_hash cr blocks) number timestamp,
      sb_parent_hash = next_parent_hash cr blocks, sb_txs = [raw], sb_state_root = Some root,
      sb_base_fee = base_fee\<rparr>"

definition sealed_receipt ::
  "Crypto \<Rightarrow> SealedBlock list \<Rightarrow> bytes \<Rightarrow> u64 \<Rightarrow> u64 \<Rightarrow> PreparedTx \<Rightarrow> ExecutionResult \<Rightarrow> StoredReceipt" where
  "sealed_receipt cr blocks raw number timestamp p res =
     (let (success, gas_used, created, logs) = execution_summary res in
      \<lparr>sr_tx_hash = keccak256 cr raw, sr_block_number = number,
       sr_block_hash = block_hash cr (next_parent_hash cr blocks) number timestamp,
       sr_gas_used = gas_used, sr_success = success, sr_from = pt_sender p, sr_to = pt_to p,
       sr_contract_address = created, sr_logs = logs\<rparr>)"

lemma execution_summary_gas: "fst (snd (execution_summary res)) = tx_gas_used res"
  by (cases res) simp_all

lemma seal_unfold:
  "seal_raw_with_fee x n raw number ts fee =
     (case prepared_decode (x_crypto x) raw (cs_chain_id (n_spec n)) of
        Inl e \<Rightarrow> (Inl e, n)
      | Inr p \<Rightarrow>
        (case transact_raw (x_revm x) (x_pqc x) (n_db n) (n_spec n) p number ts fee of
           (Inl e, db) \<Rightarrow> (Inl e, n\<lparr>n_db := db\<rparr>)
         | (Inr res, db) \<Rightarrow>
           bind_node (pay_base_fee (x_revm x) (n\<lparr>n_db := db\<rparr>) (tx_gas_used res) fee) (\<lambda>_ n2.
           bind_node (rebuild_smt (x_revm x) (x_kv x) (x_crypto x) n2) (\<lambda>root n3.
             let b = sealed_block (x_crypto x) (n_blocks n) raw number ts fee root;
                 r = sealed_receipt (x_crypto x) (n_blocks n) raw number ts p res;
                 hash = keccak256 (x_crypto x) raw
             in bind_node (save_sealed (x_kv x) (x_codec x) n3 b hash r) (\<lambda>_ n4.
                  (Inr hash, push_sealed n4 b hash r))))))"
proof (cases "prepared_decode (x_crypto x) raw (cs_chain_id (n_spec n))")
  case (Inl e)
  then show ?thesis by (simp add: seal_raw_with_fee_def)
next
  case (Inr p)
  obtain r db where t: "transact_raw (x_revm x) (x_pqc x) (n_db n) (n_spec n) p number ts fee = (r, db)"
    by (cases "transact_raw (x_revm x) (x_pqc x) (n_db n) (n_spec n) p number ts fee")
  show ?thesis
  proof (cases r)
    case (Inl e)
    with Inr t show ?thesis by (simp add: seal_raw_with_fee_def)
  next
    case (Inr res)
    with \<open>prepared_decode _ _ _ = _\<close> t show ?thesis
      by (cases res) (simp_all add: seal_raw_with_fee_def pay_base_fee_def sealed_block_def
          sealed_receipt_def Let_def)
  qed
qed

text \<open>The steps change the database and the store only.\<close>

lemma credit_beneficiary_frame:
  "\<exists>db. snd (credit_beneficiary rv n amount) = n\<lparr>n_db := db\<rparr>"
  by (auto simp: credit_beneficiary_def Let_def split: prod.splits sum.splits)

lemma pay_base_fee_frame: "\<exists>db. snd (pay_base_fee rv n gas fee) = n\<lparr>n_db := db\<rparr>"
  using credit_beneficiary_frame [of rv n] by (auto simp: pay_base_fee_def Let_def intro: exI [of _ "n_db n"])

lemma save_sealed_frame: "\<exists>h. snd (save_sealed kv cd n b hash r) = n\<lparr>n_store := h\<rparr>"
  by (auto simp: save_sealed_def split: prod.splits)

lemma save_sealed_Inl:
  "save_sealed kv cd n b hash r = (Inl e, n') \<Longrightarrow>
     \<exists>e' h. save_block kv cd (n_store n) b [(hash, r)] = (Inl e', h) \<and> n' = n\<lparr>n_store := h\<rparr>"
  by (cases "save_block kv cd (n_store n) b [(hash, r)]")
    (auto simp: save_sealed_def map_err_Inl_iff)

text \<open>A successful seal, step by step.\<close>

lemma seal_success:
  assumes "seal_raw_with_fee x n raw number ts fee = (Inr hash, n')"
  obtains p res db1 db2 root h1 h2 where
    "prepared_decode (x_crypto x) raw (cs_chain_id (n_spec n)) = Inr p"
    "transact_raw (x_revm x) (x_pqc x) (n_db n) (n_spec n) p number ts fee = (Inr res, db1)"
    "pay_base_fee (x_revm x) (n\<lparr>n_db := db1\<rparr>) (tx_gas_used res) fee = (Inr (), n\<lparr>n_db := db2\<rparr>)"
    "rebuild_smt (x_revm x) (x_kv x) (x_crypto x) (n\<lparr>n_db := db2\<rparr>)
       = (Inr root, n\<lparr>n_db := db2, n_store := h1\<rparr>)"
    "save_block (x_kv x) (x_codec x) h1
       (sealed_block (x_crypto x) (n_blocks n) raw number ts fee root)
       [(keccak256 (x_crypto x) raw, sealed_receipt (x_crypto x) (n_blocks n) raw number ts p res)]
       = (Inr (), h2)"
    "hash = keccak256 (x_crypto x) raw"
    "n' = push_sealed (n\<lparr>n_db := db2, n_store := h2\<rparr>)
       (sealed_block (x_crypto x) (n_blocks n) raw number ts fee root)
       (keccak256 (x_crypto x) raw) (sealed_receipt (x_crypto x) (n_blocks n) raw number ts p res)"
proof -
  from assms obtain p res db1 where 1: "prepared_decode (x_crypto x) raw (cs_chain_id (n_spec n)) = Inr p"
      "transact_raw (x_revm x) (x_pqc x) (n_db n) (n_spec n) p number ts fee = (Inr res, db1)"
    by (auto simp: seal_unfold split: sum.splits prod.splits)
  with assms obtain n2 where 2: "pay_base_fee (x_revm x) (n\<lparr>n_db := db1\<rparr>) (tx_gas_used res) fee = (Inr (), n2)"
    by (auto simp: seal_unfold bind_node_Inr_iff)
  then obtain db2 where n2: "n2 = n\<lparr>n_db := db2\<rparr>"
    using pay_base_fee_frame [of "x_revm x" "n\<lparr>n_db := db1\<rparr>" "tx_gas_used res" fee] by auto
  from assms 1 2 obtain root n3 where 3: "rebuild_smt (x_revm x) (x_kv x) (x_crypto x) n2 = (Inr root, n3)"
    by (auto simp: seal_unfold bind_node_Inr_iff)
  then obtain h1 where n3: "n3 = n\<lparr>n_db := db2, n_store := h1\<rparr>"
    using rebuild_smt_node [of "x_revm x" "x_kv x" "x_crypto x" n2] by (auto simp: n2)
  show thesis
    using assms 1 2 3 n2 n3
    by (auto simp: seal_unfold bind_node_Inr_iff Let_def save_sealed_def intro!: that
        split: prod.splits)
qed

text \<open>A failed seal changed at most the database and the tree.\<close>

definition same_chain_data :: "'h Kv \<Rightarrow> 'h \<Rightarrow> 'h \<Rightarrow> bool" where
  "same_chain_data kv h h' \<longleftrightarrow> (\<forall>k. chain_key k \<longrightarrow> kv_get kv h' k = kv_get kv h k)"

lemma same_chain_data_refl [simp]: "same_chain_data kv h h"
  by (simp add: same_chain_data_def)

lemma same_chain_data_rebuild:
  "kv_ok kv \<Longrightarrow> same_chain_data kv h (snd (smt_rebuild kv h es))"
  by (simp add: same_chain_data_def)

lemma node_db_self: "\<exists>db. n = n\<lparr>n_db := db\<rparr>"
  by (rule exI [of _ "n_db n"]) simp

lemma seal_failed:
  assumes "kv_ok (x_kv x)" and "seal_raw_with_fee x n raw number ts fee = (Inl e, n')"
  obtains db h where "n' = n\<lparr>n_db := db, n_store := h\<rparr>" "same_chain_data (x_kv x) (n_store n) h"
proof -
  consider (early) "\<exists>db. n' = n\<lparr>n_db := db\<rparr>"
    | (late) p res db where "transact_raw (x_revm x) (x_pqc x) (n_db n) (n_spec n) p number ts fee = (Inr res, db)"
      "prepared_decode (x_crypto x) raw (cs_chain_id (n_spec n)) = Inr p"
    using assms(2) by (auto simp: seal_unfold intro: node_db_self split: sum.splits prod.splits)
  then show thesis
  proof cases
    case early
    then obtain db where "n' = n\<lparr>n_db := db\<rparr>" by blast
    then show thesis by (intro that [where db = db and h = "n_store n"]) simp_all
  next
    case late
    obtain r2 db2 where 2: "pay_base_fee (x_revm x) (n\<lparr>n_db := db\<rparr>) (tx_gas_used res) fee = (r2, n\<lparr>n_db := db2\<rparr>)"
      using pay_base_fee_frame [of "x_revm x" "n\<lparr>n_db := db\<rparr>" "tx_gas_used res" fee]
      by (metis (no_types, lifting) KanariNode.ext_inject KanariNode.surjective KanariNode.update_convs(2) prod.collapse)
    define h1 where "h1 = snd (smt_rebuild (x_kv x) (n_store n) (smt_entries (x_revm x) (x_crypto x) db2))"
    obtain r3 where 3: "rebuild_smt (x_revm x) (x_kv x) (x_crypto x) (n\<lparr>n_db := db2\<rparr>)
        = (r3, n\<lparr>n_db := db2, n_store := h1\<rparr>)"
      using rebuild_smt_node [of "x_revm x" "x_kv x" "x_crypto x" "n\<lparr>n_db := db2\<rparr>"]
      by (cases "rebuild_smt (x_revm x) (x_kv x) (x_crypto x) (n\<lparr>n_db := db2\<rparr>)") (auto simp: h1_def)
    have h1: "same_chain_data (x_kv x) (n_store n) h1"
      unfolding h1_def by (rule same_chain_data_rebuild [OF assms(1)])
    note step = assms(2) [unfolded seal_unfold, simplified late prod.case sum.case 2]
    consider "n' = n\<lparr>n_db := db2\<rparr>" | "n' = n\<lparr>n_db := db2, n_store := h1\<rparr>"
      | b rs e' h2 where "save_block (x_kv x) (x_codec x) h1 b rs = (Inl e', h2)"
          "n' = n\<lparr>n_db := db2, n_store := h2\<rparr>"
      using step 3 by (auto simp: bind_node_Inl_iff Let_def dest!: save_sealed_Inl)
    then show thesis
    proof cases
      case 1
      then show thesis by (intro that [where db = db2 and h = "n_store n"]) simp_all
    next
      case 2
      then show thesis by (rule that) (rule h1)
    next
      case 3
      then have "same_chain_data (x_kv x) (n_store n) h2"
        using h1 save_block_failed [OF assms(1)] by (simp add: same_chain_data_def)
      with 3(2) show thesis by (rule that)
    qed
  qed
qed

text \<open>On a working disk a seal reaches the store.\<close>

lemma save_block_reliable:
  assumes "kv_reliable kv root_of" and "codec_ok cd"
  shows "\<exists>h'. save_block kv cd h b [(hash, r)] = (Inr (), h')"
proof -
  obtain bb rb where "ser_block cd b = Inr bb" "ser_receipt cd r = Inr rb"
    using assms(2) unfolding codec_ok_def by metis
  then show ?thesis
    using assms(1) by (auto simp: save_block_def Let_def kv_reliable_def split: prod.splits) (metis fst_conv)
qed

section \<open>The fee step conserves supply\<close>

lemma pay_base_fee_supply:
  assumes "db_ok rv" and "total_supply rv (n_db n) + unat gas * unat fee < 2 ^ 256"
  obtains db' where "pay_base_fee rv n gas fee = (Inr (), n\<lparr>n_db := db'\<rparr>)"
    "total_supply rv db' = total_supply rv (n_db n) + unat gas * unat fee"
proof (cases "base_fee_share gas (ucast fee) = 0")
  case True
  then have "unat gas * unat fee = 0"
    using unat_base_fee_share [of gas "ucast fee"] by (simp add: unat_ucast_up)
  with True show thesis by (intro that [of "n_db n"]) (simp_all add: pay_base_fee_def)
next
  case False
  let ?B = BLOCK_BENEFICIARY
  obtain found db where fd: "rv_basic rv (n_db n) ?B = (Inr found, db)"
    using assms(1) unfolding db_ok_def by (metis prod.collapse)
  define info where "info = (case found of Some i \<Rightarrow> i
     | None \<Rightarrow> \<lparr>ai_balance = 0, ai_nonce = 0, ai_code_hash = rv_keccak_empty rv, ai_code = None\<rparr>)"
  define info' where "info' = info\<lparr>ai_balance := sat_add (ai_balance info) (base_fee_share gas (ucast fee))\<rparr>"
  have bal: "balance_in rv (n_db n) ?B = unat (ai_balance info)"
    by (simp add: balance_in_def fd info_def split: option.splits)
  then have "unat (ai_balance info) \<le> total_supply rv (n_db n)"
    by (metis balance_le_total)
  then have info': "unat (ai_balance info') = unat (ai_balance info) + unat gas * unat fee"
    using assms(2) by (simp add: info'_def unat_sat_add unat_base_fee_share unat_ucast_up)
  have db: "total_supply rv db = total_supply rv (n_db n)" "balance_in rv db ?B = balance_in rv (n_db n) ?B"
    using total_supply_basic [OF assms(1), of "n_db n" ?B] assms(1) fd unfolding db_ok_def by (metis snd_conv)+
  have "total_supply rv (rv_insert_account_info rv db ?B info') = total_supply rv (n_db n) + unat gas * unat fee"
    using total_supply_insert [OF assms(1), of db ?B info'] by (simp add: db bal info')
  then show thesis
    by (intro that [of "rv_insert_account_info rv db ?B info'"])
      (simp_all add: pay_base_fee_def False credit_beneficiary_def fd info'_def info_def Let_def)
qed

section \<open>A seal on a working disk\<close>

text \<open>The fee step reads and writes the database only.\<close>

definition pay_db :: "('db, 'st) Revm \<Rightarrow> 'db \<Rightarrow> u64 \<Rightarrow> u64 \<Rightarrow> (NodeError + unit) \<times> 'db" where
  "pay_db rv db gas fee =
     (if base_fee_share gas (ucast fee) = 0 then (Inr (), db)
      else case rv_basic rv db BLOCK_BENEFICIARY of
             (Inl e, db') \<Rightarrow> (Inl (Storage e), db')
           | (Inr found, db') \<Rightarrow>
               (let info = (case found of Some i \<Rightarrow> i
                  | None \<Rightarrow> \<lparr>ai_balance = 0, ai_nonce = 0, ai_code_hash = rv_keccak_empty rv, ai_code = None\<rparr>)
                in (Inr (), rv_insert_account_info rv db' BLOCK_BENEFICIARY
                      (info\<lparr>ai_balance := sat_add (ai_balance info) (base_fee_share gas (ucast fee))\<rparr>))))"

lemma pay_base_fee_db:
  "pay_base_fee rv n gas fee = (fst (pay_db rv (n_db n) gas fee), n\<lparr>n_db := snd (pay_db rv (n_db n) gas fee)\<rparr>)"
  by (auto simp: pay_base_fee_def pay_db_def credit_beneficiary_def Let_def split: prod.splits sum.splits)

text \<open>The database part of a seal: what the sealed block and receipt are computed from.\<close>

definition seal_db ::
  "('db, 'st, 'h) Ext \<Rightarrow> KanariChainSpec \<Rightarrow> 'db \<Rightarrow> bytes \<Rightarrow> u64 \<Rightarrow> u64 \<Rightarrow> u64
     \<Rightarrow> (NodeError + PreparedTx \<times> ExecutionResult) \<times> 'db" where
  "seal_db x spec db raw number ts fee =
     (case prepared_decode (x_crypto x) raw (cs_chain_id spec) of
        Inl e \<Rightarrow> (Inl e, db)
      | Inr p \<Rightarrow>
        (case transact_raw (x_revm x) (x_pqc x) db spec p number ts fee of
           (Inl e, db1) \<Rightarrow> (Inl e, db1)
         | (Inr res, db1) \<Rightarrow>
           (case pay_db (x_revm x) db1 (tx_gas_used res) fee of
              (Inl e, db2) \<Rightarrow> (Inl e, db2)
            | (Inr _, db2) \<Rightarrow> (Inr (p, res), db2))))"

lemma seal_reliable:
  fixes x :: "('db, 'st, 'h) Ext"
  assumes "kv_reliable (x_kv x) root_of" and "codec_ok (x_codec x)"
  shows "case seal_db x (n_spec n) (n_db n) raw number ts fee of
      (Inl e, db) \<Rightarrow> seal_raw_with_fee x n raw number ts fee = (Inl e, n\<lparr>n_db := db\<rparr>)
    | (Inr (p, res), db) \<Rightarrow> \<exists>h. seal_raw_with_fee x n raw number ts fee =
        (Inr (keccak256 (x_crypto x) raw),
         push_sealed (n\<lparr>n_db := db, n_store := h\<rparr>)
           (sealed_block (x_crypto x) (n_blocks n) raw number ts fee
              (root_of (set (smt_entries (x_revm x) (x_crypto x) db))))
           (keccak256 (x_crypto x) raw)
           (sealed_receipt (x_crypto x) (n_blocks n) raw number ts p res))"
proof -
  have save: "\<exists>h. save_sealed (x_kv x) (x_codec x) m b hash r = (Inr (), m\<lparr>n_store := h\<rparr>)" 
    for m :: "('db, 'h) KanariNode" and b hash r
    using save_block_reliable [OF assms, of "n_store m" b hash r] by (auto simp: save_sealed_def)
  show ?thesis
  proof (cases "prepared_decode (x_crypto x) raw (cs_chain_id (n_spec n))")
    case (Inl e)
    then show ?thesis by (simp add: seal_db_def seal_unfold)
  next
    case (Inr p)
    note p = this
    obtain r db1 where t: "transact_raw (x_revm x) (x_pqc x) (n_db n) (n_spec n) p number ts fee = (r, db1)"
      by (cases "transact_raw (x_revm x) (x_pqc x) (n_db n) (n_spec n) p number ts fee")
    show ?thesis
    proof (cases r)
      case (Inl e)
      with p t show ?thesis by (simp add: seal_db_def seal_unfold)
    next
      case (Inr res)
      obtain q db2 where q: "pay_db (x_revm x) db1 (tx_gas_used res) fee = (q, db2)"
        by (cases "pay_db (x_revm x) db1 (tx_gas_used res) fee")
      let ?h = "snd (smt_rebuild (x_kv x) (n_store n) (smt_entries (x_revm x) (x_crypto x) db2))"
      let ?b = "sealed_block (x_crypto x) (n_blocks n) raw number ts fee
          (root_of (set (smt_entries (x_revm x) (x_crypto x) db2)))"
      let ?r = "sealed_receipt (x_crypto x) (n_blocks n) raw number ts p res"
      obtain h where "save_sealed (x_kv x) (x_codec x) (n\<lparr>n_db := db2, n_store := ?h\<rparr>) ?b
          (keccak256 (x_crypto x) raw) ?r = (Inr (), n\<lparr>n_db := db2, n_store := h\<rparr>)"
        using save [of "n\<lparr>n_db := db2, n_store := ?h\<rparr>"] by fastforce
      with p t Inr q show ?thesis
        by (cases q) (auto simp: seal_db_def seal_unfold pay_base_fee_db Let_def
            rebuild_smt_reliable [OF assms(1)])
    qed
  qed
qed

text \<open>
  The part of a node that replicas share; disks, faucet keys and counters are their own. Databases count up to
  what the program can see of them. With \<open>roots\<close> the blocks are equal; without, they are equal except for the state
  roots they carry.
\<close>

definition drop_root :: "SealedBlock \<Rightarrow> SealedBlock" where
  "drop_root b = b\<lparr>sb_state_root := None\<rparr>"

lemma drop_root_sels [simp]:
  "sb_number (drop_root b) = sb_number b" "sb_hash (drop_root b) = sb_hash b" "sb_txs (drop_root b) = sb_txs b"
  "sb_base_fee (drop_root b) = sb_base_fee b" "sb_timestamp (drop_root b) = sb_timestamp b"
  "sb_parent_hash (drop_root b) = sb_parent_hash b"
  by (simp_all add: drop_root_def)

definition same_replica :: "('db, 'st, 'h) Ext \<Rightarrow> bool \<Rightarrow> ('db, 'h) KanariNode \<Rightarrow> ('db, 'g) KanariNode \<Rightarrow> bool" where
  "same_replica x roots n m \<longleftrightarrow> n_spec n = n_spec m \<and> db_sim (x_revm x) (x_crypto x) roots (n_db n) (n_db m)
     \<and> map drop_root (n_blocks n) = map drop_root (n_blocks m) \<and> (roots \<longrightarrow> n_blocks n = n_blocks m)
     \<and> n_receipts n = n_receipts m"

definition same_env :: "('db, 'st, 'h) Ext \<Rightarrow> ('db, 'st, 'g) Ext \<Rightarrow> bool" where
  "same_env x y \<longleftrightarrow> x_revm x = x_revm y \<and> x_crypto x = x_crypto y \<and> x_pqc x = x_pqc y"

definition working_disk :: "('db, 'st, 'h) Ext \<Rightarrow> ((bytes \<times> bytes) set \<Rightarrow> B256) \<Rightarrow> bool" where
  "working_disk x root_of \<longleftrightarrow> kv_ok (x_kv x) \<and> kv_reliable (x_kv x) root_of \<and> codec_ok (x_codec x)"

lemma same_replica_refl [simp]: "same_replica x roots n n"
  by (simp add: same_replica_def)

lemma same_replica_blocks: "same_replica x True n m \<Longrightarrow> n_blocks n = n_blocks m"
  by (simp add: same_replica_def)

lemma same_replica_trans:
  "same_replica x roots n m \<Longrightarrow> same_env x y \<Longrightarrow> same_replica y roots m k \<Longrightarrow> same_replica x roots n k"
  by (auto simp: same_replica_def same_env_def intro: db_sim_trans)

lemma same_replica_sym: "same_replica x roots n m \<Longrightarrow> same_env x y \<Longrightarrow> same_replica y roots m n"
  by (auto simp: same_replica_def same_env_def intro: db_sim_sym)

lemma same_replica_weaken: "same_replica x True n m \<Longrightarrow> same_replica x roots n m"
  by (auto simp: same_replica_def intro: db_sim_weaken)

lemma seal_db_env: "same_env x y \<Longrightarrow> seal_db x = seal_db y"
  by (intro ext) (auto simp only: seal_db_def same_env_def)

text \<open>Block numbers, fees and hashes do not depend on the roots of earlier blocks.\<close>

lemma find_drop_root:
  assumes "\<And>b. P (drop_root b) = P b"
  shows "find P (map drop_root bs) = map_option drop_root (find P bs)"
  using assms by (induction bs) auto

lemma same_roots_last:
  assumes "map drop_root bs = map drop_root cs"
  shows "bs = [] \<longleftrightarrow> cs = []" "bs \<noteq> [] \<Longrightarrow> drop_root (last bs) = drop_root (last cs)"
proof -
  show e: "bs = [] \<longleftrightarrow> cs = []" using assms by auto
  then show "bs \<noteq> [] \<Longrightarrow> drop_root (last bs) = drop_root (last cs)"
    using assms by (metis last_map)
qed

lemma drop_root_eqD:
  assumes "drop_root b = drop_root c"
  shows "sb_number b = sb_number c" "sb_hash b = sb_hash c" "sb_txs b = sb_txs c" "sb_base_fee b = sb_base_fee c"
    "sb_timestamp b = sb_timestamp c"
  using assms by (metis drop_root_sels)+

lemma next_parent_hash_roots:
  "map drop_root bs = map drop_root cs \<Longrightarrow> next_parent_hash cr bs = next_parent_hash cr cs"
  using same_roots_last [of bs cs] by (auto simp: next_parent_hash_def dest: drop_root_eqD)

lemma block_number_replica: "same_replica x roots n m \<Longrightarrow> block_number n = block_number m"
  using same_roots_last [of "n_blocks n" "n_blocks m"]
  by (auto simp: block_number_def same_replica_def dest: drop_root_eqD)

lemma block_gas_used_replica:
  assumes "same_replica x roots n m"
  shows "block_gas_used cr n k = block_gas_used cr m k"
proof -
  have "map_option drop_root (block_by_number n k) = map_option drop_root (block_by_number m k)"
    using assms find_drop_root [of "\<lambda>b. sb_number b = k"]
    by (simp add: same_replica_def block_by_number_def) metis
  with assms show ?thesis
    by (cases "block_by_number n k"; cases "block_by_number m k")
      (auto simp: block_gas_used_def same_replica_def dest: drop_root_eqD)
qed

lemma pending_base_fee_replica:
  assumes "same_replica x roots n m"
  shows "pending_base_fee cr n = pending_base_fee cr m"
proof -
  have eq: "n_spec n = n_spec m" "map drop_root (n_blocks n) = map drop_root (n_blocks m)"
    using assms by (simp_all add: same_replica_def)
  show ?thesis
    using same_roots_last [OF eq(2)] drop_root_eqD(1,4) [of "last (n_blocks n)" "last (n_blocks m)"]
      block_gas_used_replica [OF assms] eq(1)
    by (simp add: pending_base_fee_def Let_def)
qed

lemma transact_raw_sim:
  assumes "db_sim rv cr roots d e"
  shows "fst (transact_raw rv P d spec p number ts fee) = fst (transact_raw rv P e spec p number ts fee)
    \<and> db_sim rv cr roots (snd (transact_raw rv P d spec p number ts fee)) (snd (transact_raw rv P e spec p number ts fee))"
  using db_sim_ops(7,8) [OF assms, of "block_evm P spec number ts fee" "pt_inner p"]
  by (auto simp: transact_raw_def intro: db_sim_ops(11) split: prod.splits sum.splits)

lemma pay_db_sim:
  assumes "db_sim rv cr roots d e"
  shows "fst (pay_db rv d gas fee) = fst (pay_db rv e gas fee)
    \<and> db_sim rv cr roots (snd (pay_db rv d gas fee)) (snd (pay_db rv e gas fee))"
  using assms db_sim_ops(1,2) [OF assms, of BLOCK_BENEFICIARY]
  by (auto simp: pay_db_def Let_def intro: db_sim_ops(5) split: prod.splits sum.splits)

lemma seal_db_sim:
  assumes "db_sim (x_revm x) (x_crypto x) roots d e"
  shows "fst (seal_db x spec d raw number ts fee) = fst (seal_db x spec e raw number ts fee)
    \<and> db_sim (x_revm x) (x_crypto x) roots (snd (seal_db x spec d raw number ts fee)) (snd (seal_db x spec e raw number ts fee))"
proof (cases "prepared_decode (x_crypto x) raw (cs_chain_id spec)")
  case (Inr p)
  obtain r d1 e1 where t: "transact_raw (x_revm x) (x_pqc x) d spec p number ts fee = (r, d1)"
      "transact_raw (x_revm x) (x_pqc x) e spec p number ts fee = (r, e1)"
      "db_sim (x_revm x) (x_crypto x) roots d1 e1"
    using transact_raw_sim [OF assms, of "x_pqc x" spec p number ts fee] by (metis prod.collapse)
  obtain gas where gas: "gas = tx_gas_used (projr r)" by simp
  obtain q d2 e2 where "pay_db (x_revm x) d1 gas fee = (q, d2)" "pay_db (x_revm x) e1 gas fee = (q, e2)"
      "db_sim (x_revm x) (x_crypto x) roots d2 e2"
    using pay_db_sim [OF t(3), of gas fee] by (metis prod.collapse)
  with t Inr gas show ?thesis by (cases r; cases q) (simp_all add: seal_db_def)
qed (simp add: seal_db_def assms)

lemma seal_with_fee_replica:
  assumes "same_env x y" "working_disk x root_of" "working_disk y root_of" "same_replica x roots n m"
  shows "fst (seal_raw_with_fee x n raw number ts fee) = fst (seal_raw_with_fee y m raw number ts fee)
    \<and> same_replica x roots (snd (seal_raw_with_fee x n raw number ts fee)) (snd (seal_raw_with_fee y m raw number ts fee))"
proof -
  have eq: "n_spec n = n_spec m" "x_revm y = x_revm x" "x_crypto y = x_crypto x" "n_receipts n = n_receipts m"
    "map drop_root (n_blocks n) = map drop_root (n_blocks m)" "roots \<longrightarrow> n_blocks n = n_blocks m"
    and sim: "db_sim (x_revm x) (x_crypto x) roots (n_db n) (n_db m)"
    using assms(1,4) by (simp_all add: same_replica_def same_env_def)
  obtain r d e where s: "seal_db x (n_spec n) (n_db n) raw number ts fee = (r, d)"
      "seal_db y (n_spec m) (n_db m) raw number ts fee = (r, e)"
      "db_sim (x_revm x) (x_crypto x) roots d e"
    using seal_db_sim [OF sim, of "n_spec m" raw number ts fee] seal_db_env [OF assms(1)] eq(1) by (metis prod.collapse)
  have sx: "kv_reliable (x_kv x) root_of" "codec_ok (x_codec x)"
    and sy: "kv_reliable (x_kv y) root_of" "codec_ok (x_codec y)"
    using assms(2,3) by (simp_all add: working_disk_def)
  have root: "roots \<longrightarrow> set (smt_entries (x_revm x) (x_crypto x) d) = set (smt_entries (x_revm x) (x_crypto x) e)"
    using s(3) by (cases roots) (auto dest: db_sim_leaves)
  show ?thesis
    using seal_reliable [OF sx, of n raw number ts fee] seal_reliable [OF sy, of m raw number ts fee] s eq root
      next_parent_hash_roots [OF eq(5)]
    by (cases r) (auto simp: same_replica_def push_sealed_def sealed_block_def sealed_receipt_def drop_root_def)
qed

lemma seal_committed_replica:
  assumes "same_env x y" "working_disk x root_of" "working_disk y root_of" "same_replica x roots n m"
  shows "fst (seal_committed x n raw ts) = fst (seal_committed y m raw ts)
    \<and> same_replica x roots (snd (seal_committed x n raw ts)) (snd (seal_committed y m raw ts))"
proof -
  have "x_crypto x = x_crypto y" using assms(1) by (simp add: same_env_def)
  then show ?thesis
    unfolding seal_committed_def seal_raw_def
    using seal_with_fee_replica [OF assms] pending_base_fee_replica [OF assms(4)]
      block_number_replica [OF assms(4)]
    by simp
qed

lemma mem_working_disk: "working_disk mem_ext leaf_count"
  by (simp add: working_disk_def mem_ext_def mem_kv_ok mem_kv_reliable mem_codec_ok)

text \<open>Supply over one seal.\<close>

definition fee_rule :: "('db, 'st, 'h) Ext \<Rightarrow> ('db, 'h) KanariNode \<Rightarrow> bytes \<Rightarrow> u64 \<Rightarrow> u64 \<Rightarrow> u64 \<Rightarrow> bool" where
  "fee_rule x n raw number ts fee \<longleftrightarrow>
     (case prepared_decode (x_crypto x) raw (cs_chain_id (n_spec n)) of
        Inl _ \<Rightarrow> True
      | Inr p \<Rightarrow> burns_base_fee (x_revm x) (block_evm (x_pqc x) (n_spec n) number ts fee) (n_db n) (pt_inner p))"

lemma seal_supply:
  assumes "db_ok (x_revm x)" and "fee_rule x n raw number ts fee"
    and "total_supply (x_revm x) (n_db n) < 2 ^ 256"
    and "seal_raw_with_fee x n raw number ts fee = (Inr hash, n')"
  shows "total_supply (x_revm x) (n_db n') = total_supply (x_revm x) (n_db n)"
  using assms(4)
proof (rule seal_success)
  fix p res db1 db2 root h1 h2
  assume p: "prepared_decode (x_crypto x) raw (cs_chain_id (n_spec n)) = Inr p"
    and t: "transact_raw (x_revm x) (x_pqc x) (n_db n) (n_spec n) p number ts fee = (Inr res, db1)"
    and pay: "pay_base_fee (x_revm x) (n\<lparr>n_db := db1\<rparr>) (tx_gas_used res) fee = (Inr (), n\<lparr>n_db := db2\<rparr>)"
    and n': "n' = push_sealed (n\<lparr>n_db := db2, n_store := h2\<rparr>)
       (sealed_block (x_crypto x) (n_blocks n) raw number ts fee root)
       (keccak256 (x_crypto x) raw) (sealed_receipt (x_crypto x) (n_blocks n) raw number ts p res)"
  have db1: "total_supply (x_revm x) db1 + unat (tx_gas_used res) * unat fee = total_supply (x_revm x) (n_db n)"
    using assms(2) t p
    by (auto simp: fee_rule_def burns_base_fee_def transact_raw_def block_evm_def build_kanari_evm_def
        split: prod.splits sum.splits)
  obtain db' where "pay_base_fee (x_revm x) (n\<lparr>n_db := db1\<rparr>) (tx_gas_used res) fee = (Inr (), n\<lparr>n_db := db'\<rparr>)"
      "total_supply (x_revm x) db' = total_supply (x_revm x) db1 + unat (tx_gas_used res) * unat fee"
    by (rule pay_base_fee_supply [OF assms(1), of "n\<lparr>n_db := db1\<rparr>" "tx_gas_used res" fee])
      (use db1 assms(3) in auto)
  with pay have "total_supply (x_revm x) db2 = total_supply (x_revm x) db1 + unat (tx_gas_used res) * unat fee"
    by (metis KanariNode.select_convs(2) KanariNode.surjective KanariNode.update_convs(2) prod.inject)
  with db1 show ?thesis by (simp add: n' push_sealed_def)
qed

section \<open>Properties\<close>

text \<open>The seal of a concrete transaction.\<close>

lemma mem_seal_db:
  "\<exists>p res db. seal_db mem_ext mem_spec (n_db mem_node) [1] 1 ts 1000000000 = (Inr (p, res), db)"
proof -
  obtain p where p: "prepared_decode mem_crypto [1] 19088 = Inr p" "te_caller (pt_inner p) = 0xabc"
    by (simp add: prepared_decode_def mem_crypto_def mem_decode_def mem_tx_def ok_or_def)
  have "evm_basefee (block_evm mem_pqc mem_spec 1 ts 1000000000) = 1000000000"
    by (simp add: block_evm_def build_kanari_evm_def)
  then obtain res db where "rv_transact mem_revm (block_evm mem_pqc mem_spec 1 ts 1000000000)
      (n_db mem_node) (pt_inner p) = (Inr (res, db), n_db mem_node)"
    by (simp add: mem_charge_def p(2) mem_node_def mem_get_def mem_account_def)
  moreover have "\<exists>db'. pay_db mem_revm d g f = (Inr (), db')" for d g f
    by (simp add: pay_db_def Let_def)
  ultimately show ?thesis
    by (simp add: seal_db_def p transact_raw_def) (metis (no_types, lifting) prod.case sum.case(2))
qed

lemma mem_pending: "pending_base_fee cr mem_node = 1000000000"
  by (simp add: pending_base_fee_def mem_node_def mem_spec_def gas_consts)

lemma mem_seal: "\<exists>n'. seal_committed mem_ext mem_node [1] ts = (Inr 1, n')"
proof -
  obtain p res db where s: "seal_db mem_ext mem_spec (n_db mem_node) [1] 1 ts 1000000000 = (Inr (p, res), db)"
    using mem_seal_db by blast
  have "kv_reliable (x_kv mem_ext) leaf_count" "codec_ok (x_codec mem_ext)"
    using mem_working_disk by (simp_all add: working_disk_def)
  from seal_reliable [OF this, of mem_node "[1]" 1 ts 1000000000] s
  obtain n' where "seal_raw_with_fee mem_ext mem_node [1] 1 ts 1000000000 = (Inr (keccak256 mem_crypto [1]), n')"
    by auto
  moreover have "keccak256 mem_crypto [1] = 1" by (simp add: mem_crypto_def from_be_bytes_def)
  moreover have "block_number mem_node + 1 = 1" by (simp add: block_number_def mem_node_def)
  ultimately show ?thesis
    by (simp add: seal_committed_def seal_raw_def mem_pending)
qed

text \<open>
  No coin is burned or minted by a seal. With revm charging fees as EIP-1559 prescribes (what
  leaves circulation is gas used times base fee), sealing a transaction leaves the sum of all
  balances unchanged, because the node credits exactly that amount to the beneficiary; the saturating
  additions never lose any of it.
\<close>

theorem seal_conserves_supply:
  assumes "db_ok (x_revm x)"
    and "fee_rule x n raw (block_number n + 1) ts (ucast (pending_base_fee (x_crypto x) n))"
    and "total_supply (x_revm x) (n_db n) < 2 ^ 256"
    and "seal_committed x n raw ts = (Inr hash, n')"
  shows "total_supply (x_revm x) (n_db n') = total_supply (x_revm x) (n_db n)"
  using assms(4) unfolding seal_committed_def seal_raw_def by (rule seal_supply [OF assms(1-3)])

theorem seal_conserves_supply_witness:
  "\<exists>n'. seal_committed mem_ext mem_node [1] 100 = (Inr 1, n')
     \<and> total_supply mem_revm (n_db n') = 1000000000000000000"
proof -
  obtain n' where n': "seal_committed mem_ext mem_node [1] 100 = (Inr 1, n')" using mem_seal by blast
  have "fee_rule mem_ext mem_node raw a b c" for raw a b c
    by (simp add: fee_rule_def mem_burns_base_fee split: sum.splits)
  from seal_conserves_supply [OF _ this _ n'] show ?thesis
    using n' by (simp add: mem_db_ok mem_supply_bound)
qed

text \<open>
  C9. A rejected transaction leaves the chain alone: whatever the error and wherever it occurs, the
  block list, the receipts, the specification, the faucet key, the mempool channel and the counters
  are as before, and every block, receipt and the height in the store read as before.
\<close>

theorem seal_failure_keeps_chain:
  assumes "kv_ok (x_kv x)" and "seal_committed x n raw ts = (Inl e, n')"
  shows "n_spec n' = n_spec n \<and> n_blocks n' = n_blocks n \<and> n_receipts n' = n_receipts n
    \<and> n_metrics n' = n_metrics n \<and> n_faucet_key n' = n_faucet_key n
    \<and> n_dag_sender n' = n_dag_sender n \<and> n_genesis_root n' = n_genesis_root n
    \<and> load_blocks (x_kv x) (x_codec x) (n_store n') = load_blocks (x_kv x) (x_codec x) (n_store n)
    \<and> load_receipt (x_kv x) (x_codec x) (n_store n') y = load_receipt (x_kv x) (x_codec x) (n_store n) y
    \<and> height (x_kv x) (n_store n') = height (x_kv x) (n_store n)"
proof -
  from assms(2) obtain db h where n': "n' = n\<lparr>n_db := db, n_store := h\<rparr>"
      and h: "same_chain_data (x_kv x) (n_store n) h"
    unfolding seal_committed_def seal_raw_def by (rule seal_failed [OF assms(1)])
  have "load_blocks (x_kv x) (x_codec x) h = load_blocks (x_kv x) (x_codec x) (n_store n)"
    by (rule load_blocks_cong) (use h in \<open>simp add: same_chain_data_def\<close>)
  then show ?thesis using h by (simp add: n' same_chain_data_def store_reads)
qed

theorem seal_failure_keeps_chain_witness:
  "\<exists>n'. seal_committed mem_ext mem_node [0xff] 100 = (Inl (InvalidTransaction ''bad''), n')
     \<and> n_blocks n' = []"
proof -
  obtain n' where n': "seal_committed mem_ext mem_node [0xff] 100 = (Inl (InvalidTransaction ''bad''), n')"
    by (simp add: seal_committed_def seal_raw_def seal_raw_with_fee_def prepared_decode_def
        mem_crypto_def mem_decode_def)
  from seal_failure_keeps_chain [OF _ n'] n' show ?thesis by (simp add: mem_kv_ok)
qed

text \<open>
  Replicas agree: take two nodes, each on its own working disk, that agree on specification, blocks and
  receipts and whose databases the program cannot tell apart. They return the same result for the same payload
  and timestamp and agree again afterwards (same block hash, same state root, same receipt), also when the payload
  is rejected. If they agree except for state roots, they still agree except for state roots afterwards.
\<close>

theorem seal_replicas_agree:
  assumes "same_env x y" "working_disk x root_of" "working_disk y root_of" "same_replica x roots n m"
  shows "fst (seal_committed x n raw ts) = fst (seal_committed y m raw ts)
    \<and> same_replica x roots (snd (seal_committed x n raw ts)) (snd (seal_committed y m raw ts))"
  using assms by (rule seal_committed_replica)

theorem seal_replicas_agree_witness:
  "same_replica mem_ext True mem_node (mem_node\<lparr>n_store := (Map.empty, [([1], [2])]), n_faucet_key := Some 3\<rparr>)
   \<and> fst (seal_committed mem_ext mem_node [1] 100) = Inr 1
   \<and> fst (seal_committed mem_ext
        (mem_node\<lparr>n_store := (Map.empty, [([1], [2])]), n_faucet_key := Some 3\<rparr>) [1] 100) = Inr 1"
proof -
  have env: "same_env mem_ext mem_ext" by (simp add: same_env_def)
  have rep: "same_replica mem_ext True mem_node (mem_node\<lparr>n_store := (Map.empty, [([1], [2])]), n_faucet_key := Some 3\<rparr>)"
    by (simp add: same_replica_def)
  from seal_replicas_agree [OF env mem_working_disk mem_working_disk rep, of "[1]" 100] mem_seal [of 100] rep
  show ?thesis by auto
qed

text \<open>The chain an envelope is bound to.\<close>

fun bound_chain :: "TxEnvelope \<Rightarrow> u64 option" where
  "bound_chain (Legacy tx _) = tl_chain_id tx"
| "bound_chain (Eip2930 tx _) = Some (t1_chain_id tx)"
| "bound_chain (Eip1559 tx _) = Some (t2_chain_id tx)"
| "bound_chain (Eip7702 tx _) = Some (t4_chain_id tx)"
| "bound_chain (Eip4844 _) = None"

text \<open>
  C30. Which raw transactions are accepted: exactly those that decode, whose signer can be recovered
  and which are bound to this chain; an unprotected legacy transaction and a blob transaction are
  bound to none. An accepted one runs as the recovered signer, on this chain, with the recipient the
  receipt reports.
\<close>

theorem prepared_decode_accepts:
  "((\<exists>p. prepared_decode cr raw chain_id = Inr p) \<longleftrightarrow>
     (\<exists>env sender. decode_2718 cr raw = Inr env \<and> recover_signer cr env = Inr sender
        \<and> bound_chain env = Some chain_id))
   \<and> (case prepared_decode cr raw chain_id of
        Inl _ \<Rightarrow> True
      | Inr p \<Rightarrow> map_sum id (recover_signer cr) (decode_2718 cr raw) = Inr (Inr (pt_sender p))
          \<and> te_caller (pt_inner p) = pt_sender p \<and> te_chain_id (pt_inner p) = Some chain_id
          \<and> te_kind (pt_inner p) = (case pt_to p of Some a \<Rightarrow> Call a | None \<Rightarrow> Create))"
proof (cases "decode_2718 cr raw")
  case (Inl e)
  then show ?thesis by (simp add: prepared_decode_def)
next
  case (Inr env)
  then show ?thesis
    by (cases env; cases "recover_signer cr env")
      (auto simp: prepared_decode_def ok_or_def split: option.splits TxKind.splits)
qed

text \<open>
  Validator mode never seals on submission: the transaction goes to the mempool channel once, the
  returned hash is the transaction hash, and nothing else of the node changes; a full channel is an
  error that changes nothing.
\<close>

theorem send_raw_validator_mode:
  assumes "n_dag_sender n = Some sent"
  shows "case send_raw_transaction x n raw now of
      (Inr hash, n') \<Rightarrow> hash = keccak256 (x_crypto x) raw \<and> x_try_send x sent [raw] = Inr ()
         \<and> n' = n\<lparr>n_dag_sender := Some (sent @ [[raw]])\<rparr>
    | (Inl e, n') \<Rightarrow> n' = n \<and> (\<exists>m. x_try_send x sent [raw] = Inl m
         \<and> e = Execution (''dag mempool full: '' @ m))"
  using assms by (auto simp: send_raw_transaction_def split: sum.splits)

theorem send_raw_validator_mode_witness:
  "send_raw_transaction mem_ext (mem_node\<lparr>n_dag_sender := Some []\<rparr>) [1] 100
     = (Inr 1, mem_node\<lparr>n_dag_sender := Some [[[1]]]\<rparr>)"
proof -
  have d: "n_dag_sender (mem_node\<lparr>n_dag_sender := Some []\<rparr>) = Some []" by simp
  have "x_try_send mem_ext [] [[1]] = Inr ()" by (simp add: mem_ext_def)
  moreover have "keccak256 mem_crypto [1] = 1" by (simp add: mem_crypto_def from_be_bytes_def)
  ultimately show ?thesis
    using send_raw_validator_mode [OF d, of mem_ext "[1]" 100] by (auto split: prod.splits sum.splits)
qed

end
