(* ===== verification/Ledger.thy ===== *)
theory Ledger
  imports Execution
begin

text \<open>
  The invariants of the sealed chain and of its copy in the store, and their preservation by sealing
  and replay. \<open>ledger_ok\<close> is about the node's memory (numbering, hash links, one transaction per
  block, receipts that point at their block), \<open>mirrored\<close> relates memory and store.
\<close>

section \<open>Invariants\<close>

definition linked :: "Crypto \<Rightarrow> SealedBlock list \<Rightarrow> bool" where
  "linked cr bs \<longleftrightarrow> (\<forall>i < length bs.
     sb_parent_hash (bs ! i) = next_parent_hash cr (take i bs)
     \<and> sb_hash (bs ! i) = block_hash cr (sb_parent_hash (bs ! i)) (sb_number (bs ! i)) (sb_timestamp (bs ! i))
     \<and> length (sb_txs (bs ! i)) = 1 \<and> sb_state_root (bs ! i) \<noteq> None)"

definition receipts_ok :: "Crypto \<Rightarrow> SealedBlock list \<Rightarrow> (B256 \<rightharpoonup> StoredReceipt) \<Rightarrow> bool" where
  "receipts_ok cr bs rs \<longleftrightarrow>
     (\<forall>h r. rs h = Some r \<longrightarrow> sr_tx_hash r = h \<and>
        (\<exists>b\<in>set bs. sb_number b = sr_block_number r \<and> sb_hash b = sr_block_hash r
           \<and> map (keccak256 cr) (sb_txs b) = [h])) \<and>
     (\<forall>b\<in>set bs. \<forall>raw\<in>set (sb_txs b). rs (keccak256 cr raw) \<noteq> None)"

definition ledger_ok :: "Crypto \<Rightarrow> ('db, 'h) KanariNode \<Rightarrow> bool" where
  "ledger_ok cr n \<longleftrightarrow> numbered (n_blocks n) \<and> linked cr (n_blocks n)
     \<and> receipts_ok cr (n_blocks n) (n_receipts n)"

text \<open>The store holds the blocks, the receipts and the metadata, and its height is the head's.\<close>

definition stored :: "('db, 'st, 'h) Ext \<Rightarrow> ('db, 'h) KanariNode \<Rightarrow> bool" where
  "stored x n \<longleftrightarrow>
     (\<forall>b\<in>set (n_blocks n). load_block (x_kv x) (x_codec x) (n_store n) (sb_number b) = Inr (Some b)) \<and>
     (\<forall>h r. n_receipts n h = Some r \<longrightarrow> load_receipt (x_kv x) (x_codec x) (n_store n) h = Inr (Some r)) \<and>
     stored_chain_id (x_kv x) (n_store n) = Inr (Some (cs_chain_id (n_spec n))) \<and>
     stored_genesis_alloc (x_kv x) (x_codec x) (n_store n) = Inr (cs_genesis_alloc (n_spec n))"

definition height_synced :: "('db, 'st, 'h) Ext \<Rightarrow> ('db, 'h) KanariNode \<Rightarrow> bool" where
  "height_synced x n \<longleftrightarrow> get_u64 (x_kv x) (n_store n) META_HEIGHT
       = Inr (if n_blocks n = [] then None else Some (sb_number (last (n_blocks n))))"

definition mirrored :: "('db, 'st, 'h) Ext \<Rightarrow> ('db, 'h) KanariNode \<Rightarrow> bool" where
  "mirrored x n \<longleftrightarrow> stored x n \<and> height_synced x n"

section \<open>Lemmas on block lists\<close>

lemma numbered_nil [simp]: "numbered []"
  by (simp add: numbered_def)

lemma linked_nil [simp]: "linked cr []"
  by (simp add: linked_def)

lemma block_number_numbered: "numbered (n_blocks n) \<Longrightarrow> block_number n = of_nat (length (n_blocks n))"
  by (simp add: block_number_def numbered_last)

lemma numbered_snoc:
  assumes "numbered bs" and "length bs + 1 < 2 ^ 64" and "sb_number b = of_nat (length bs) + 1"
  shows "numbered (bs @ [b])"
  using assms by (auto simp: numbered_def nth_append less_Suc_eq)

lemma linked_snoc:
  assumes "linked cr bs"
  shows "linked cr (bs @ [sealed_block cr bs raw number ts fee root])"
  using assms by (auto simp: linked_def nth_append sealed_block_def less_Suc_eq)

lemma numbered_distinct: "numbered bs \<Longrightarrow> distinct (map sb_number bs)"
proof -
  assume num: "numbered bs"
  have "(of_nat (Suc i) :: u64) \<noteq> of_nat (Suc j)" if "i < length bs" "j < length bs" "i \<noteq> j" for i j
  proof -
    have "unat (of_nat (Suc i) :: u64) = Suc i" "unat (of_nat (Suc j) :: u64) = Suc j"
      using num that by (simp_all add: numbered_def unat_of_nat del: of_nat_Suc)
    with that show ?thesis by auto
  qed
  with num show ?thesis by (simp add: distinct_conv_nth numbered_def del: of_nat_Suc)
qed

lemma fresh_number:
  assumes "numbered bs" and "length bs + 1 < 2 ^ 64"
  shows "of_nat (length bs) + 1 \<notin> sb_number ` set bs"
proof
  assume "of_nat (length bs) + 1 \<in> sb_number ` set bs"
  then obtain b where "b \<in> set bs" "sb_number b = of_nat (length bs) + 1" by auto
  then obtain i where i: "i < length bs" "sb_number (bs ! i) = of_nat (length bs) + 1"
    by (auto simp: in_set_conv_nth)
  with assms(1) have "(of_nat (Suc i) :: u64) = of_nat (Suc (length bs))" by (simp add: numbered_def)
  then have "unat (of_nat (Suc i) :: u64) = unat (of_nat (Suc (length bs)) :: u64)" by simp
  with i(1) assms(2) show False by (simp add: unat_of_nat del: of_nat_Suc)
qed

lemma find_distinct:
  assumes "distinct (map f xs)" and "x \<in> set xs"
  shows "find (\<lambda>y. f y = f x) xs = Some x"
  using assms by (induction xs) (auto simp: image_iff)

lemma block_by_number_member:
  "ledger_ok cr n \<Longrightarrow> b \<in> set (n_blocks n) \<Longrightarrow> block_by_number n (sb_number b) = Some b"
  by (simp add: block_by_number_def ledger_ok_def numbered_distinct find_distinct)

section \<open>Sealing preserves the invariants\<close>

lemma sealed_fields [simp]:
  "sb_number (sealed_block cr bs raw number ts fee root) = number"
  "sb_hash (sealed_block cr bs raw number ts fee root) = block_hash cr (next_parent_hash cr bs) number ts"
  "sb_txs (sealed_block cr bs raw number ts fee root) = [raw]"
  "sb_timestamp (sealed_block cr bs raw number ts fee root) = ts"
  "sb_base_fee (sealed_block cr bs raw number ts fee root) = fee"
  "sb_state_root (sealed_block cr bs raw number ts fee root) = Some root"
  by (simp_all add: sealed_block_def)

lemma sealed_receipt_fields [simp]:
  "sr_tx_hash (sealed_receipt cr bs raw number ts p res) = keccak256 cr raw"
  "sr_block_number (sealed_receipt cr bs raw number ts p res) = number"
  "sr_block_hash (sealed_receipt cr bs raw number ts p res) = block_hash cr (next_parent_hash cr bs) number ts"
  by (simp_all add: sealed_receipt_def split: prod.splits)

lemma receipts_ok_snoc:
  assumes "receipts_ok cr bs rs"
  shows "receipts_ok cr (bs @ [sealed_block cr bs raw number ts fee root])
    (rs(keccak256 cr raw \<mapsto> sealed_receipt cr bs raw number ts p res))"
  using assms unfolding receipts_ok_def by (auto simp: Ball_def)

lemma push_sealed_fields [simp]:
  "n_blocks (push_sealed n b hash r) = n_blocks n @ [b]"
  "n_receipts (push_sealed n b hash r) = (n_receipts n)(hash \<mapsto> r)"
  "n_spec (push_sealed n b hash r) = n_spec n" "n_store (push_sealed n b hash r) = n_store n"
  "n_db (push_sealed n b hash r) = n_db n" "n_genesis_root (push_sealed n b hash r) = n_genesis_root n"
  "n_faucet_key (push_sealed n b hash r) = n_faucet_key n"
  "n_dag_sender (push_sealed n b hash r) = n_dag_sender n"
  by (simp_all add: push_sealed_def)

text \<open>A seal with the next number, successful or not.\<close>

lemma seal_ledger_ok:
  assumes "kv_ok (x_kv x)" and "ledger_ok (x_crypto x) n" and "length (n_blocks n) + 1 < 2 ^ 64"
    and "number = block_number n + 1"
    and "seal_raw_with_fee x n raw number ts fee = (r, n')"
  shows "ledger_ok (x_crypto x) n'"
proof (cases r)
  case (Inl e)
  from assms(5) [unfolded Inl] show ?thesis
    by (rule seal_failed [OF assms(1)]) (use assms(2) in \<open>simp add: ledger_ok_def\<close>)
next
  case (Inr hash)
  from assms(5) [unfolded Inr] show ?thesis
    by (rule seal_success)
      (use assms(2-4) in \<open>simp add: ledger_ok_def numbered_snoc linked_snoc receipts_ok_snoc
        block_number_numbered\<close>)
qed

lemma stored_cong:
  assumes "stored x n" and "same_chain_data (x_kv x) (n_store n) (n_store n')"
    and "n_blocks n' = n_blocks n" "n_receipts n' = n_receipts n" "n_spec n' = n_spec n"
  shows "stored x n'"
  using assms by (simp add: stored_def same_chain_data_def store_reads)

lemma height_synced_cong:
  assumes "height_synced x n" and "same_chain_data (x_kv x) (n_store n) (n_store n')"
    and "n_blocks n' = n_blocks n"
  shows "height_synced x n'"
  using assms by (simp add: height_synced_def same_chain_data_def store_reads)

text \<open>A successful seal, as the store sees it: chain data as before, then one save.\<close>

lemma seal_success_store:
  assumes "kv_ok (x_kv x)" and "seal_raw_with_fee x n raw number ts fee = (Inr hash, n')"
  obtains b r h1 where "same_chain_data (x_kv x) (n_store n) h1"
    "save_block (x_kv x) (x_codec x) h1 b [(hash, r)] = (Inr (), n_store n')"
    "n_blocks n' = n_blocks n @ [b]" "n_receipts n' = (n_receipts n)(hash \<mapsto> r)"
    "n_spec n' = n_spec n" "sb_number b = number"
  using assms(2)
proof (rule seal_success)
  fix p res db1 db2 root h1 h2
  let ?b = "sealed_block (x_crypto x) (n_blocks n) raw number ts fee root"
  let ?r = "sealed_receipt (x_crypto x) (n_blocks n) raw number ts p res"
  assume reb: "rebuild_smt (x_revm x) (x_kv x) (x_crypto x) (n\<lparr>n_db := db2\<rparr>)
      = (Inr root, n\<lparr>n_db := db2, n_store := h1\<rparr>)"
    and save: "save_block (x_kv x) (x_codec x) h1 ?b [(keccak256 (x_crypto x) raw, ?r)] = (Inr (), h2)"
    and n': "n' = push_sealed (n\<lparr>n_db := db2, n_store := h2\<rparr>) ?b (keccak256 (x_crypto x) raw) ?r"
    and hash: "hash = keccak256 (x_crypto x) raw"
  have "h1 = snd (smt_rebuild (x_kv x) (n_store n) (smt_entries (x_revm x) (x_crypto x) db2))"
    using rebuild_smt_node [of "x_revm x" "x_kv x" "x_crypto x" "n\<lparr>n_db := db2\<rparr>"] reb
    by (auto) (metis KanariNode.select_convs(5) KanariNode.surjective KanariNode.update_convs(5))
  then have "same_chain_data (x_kv x) (n_store n) h1" by (simp add: same_chain_data_rebuild [OF assms(1)])
  moreover have "sb_number ?b = number" by (rule sealed_fields(1))
  ultimately show thesis
    using save by (intro that [of h1 ?b ?r]) (simp_all only: n' hash push_sealed_fields, simp_all)
qed

lemma seal_stored:
  assumes ok: "kv_ok (x_kv x)" "codec_ok (x_codec x)" and "stored x n"
    and "number \<notin> sb_number ` set (n_blocks n)"
    and "seal_raw_with_fee x n raw number ts fee = (Inr hash, n')"
  shows "stored x n' \<and> height_synced x n'"
  using assms(5)
proof (rule seal_success_store [OF ok(1)])
  fix b r h1
  assume h1: "same_chain_data (x_kv x) (n_store n) h1"
    and save: "save_block (x_kv x) (x_codec x) h1 b [(hash, r)] = (Inr (), n_store n')"
    and n': "n_blocks n' = n_blocks n @ [b]" "n_receipts n' = (n_receipts n)(hash \<mapsto> r)"
      "n_spec n' = n_spec n" "sb_number b = number"
  have "stored x (n\<lparr>n_store := h1\<rparr>)" by (rule stored_cong [OF assms(3)]) (simp_all add: h1)
  then show ?thesis
    using assms(4)
    by (rule_tac save_block_ok [OF ok(1) save])
      (auto simp: n' stored_def height_synced_def store_reads keys_neq block_key_inject receipt_key_inject
        codec_block [OF ok(2)] codec_receipt [OF ok(2)] image_iff split: if_splits)
qed

lemma seal_mirrored:
  assumes ok: "kv_ok (x_kv x)" "codec_ok (x_codec x)" and "mirrored x n"
    and "number \<notin> sb_number ` set (n_blocks n)"
    and "seal_raw_with_fee x n raw number ts fee = (r, n')"
  shows "mirrored x n'"
proof (cases r)
  case (Inl e)
  from assms(5) [unfolded Inl] show ?thesis
  proof (rule seal_failed [OF ok(1)])
    fix db h
    assume n': "n' = n\<lparr>n_db := db, n_store := h\<rparr>" and "same_chain_data (x_kv x) (n_store n) h"
    then show ?thesis
      using assms(3) stored_cong [of x n n'] height_synced_cong [of x n n'] by (simp add: mirrored_def)
  qed
next
  case (Inr hash)
  with seal_stored [OF ok _ assms(4)] assms(3,5) show ?thesis by (simp add: mirrored_def)
qed

section \<open>Replay\<close>

lemma bind_node_assoc:
  "bind_node (bind_node r f) g = bind_node r (\<lambda>z n. bind_node (f z n) g)"
  by (auto simp: bind_node_def split: prod.splits sum.splits)

lemma replay_blocks_append:
  "replay_blocks x (bs @ cs) n = bind_node (replay_blocks x bs n) (\<lambda>_ n'. replay_blocks x cs n')"
proof (induction bs arbitrary: n)
  case (Cons b bs)
  then have "replay_blocks x (bs @ cs) = (\<lambda>n. bind_node (replay_blocks x bs n) (\<lambda>_ n'. replay_blocks x cs n'))"
    by (intro ext)
  then show ?case by (simp add: bind_node_assoc)
qed simp

text \<open>Replaying a block just sealed elsewhere from the same state.\<close>

lemma replay_sealed_block:
  assumes "same_env x y" "working_disk x root_of" "working_disk y root_of" "same_replica x True n m"
    and "seal_raw_with_fee x n raw number ts fee = (Inr hash, n')"
  obtains m' b where "replay_blocks y [b] m = (Inr (), m')" "same_replica x True n' m'"
    "n_blocks n' = n_blocks n @ [b]" "sb_txs b = [raw]" "sb_number b = number"
proof -
  obtain r m' where m: "seal_raw_with_fee y m raw number ts fee = (r, m')"
    by (cases "seal_raw_with_fee y m raw number ts fee")
  from seal_with_fee_replica [OF assms(1-4), of raw number ts fee] assms(5) m
  have r: "r = Inr hash" and rep: "same_replica x True n' m'" by simp_all
  from assms(5) obtain b where b: "n_blocks n' = n_blocks n @ [b]" "sb_txs b = [raw]"
      "sb_number b = number" "sb_timestamp b = ts" "sb_base_fee b = fee"
    by (rule seal_success) auto
  have "last (n_blocks m') = b" using same_replica_blocks [OF rep] b(1) by (metis last_snoc)
  with m r b have "replay_blocks y [b] m = (Inr (), m')" by simp
  then show thesis by (rule that [OF _ rep b(1-3)])
qed

text \<open>A rejected payload leaves a node that the program cannot tell from the one before.\<close>

lemma pay_db_ok: "db_ok rv \<Longrightarrow> \<exists>db'. pay_db rv db gas fee = (Inr (), db')"
  by (auto simp: pay_db_def db_ok_def Let_def split: prod.splits sum.splits) (metis fst_conv sum.distinct(1))

lemma seal_db_failed:
  assumes "db_ok (x_revm x)" "rejects_cleanly (x_revm x) (x_crypto x)"
    and "seal_db x spec db raw number ts fee = (Inl e, db')"
  shows "db_sim (x_revm x) (x_crypto x) True db' db"
proof (cases "prepared_decode (x_crypto x) raw (cs_chain_id spec)")
  case (Inr p)
  obtain r db1 where t: "transact_raw (x_revm x) (x_pqc x) db spec p number ts fee = (r, db1)"
    by (cases "transact_raw (x_revm x) (x_pqc x) db spec p number ts fee")
  have r: "\<exists>e. r = Inl e"
    using assms(3) Inr t pay_db_ok [OF assms(1), of db1 "tx_gas_used (projr r)" fee] by (cases r) (auto simp: seal_db_def)
  with assms(3) Inr t have "db' = db1" by (auto simp: seal_db_def)
  with r t assms(2) show ?thesis by (auto simp: transact_raw_def rejects_cleanly_def split: prod.splits sum.splits)
qed (use assms(3) in \<open>simp add: seal_db_def\<close>)

lemma seal_failed_replica:
  assumes "db_ok (x_revm x)" "rejects_cleanly (x_revm x) (x_crypto x)" "working_disk x root_of"
    and "seal_raw_with_fee x n raw number ts fee = (Inl e, n')"
  obtains db where "n' = n\<lparr>n_db := db\<rparr>" "db_sim (x_revm x) (x_crypto x) True db (n_db n)"
proof -
  have disk: "kv_reliable (x_kv x) root_of" "codec_ok (x_codec x)"
    using assms(3) by (simp_all add: working_disk_def)
  obtain r db where s: "seal_db x (n_spec n) (n_db n) raw number ts fee = (r, db)"
    by (cases "seal_db x (n_spec n) (n_db n) raw number ts fee")
  with seal_reliable [OF disk, of n raw number ts fee] assms(4)
  have r: "r = Inl e" "n' = n\<lparr>n_db := db\<rparr>" by (auto split: sum.splits)
  from seal_db_failed [OF assms(1,2) s [unfolded r(1)]] r(2) show thesis by (intro that [of db])
qed

lemma same_replica_db: "db_sim (x_revm x) (x_crypto x) roots db (n_db n) \<Longrightarrow> same_replica x roots (n\<lparr>n_db := db\<rparr>) n"
  by (simp add: same_replica_def)

lemma seal_failed_same:
  assumes "db_ok (x_revm x)" "rejects_cleanly (x_revm x) (x_crypto x)" "working_disk x root_of"
    and "seal_committed x n raw ts = (Inl e, n')"
  shows "same_replica x True n' n"
  using assms(4) unfolding seal_committed_def seal_raw_def
  by (rule seal_failed_replica [OF assms(1-3)]) (simp add: same_replica_db)

text \<open>Replay keeps up with a node that seals, whether the payload is accepted or rejected.\<close>

definition replays_to :: "('db, 'st, 'h) Ext \<Rightarrow> ('db, 'h) KanariNode \<Rightarrow> ('db, 'h) KanariNode \<Rightarrow> bool" where
  "replays_to x m0 n \<longleftrightarrow> (\<exists>m. replay_blocks x (n_blocks n) m0 = (Inr (), m) \<and> same_replica x True n m)"

lemma replays_to_same:
  assumes "replays_to x m0 n" "same_replica x True n' n"
  shows "replays_to x m0 n'"
proof -
  have "same_env x x" by (simp add: same_env_def)
  with assms same_replica_blocks [OF assms(2)] show ?thesis
    unfolding replays_to_def by (auto intro: same_replica_trans)
qed

lemma replays_to_seal:
  assumes "working_disk x root_of" "db_ok (x_revm x)" "rejects_cleanly (x_revm x) (x_crypto x)"
    and "replays_to x m0 n" "seal_committed x n raw ts = (r, n')"
  shows "replays_to x m0 n'"
proof (cases r)
  case (Inl e)
  from seal_failed_same [OF assms(2,3,1) assms(5) [unfolded Inl]] show ?thesis
    by (rule replays_to_same [OF assms(4)])
next
  case (Inr hash)
  have env: "same_env x x" by (simp add: same_env_def)
  from assms(4) obtain m where m: "replay_blocks x (n_blocks n) m0 = (Inr (), m)" "same_replica x True n m"
    by (auto simp: replays_to_def)
  from replay_sealed_block [OF env assms(1,1) m(2) assms(5) [unfolded Inr seal_committed_def seal_raw_def]] obtain m' b
    where "replay_blocks x [b] m = (Inr (), m')" "same_replica x True n' m'" "n_blocks n' = n_blocks n @ [b]" .
  with m(1) show ?thesis by (simp add: replays_to_def replay_blocks_append del: replay_blocks.simps)
qed

text \<open>Replay rewrites what it reads: afterwards the store holds the replayed chain.\<close>

lemma numbered_prefix: "numbered (bs @ cs) \<Longrightarrow> numbered bs"
  unfolding numbered_def by (simp add: nth_append) (metis trans_less_add1)

lemma numbered_cong:
  assumes "map sb_number bs = map sb_number cs"
  shows "numbered bs = numbered cs"
proof -
  have "length bs = length cs" using assms by (rule map_eq_imp_length_eq)
  moreover have "sb_number (bs ! i) = sb_number (cs ! i)" if "i < length bs" for i
    using assms that \<open>length bs = length cs\<close> by (metis nth_map)
  ultimately show ?thesis by (simp add: numbered_def)
qed

lemma replay_stored:
  assumes ok: "kv_ok (x_kv x)" "codec_ok (x_codec x)"
    and "stored x n" "numbered (n_blocks n @ bs)" "\<And>b. b \<in> set bs \<Longrightarrow> length (sb_txs b) = 1"
    and "replay_blocks x bs n = (Inr (), n')"
  shows "stored x n' \<and> n_spec n' = n_spec n \<and> (bs \<noteq> [] \<or> height_synced x n \<longrightarrow> height_synced x n')"
  using assms(3-)
proof (induction bs arbitrary: n)
  case Nil
  then show ?case by simp
next
  case (Cons b bs)
  from Cons.prems(3) obtain raw where raw: "sb_txs b = [raw]" by (force simp: length_Suc_conv)
  with Cons.prems(4) obtain hash n1 where
      s: "seal_raw_with_fee x n raw (sb_number b) (sb_timestamp b) (sb_base_fee b) = (Inr hash, n1)"
      and rest: "replay_blocks x bs n1 = (Inr (), n')"
    by (auto simp: bind_node_Inr_iff Let_def split: if_splits)
  have "distinct (map sb_number (n_blocks n @ b # bs))"
    using Cons.prems(2) by (rule numbered_distinct)
  then have "sb_number b \<notin> sb_number ` set (n_blocks n)" by auto
  from seal_stored [OF ok Cons.prems(1) this s] have st: "stored x n1" "height_synced x n1" by auto
  from s obtain b' where b': "n_blocks n1 = n_blocks n @ [b']" "sb_number b' = sb_number b" "n_spec n1 = n_spec n"
    by (rule seal_success_store [OF ok(1)]) auto
  have "numbered (n_blocks n1 @ bs)"
    using Cons.prems(2) numbered_cong [of "n_blocks n @ b # bs" "n_blocks n1 @ bs"] by (simp add: b')
  from Cons.IH [OF st(1) this _ rest] Cons.prems(3) st(2) b'(3) show ?case by simp
qed

section \<open>Lookups and the hash chain\<close>

text \<open>The bytes a block's hash is taken of.\<close>

definition hash_input :: "SealedBlock \<Rightarrow> bytes" where
  "hash_input b = to_be_bytes 32 (sb_parent_hash b) @ to_be_bytes 8 (sb_number b) @ to_be_bytes 8 (sb_timestamp b)"

lemma hash_input_inject:
  "hash_input b = hash_input c \<longleftrightarrow>
     sb_parent_hash b = sb_parent_hash c \<and> sb_number b = sb_number c \<and> sb_timestamp b = sb_timestamp c"
  by (simp add: hash_input_def u256_be.enc_append_inject u64_be.enc_append_inject u64_be.enc_inject)

lemma linked_hash:
  assumes "linked cr bs" "i < length bs"
  shows "sb_hash (bs ! i) = keccak256 cr (hash_input (bs ! i))" "sb_parent_hash (bs ! i) = next_parent_hash cr (take i bs)"
  using assms by (simp_all add: linked_def block_hash_def hash_input_def)

text \<open>Going back from equal hashes at one height, blocks agree as long as their hashed bytes do.\<close>

lemma head_determines_history:
  assumes "linked cr bs" "linked cr cs" "length bs = length cs"
    and "next_parent_hash cr bs = next_parent_hash cr cs"
    and "\<And>i. i < length bs \<Longrightarrow> keccak256 cr (hash_input (bs ! i)) = keccak256 cr (hash_input (cs ! i)) \<Longrightarrow>
      hash_input (bs ! i) = hash_input (cs ! i)"
  shows "i < length bs \<Longrightarrow> sb_hash (bs ! i) = sb_hash (cs ! i) \<and> hash_input (bs ! i) = hash_input (cs ! i)"
proof (induction "length bs - i" arbitrary: i rule: less_induct)
  case less
  have "sb_hash (bs ! i) = sb_hash (cs ! i)"
  proof (cases "Suc i = length bs")
    case True
    then have "bs \<noteq> []" "cs \<noteq> []" "length bs - 1 = i" "length cs - 1 = i" using assms(3) by auto
    then have "bs \<noteq> []" "cs \<noteq> []" "bs ! i = last bs" "cs ! i = last cs" by (simp_all add: last_conv_nth)
    with assms(4) show ?thesis by (simp add: next_parent_hash_def)
  next
    case False
    with less.prems have i: "Suc i < length bs" by simp
    with less.hyps [of "Suc i"] have "sb_parent_hash (bs ! Suc i) = sb_parent_hash (cs ! Suc i)"
      by (simp add: hash_input_inject)
    then have "next_parent_hash cr (take (Suc i) bs) = next_parent_hash cr (take (Suc i) cs)"
      using linked_hash(2) [OF assms(1) i] linked_hash(2) [OF assms(2), of "Suc i"] i assms(3) by simp
    with less.prems assms(3) show ?thesis by (simp add: next_parent_hash_def take_Suc_conv_app_nth)
  qed
  with less.prems linked_hash(1) [OF assms(1) less.prems] linked_hash(1) [OF assms(2), of i] assms(3,5) show ?case by simp
qed

lemma seal_committed_receipt:
  assumes "kv_ok (x_kv x)" and "seal_committed x n raw ts = (Inr hash, n')"
  shows "\<exists>r. n_receipts n' hash = Some r"
  using assms(2) unfolding seal_committed_def seal_raw_def
  by (rule seal_success_store [OF assms(1)]) simp

lemma receipt_block:
  "receipts_ok cr bs rs \<Longrightarrow> rs h = Some r \<Longrightarrow>
     \<exists>b\<in>set bs. sb_number b = sr_block_number r \<and> sb_hash b = sr_block_hash r
       \<and> map (keccak256 cr) (sb_txs b) = [h]"
  by (simp add: receipts_ok_def)

lemma mem_seal_ledger:
  assumes "seal_committed mem_ext mem_node [1] 100 = (Inr 1, n')"
  shows "ledger_ok mem_crypto n'"
proof -
  have "kv_ok (x_kv mem_ext)" by (simp add: mem_kv_ok)
  moreover have "ledger_ok (x_crypto mem_ext) mem_node" by (simp add: ledger_ok_def receipts_ok_def)
  moreover have "length (n_blocks mem_node) + 1 < 2 ^ 64" by simp
  ultimately have "ledger_ok (x_crypto mem_ext) n'"
    using refl assms [unfolded seal_committed_def seal_raw_def] by (rule seal_ledger_ok)
  then show ?thesis by simp
qed

text \<open>In a consistent ledger a receipt leads to the bytes of its transaction.\<close>

lemma receipt_traced:
  assumes "ledger_ok cr n" and "n_receipts n hash = Some r"
  shows "\<exists>raw b. tx_record cr n hash = Some (sr_from r, raw) \<and> keccak256 cr raw = hash
    \<and> block_by_number n (sr_block_number r) = Some b \<and> sb_hash b = sr_block_hash r \<and> sb_txs b = [raw]"
proof -
  from assms(1) have "receipts_ok cr (n_blocks n) (n_receipts n)" by (simp add: ledger_ok_def)
  from receipt_block [OF this assms(2)] obtain b where b: "b \<in> set (n_blocks n)"
      "sb_number b = sr_block_number r" "sb_hash b = sr_block_hash r"
      "map (keccak256 cr) (sb_txs b) = [hash]" by (elim bexE conjE)
  then obtain raw where raw: "sb_txs b = [raw]" "keccak256 cr raw = hash" by auto
  have "block_by_number n (sr_block_number r) = Some b"
    using block_by_number_member [OF assms(1) b(1)] b(2) by simp
  with assms(2) raw b(3) show ?thesis by (simp add: tx_record_def)
qed

section \<open>Properties\<close>

text \<open>
  C33. The head hash commits to the chain's shape: two linked chains of the same length with the same head hash have
  the same block numbers, timestamps, parent hashes and hashes throughout, or at some height the two chains themselves
  exhibit a Keccak collision: the bytes hashed for their two blocks there differ and have the same hash. (The hash does
  not cover transactions or state roots.)
\<close>

theorem head_hash_commits_history:
  assumes "linked cr bs" "linked cr cs" "length bs = length cs"
    and "next_parent_hash cr bs = next_parent_hash cr cs"
  shows "map (\<lambda>b. (sb_number b, sb_timestamp b, sb_parent_hash b, sb_hash b)) bs
        = map (\<lambda>b. (sb_number b, sb_timestamp b, sb_parent_hash b, sb_hash b)) cs
    \<or> (\<exists>i < length bs. hash_input (bs ! i) \<noteq> hash_input (cs ! i)
        \<and> keccak256 cr (hash_input (bs ! i)) = keccak256 cr (hash_input (cs ! i)))"
proof (rule disjCI)
  assume "\<not> (\<exists>i < length bs. hash_input (bs ! i) \<noteq> hash_input (cs ! i)
        \<and> keccak256 cr (hash_input (bs ! i)) = keccak256 cr (hash_input (cs ! i)))"
  then have "\<And>i. i < length bs \<Longrightarrow> keccak256 cr (hash_input (bs ! i)) = keccak256 cr (hash_input (cs ! i)) \<Longrightarrow>
      hash_input (bs ! i) = hash_input (cs ! i)" by blast
  from head_determines_history [OF assms this]
  have "i < length bs \<Longrightarrow> sb_hash (bs ! i) = sb_hash (cs ! i) \<and> hash_input (bs ! i) = hash_input (cs ! i)" for i .
  then show "map (\<lambda>b. (sb_number b, sb_timestamp b, sb_parent_hash b, sb_hash b)) bs
        = map (\<lambda>b. (sb_number b, sb_timestamp b, sb_parent_hash b, sb_hash b)) cs"
    by (intro nth_equalityI) (simp_all add: assms(3) hash_input_inject)
qed

theorem head_hash_commits_history_witness:
  "linked mem_crypto [sealed_block mem_crypto [] [1] 1 100 7 5]
   \<and> linked mem_crypto [sealed_block mem_crypto [] [2] 1 100 9 6]
   \<and> map (\<lambda>b. (sb_number b, sb_timestamp b, sb_parent_hash b, sb_hash b)) [sealed_block mem_crypto [] [1] 1 100 7 5]
       = map (\<lambda>b. (sb_number b, sb_timestamp b, sb_parent_hash b, sb_hash b)) [sealed_block mem_crypto [] [2] 1 100 9 6]"
proof -
  have l: "linked mem_crypto [sealed_block mem_crypto [] raw 1 100 f s]" for raw f s
    using linked_snoc [of mem_crypto "[]"] by simp
  have "hash_input (sealed_block mem_crypto [] [1] 1 100 7 5) = hash_input (sealed_block mem_crypto [] [2] 1 100 9 6)"
    by (simp add: hash_input_def sealed_block_def)
  with head_hash_commits_history [OF l l, of "[1]" 7 5 "[2]" 9 6] l show ?thesis
    by (simp add: next_parent_hash_def)
qed

end
