(* ===== verification/Views.thy ===== *)
theory Views
  imports Ledger
begin

text \<open>
  JSON views of sealed data (\<^verbatim>\<open>crates/move-execution/src/views.rs\<close>): transactions, receipts, logs and
  blocks in the shapes the RPC returns. A JSON object is the list of its members in the order the source
  writes them; addresses and hashes are rendered by \<open>alloy\<close>, whose text operations are an argument.
\<close>

section \<open>JSON and text\<close>

datatype Json = JNull | JBool bool | JInt int | JRatio nat nat | JStr string | JArr "Json list"
  | JObj "(string \<times> Json) list"

definition jget :: "(string \<times> Json) list \<Rightarrow> string \<Rightarrow> Json option" where
  "jget obj key = map_of obj key"

text \<open>Display and \<open>FromStr\<close> of addresses, hashes and byte strings, and \<open>U256::from_str_radix(_, 16)\<close>.\<close>

record TextOps =
  to_address :: "Address \<Rightarrow> string"
  to_hash :: "B256 \<Rightarrow> string"
  of_address :: "string \<Rightarrow> Address option"
  of_hash :: "string \<Rightarrow> B256 option"
  of_bytes :: "string \<Rightarrow> bytes option"
  of_u256 :: "string \<Rightarrow> U256 option"

text \<open>Parsing inverts the rendering of hashes, addresses and byte strings.\<close>

definition text_ok :: "TextOps \<Rightarrow> bool" where
  "text_ok tx \<longleftrightarrow> (\<forall>h. of_hash tx (to_hash tx h) = Some h) \<and> (\<forall>a. of_address tx (to_address tx a) = Some a)
     \<and> (\<forall>bs. of_bytes tx (hex_prefixed bs) = Some bs)"

text \<open>A concrete text codec, lowercase fixed-width hex.\<close>

definition fixed_bytes :: "nat \<Rightarrow> string \<Rightarrow> bytes option" where
  "fixed_bytes k s = (case hex_decode s of Inl _ \<Rightarrow> None | Inr bs \<Rightarrow> if length bs = k then Some bs else None)"

definition mem_text :: TextOps where
  "mem_text = \<lparr>to_address = (\<lambda>a. hex_prefixed (to_be_bytes 20 a)), to_hash = (\<lambda>h. hex_prefixed (to_be_bytes 32 h)),
     of_address = (\<lambda>s. map_option from_be_bytes (fixed_bytes 20 s)),
     of_hash = (\<lambda>s. map_option from_be_bytes (fixed_bytes 32 s)),
     of_bytes = (\<lambda>s. case hex_decode s of Inl _ \<Rightarrow> None | Inr bs \<Rightarrow> Some bs),
     of_u256 = (\<lambda>s. map_option of_nat (from_str_radix16 (2 ^ 256 - 1) s))\<rparr>"

lemma mem_text_ok: "text_ok mem_text"
  by (simp add: text_ok_def mem_text_def fixed_bytes_def hex_decode_encode_aux u256_be.enc_width
      address_be.enc_width u256_be.dec_enc address_be.dec_enc)

fun opt_str :: "string option \<Rightarrow> Json" where
  "opt_str None = JNull"
| "opt_str (Some s) = JStr s"

section \<open>Decoded transactions\<close>

record TxView =
  tv_nonce :: u64
  tv_gas_limit :: u64
  tv_effective_gas_price :: U256
  tv_to :: "Address option"
  tv_value :: U256
  tv_input :: bytes
  tv_tx_type :: u8
  tv_chain_id :: u64

fun kind_to :: "TxKind \<Rightarrow> Address option" where
  "kind_to (Call addr) = Some addr"
| "kind_to Create = None"

fun envelope_view :: "TxEnvelope \<Rightarrow> u128 \<Rightarrow> TxView option" where
  "envelope_view (Legacy tx _) base_fee_wei =
     (case tl_chain_id tx of None \<Rightarrow> None | Some cid \<Rightarrow>
      Some \<lparr>tv_nonce = tl_nonce tx, tv_gas_limit = tl_gas_limit tx,
            tv_effective_gas_price = ucast (tl_gas_price tx), tv_to = kind_to (tl_to tx),
            tv_value = tl_value tx, tv_input = tl_input tx, tv_tx_type = 0, tv_chain_id = cid\<rparr>)"
| "envelope_view (Eip2930 tx _) base_fee_wei =
     Some \<lparr>tv_nonce = t1_nonce tx, tv_gas_limit = t1_gas_limit tx,
           tv_effective_gas_price = ucast (t1_gas_price tx), tv_to = kind_to (t1_to tx),
           tv_value = t1_value tx, tv_input = t1_input tx, tv_tx_type = 1, tv_chain_id = t1_chain_id tx\<rparr>"
| "envelope_view (Eip1559 tx _) base_fee_wei =
     Some \<lparr>tv_nonce = t2_nonce tx, tv_gas_limit = t2_gas_limit tx,
           tv_effective_gas_price = ucast (effective_gas_price (t2_max_fee_per_gas tx) base_fee_wei
             (t2_max_priority_fee_per_gas tx)),
           tv_to = kind_to (t2_to tx), tv_value = t2_value tx, tv_input = t2_input tx, tv_tx_type = 2,
           tv_chain_id = t2_chain_id tx\<rparr>"
| "envelope_view (Eip7702 tx _) base_fee_wei =
     Some \<lparr>tv_nonce = t4_nonce tx, tv_gas_limit = t4_gas_limit tx,
           tv_effective_gas_price = ucast (effective_gas_price (t4_max_fee_per_gas tx) base_fee_wei
             (t4_max_priority_fee_per_gas tx)),
           tv_to = Some (t4_to tx), tv_value = t4_value tx, tv_input = t4_input tx, tv_tx_type = 4,
           tv_chain_id = t4_chain_id tx\<rparr>"
| "envelope_view (Eip4844 _) base_fee_wei = None"

definition decode_tx_view :: "Crypto \<Rightarrow> bytes \<Rightarrow> u128 \<Rightarrow> TxView option" where
  "decode_tx_view cr raw base_fee_wei =
     (case decode_2718 cr raw of Inl _ \<Rightarrow> None | Inr envelope \<Rightarrow> envelope_view envelope base_fee_wei)"

text \<open>The base fee a view prices with.\<close>

definition view_base_fee :: "('db, 'h) KanariNode \<Rightarrow> u64 \<Rightarrow> u128" where
  "view_base_fee n number =
     (case block_by_number n number of Some b \<Rightarrow> ucast (sb_base_fee b) | None \<Rightarrow> cs_base_fee_wei (n_spec n))"

definition tx_view :: "Crypto \<Rightarrow> TextOps \<Rightarrow> ('db, 'h) KanariNode \<Rightarrow> B256 \<Rightarrow> Json option" where
  "tx_view cr tx n hash =
     (case n_receipts n hash of None \<Rightarrow> None | Some r \<Rightarrow>
      (case tx_record cr n hash of None \<Rightarrow> None | Some (sender, raw) \<Rightarrow>
       (case decode_tx_view cr raw (view_base_fee n (sr_block_number r)) of None \<Rightarrow> None | Some view \<Rightarrow>
        Some (JObj
          [(''hash'', JStr (to_hash tx hash)),
           (''nonce'', JStr (quantity_u64 (tv_nonce view))),
           (''blockHash'', JStr (to_hash tx (sr_block_hash r))),
           (''blockNumber'', JStr (quantity_u64 (sr_block_number r))),
           (''transactionIndex'', JStr ''0x0''),
           (''from'', JStr (to_address tx sender)),
           (''to'', opt_str (map_option (to_address tx) (tv_to view))),
           (''value'', JStr (quantity_u256 (tv_value view))),
           (''gasPrice'', JStr (quantity_u256 (tv_effective_gas_price view))),
           (''gas'', JStr (quantity_u64 (tv_gas_limit view))),
           (''input'', JStr (hex_prefixed (tv_input view))),
           (''type'', JStr (quantity_u64 (ucast (tv_tx_type view)))),
           (''chainId'', JStr (quantity_u64 (tv_chain_id view)))]))))"

section \<open>Logs\<close>

record SealedLog =
  lo_block_number :: u64
  lo_block_hash :: B256
  lo_tx_hash :: B256
  lo_log_index :: u64
  lo_address :: Address
  lo_topics :: "B256 list"
  lo_data :: bytes

definition render_sealed_log :: "TextOps \<Rightarrow> SealedLog \<Rightarrow> Json" where
  "render_sealed_log tx log =
     JObj [(''removed'', JBool False),
           (''logIndex'', JStr (quantity_u64 (lo_log_index log))),
           (''transactionIndex'', JStr ''0x0''),
           (''transactionHash'', JStr (to_hash tx (lo_tx_hash log))),
           (''blockNumber'', JStr (quantity_u64 (lo_block_number log))),
           (''blockHash'', JStr (to_hash tx (lo_block_hash log))),
           (''address'', JStr (to_address tx (lo_address log))),
           (''data'', JStr (hex_prefixed (lo_data log))),
           (''topics'', JArr (map (JStr \<circ> to_hash tx) (lo_topics log)))]"

definition number_logs :: "u64 \<Rightarrow> B256 \<Rightarrow> B256 \<Rightarrow> StoredLog list \<Rightarrow> SealedLog list" where
  "number_logs number bhash hash logs =
     map (\<lambda>(i, log). \<lparr>lo_block_number = number, lo_block_hash = bhash, lo_tx_hash = hash,
                        lo_log_index = of_nat i, lo_address = sl_address log, lo_topics = sl_topics log,
                        lo_data = sl_data log\<rparr>) (enumerate 0 logs)"

text \<open>The logs of one block, transaction by transaction.\<close>

definition block_logs :: "Crypto \<Rightarrow> ('db, 'h) KanariNode \<Rightarrow> SealedBlock \<Rightarrow> SealedLog list" where
  "block_logs cr n block =
     concat (map (\<lambda>raw. case n_receipts n (keccak256 cr raw) of
                          None \<Rightarrow> []
                        | Some r \<Rightarrow> number_logs (sb_number block) (sb_hash block) (keccak256 cr raw) (sr_logs r))
               (sb_txs block))"

text \<open>\<open>for number in from..=to\<close>.\<close>

definition number_range :: "u64 \<Rightarrow> u64 \<Rightarrow> u64 list" where
  "number_range from to = map of_nat [unat from..<Suc (unat to)]"

definition logs_in_range :: "Crypto \<Rightarrow> ('db, 'h) KanariNode \<Rightarrow> u64 \<Rightarrow> u64 \<Rightarrow> SealedLog list" where
  "logs_in_range cr n from to =
     concat (map (\<lambda>number. case block_by_number n number of None \<Rightarrow> [] | Some block \<Rightarrow> block_logs cr n block)
               (number_range from to))"

section \<open>Receipts\<close>

definition zero_bloom :: string where "zero_bloom = ''0x'' @ concat (replicate 256 ''00'')"

definition receipt_view :: "Crypto \<Rightarrow> TextOps \<Rightarrow> ('db, 'h) KanariNode \<Rightarrow> B256 \<Rightarrow> Json option" where
  "receipt_view cr tx n hash =
     (case n_receipts n hash of None \<Rightarrow> None | Some r \<Rightarrow>
      (let base_fee = view_base_fee n (sr_block_number r);
           (tx_type, effective) =
             (case tx_record cr n hash of
                None \<Rightarrow> (2, ucast base_fee)
              | Some (_, raw) \<Rightarrow>
                  (case decode_tx_view cr raw base_fee of
                     None \<Rightarrow> (2, ucast base_fee)
                   | Some v \<Rightarrow> (ucast (tv_tx_type v), tv_effective_gas_price v)))
       in Some (JObj
          [(''transactionHash'', JStr (to_hash tx (sr_tx_hash r))),
           (''transactionIndex'', JStr ''0x0''),
           (''blockNumber'', JStr (quantity_u64 (sr_block_number r))),
           (''blockHash'', JStr (to_hash tx (sr_block_hash r))),
           (''from'', JStr (to_address tx (sr_from r))),
           (''to'', opt_str (map_option (to_address tx) (sr_to r))),
           (''contractAddress'', opt_str (map_option (to_address tx) (sr_contract_address r))),
           (''cumulativeGasUsed'', JStr (quantity_u64 (sr_gas_used r))),
           (''gasUsed'', JStr (quantity_u64 (sr_gas_used r))),
           (''effectiveGasPrice'', JStr (quantity_u256 effective)),
           (''status'', JStr (if sr_success r then ''0x1'' else ''0x0'')),
           (''type'', JStr (quantity_u64 tx_type)),
           (''logs'', JArr (map (render_sealed_log tx)
              (number_logs (sr_block_number r) (sr_block_hash r) (sr_tx_hash r) (sr_logs r)))),
           (''logsBloom'', JStr zero_bloom)])))"

section \<open>Blocks\<close>

definition uncles_hash :: string where
  "uncles_hash = ''0x1dcc4de8dec75d7aab85b567b6ccd41ad312451b948a741f0a22ef665e9a5c''"
definition empty_trie_root :: string where
  "empty_trie_root = ''0x56e81f171bcc55a6ff8345e692c0f86e5b48e01b996cadc001622fb5e363b421''"

text \<open>The members shared by sealed and synthetic blocks, in order.\<close>

definition block_members ::
  "TextOps \<Rightarrow> u64 \<Rightarrow> B256 \<Rightarrow> B256 \<Rightarrow> B256 \<Rightarrow> Json \<Rightarrow> u64 \<Rightarrow> U256 \<Rightarrow> Json list \<Rightarrow> Json" where
  "block_members tx number hash parent_hash root gas_used timestamp base_fee txs =
     JObj [(''number'', JStr (quantity_u64 number)),
           (''hash'', JStr (to_hash tx hash)),
           (''parentHash'', JStr (to_hash tx parent_hash)),
           (''nonce'', JStr ''0x0000000000000000''),
           (''sha3Uncles'', JStr uncles_hash),
           (''logsBloom'', JStr zero_bloom),
           (''transactionsRoot'', JStr empty_trie_root),
           (''stateRoot'', JStr (to_hash tx root)),
           (''receiptsRoot'', JStr empty_trie_root),
           (''miner'', JStr (to_address tx BLOCK_BENEFICIARY)),
           (''difficulty'', JStr ''0x0''),
           (''totalDifficulty'', JStr ''0x0''),
           (''gasLimit'', JStr (quantity_u64 BLOCK_GAS_LIMIT)),
           (''gasUsed'', gas_used),
           (''timestamp'', JStr (quantity_u64 timestamp)),
           (''extraData'', JStr ''0x''),
           (''mixHash'', JStr (to_hash tx 0)),
           (''baseFeePerGas'', JStr (quantity_u256 base_fee)),
           (''transactions'', JArr txs),
           (''uncles'', JArr [])]"

definition empty_block_view ::
  "TextOps \<Rightarrow> u64 \<Rightarrow> B256 \<Rightarrow> B256 \<Rightarrow> u64 \<Rightarrow> B256 \<Rightarrow> u128 \<Rightarrow> Json" where
  "empty_block_view tx number hash parent_hash timestamp root base_fee_wei =
     block_members tx number hash parent_hash root (JStr ''0x0'') timestamp (ucast base_fee_wei) []"

definition block_view :: "Crypto \<Rightarrow> TextOps \<Rightarrow> ('db, 'h) KanariNode \<Rightarrow> u64 \<Rightarrow> bool \<Rightarrow> Json option" where
  "block_view cr tx n number full_txs =
     (if number = 0 \<and> block_by_number n 0 = None
      then Some (empty_block_view tx 0 (genesis_hash cr) 0 0 (n_genesis_root n) (cs_base_fee_wei (n_spec n)))
      else case block_by_number n number of None \<Rightarrow> None | Some block \<Rightarrow>
      (let txs = (if full_txs
                  then map (\<lambda>raw. case tx_view cr tx n (keccak256 cr raw) of Some v \<Rightarrow> v | None \<Rightarrow> JNull) (sb_txs block)
                  else map (\<lambda>raw. JStr (to_hash tx (keccak256 cr raw))) (sb_txs block));
           gas_used = sum_list (map (\<lambda>raw. case n_receipts n (keccak256 cr raw) of
                                              Some r \<Rightarrow> sr_gas_used r | None \<Rightarrow> 0) (sb_txs block))
       in Some (block_members tx (sb_number block) (sb_hash block) (sb_parent_hash block)
                 (case sb_state_root block of Some root \<Rightarrow> root | None \<Rightarrow> 0)
                 (JStr (quantity_u64 gas_used)) (sb_timestamp block) (ucast (sb_base_fee block)) txs)))"

definition block_view_by_hash :: "Crypto \<Rightarrow> TextOps \<Rightarrow> ('db, 'h) KanariNode \<Rightarrow> B256 \<Rightarrow> bool \<Rightarrow> Json option" where
  "block_view_by_hash cr tx n hash full_txs =
     (if hash = genesis_hash cr \<and> block_by_number n 0 = None
      then Some (empty_block_view tx 0 (genesis_hash cr) 0 0 (n_genesis_root n) (cs_base_fee_wei (n_spec n)))
      else case block_by_hash n hash of None \<Rightarrow> None
           | Some b \<Rightarrow> block_view cr tx n (sb_number b) full_txs)"

section \<open>Lemmas\<close>

lemma number_range_unat: "map unat (number_range lo hi) = [unat lo..<Suc (unat hi)]"
proof -
  have "unat (of_nat k :: u64) = k" if "k < Suc (unat hi)" for k
    using that unsigned_less [of hi, where ?'a = nat] by (simp add: unat_of_nat)
  then show ?thesis unfolding number_range_def map_map comp_def by (intro map_idI) auto
qed

lemma set_number_range: "k \<in> set (number_range lo hi) \<longleftrightarrow> lo \<le> k \<and> k \<le> hi"
proof -
  have "k \<in> set (number_range lo hi) \<longleftrightarrow> unat k \<in> set (map unat (number_range lo hi))"
    by (metis (mono_tags, lifting) image_iff list.set_map unsigned_word_eqI word_unat_eq_iff)
  then show ?thesis by (simp only: number_range_unat) (auto simp: word_le_nat_alt)
qed

text \<open>The blocks a range scan visits are the blocks of the chain within the range, in order.\<close>

definition range_blocks :: "('db, 'h) KanariNode \<Rightarrow> u64 \<Rightarrow> u64 \<Rightarrow> SealedBlock list" where
  "range_blocks n lo hi = List.map_filter (block_by_number n) (number_range lo hi)"

lemma concat_map_filter:
  "concat (map (\<lambda>k. case f k of None \<Rightarrow> [] | Some b \<Rightarrow> g b) ks) = concat (map g (List.map_filter f ks))"
  by (induction ks) (auto simp: map_filter_simps split: option.splits)

lemma map_key_filter:
  assumes "\<And>k b. f k = Some b \<Longrightarrow> key b = k"
  shows "map key (List.map_filter f ks) = filter (\<lambda>k. f k \<noteq> None) ks"
  using assms by (induction ks) (auto simp: map_filter_simps split: option.splits)

lemma numbered_unat:
  assumes "numbered bs"
  shows "map (\<lambda>b. unat (sb_number b)) bs = [1..<Suc (length bs)]"
proof (rule nth_equalityI)
  show "length (map (\<lambda>b. unat (sb_number b)) bs) = length [1..<Suc (length bs)]"
    by (simp del: upt_Suc)
  fix i assume "i < length (map (\<lambda>b. unat (sb_number b)) bs)"
  with assms show "map (\<lambda>b. unat (sb_number b)) bs ! i = [1..<Suc (length bs)] ! i"
    by (simp add: numbered_def unat_of_nat del: of_nat_Suc upt_Suc)
qed

lemma range_blocks_filter:
  assumes "ledger_ok cr n"
  shows "range_blocks n lo hi = filter (\<lambda>b. lo \<le> sb_number b \<and> sb_number b \<le> hi) (n_blocks n)"
    (is "?l = ?r")
proof -
  let ?key = "\<lambda>b. unat (sb_number b)"
  have num: "numbered (n_blocks n)" using assms by (simp add: ledger_ok_def)
  have found: "sb_number b = k \<and> b \<in> set (n_blocks n)" if "block_by_number n k = Some b" for k b
    using that by (auto simp: block_by_number_def find_Some_iff)
  have "map sb_number ?l = filter (\<lambda>k. block_by_number n k \<noteq> None) (number_range lo hi)"
    unfolding range_blocks_def by (rule map_key_filter) (simp add: found)
  then have keys: "map ?key ?l = map unat (filter (\<lambda>k. block_by_number n k \<noteq> None) (number_range lo hi))"
    by (metis list.map_comp [unfolded comp_def])
  have "set ?l = set ?r"
  proof (intro set_eqI iffI)
    fix b assume "b \<in> set ?l"
    then obtain k where "k \<in> set (number_range lo hi)" "block_by_number n k = Some b"
      by (auto simp: range_blocks_def map_filter_def)
    with found [of k b] show "b \<in> set ?r" by (auto simp: set_number_range)
  next
    fix b assume "b \<in> set ?r"
    then show "b \<in> set ?l"
      using block_by_number_member [OF assms, of b]
      by (auto simp: range_blocks_def map_filter_def set_number_range intro!: image_eqI [of _ _ "sb_number b"])
  qed
  moreover have "sorted (map ?key ?r)" "distinct (map ?key ?r)" "inj_on ?key (set (n_blocks n))"
  proof -
    have all: "sorted (map ?key (n_blocks n))" "distinct (map ?key (n_blocks n))"
      by (simp_all only: numbered_unat [OF num] sorted_upt distinct_upt)
    then show "sorted (map ?key ?r)" by (rule_tac sorted_filter)
    from all show "distinct (map ?key ?r)" by (simp add: distinct_map_filter)
    from all show "inj_on ?key (set (n_blocks n))" by (simp add: distinct_map)
  qed
  moreover have "sorted (map ?key ?l)" "distinct (map ?key ?l)"
  proof -
    have ks: "sorted (map unat (number_range lo hi))" "distinct (map unat (number_range lo hi))"
      by (simp_all only: number_range_unat sorted_upt distinct_upt)
    show "sorted (map ?key ?l)" unfolding keys using ks(1) by (rule sorted_filter)
    show "distinct (map ?key ?l)" unfolding keys using ks(2) by (rule distinct_map_filter)
  qed
  ultimately show ?thesis
    by (intro map_sorted_distinct_set_unique [of ?key]) (auto intro: inj_on_subset)
qed

lemma logs_of_range:
  assumes "ledger_ok cr n"
  shows "logs_in_range cr n lo hi =
    concat (map (block_logs cr n) (filter (\<lambda>b. lo \<le> sb_number b \<and> sb_number b \<le> hi) (n_blocks n)))"
  using range_blocks_filter [OF assms, of lo hi]
  by (simp add: logs_in_range_def concat_map_filter range_blocks_def)

lemma kind_to_cases: "kind_to k = (case k of Call addr \<Rightarrow> Some addr | Create \<Rightarrow> None)"
  by (cases k) simp_all

lemma prepared_decode_parts:
  assumes "prepared_decode cr raw cid = Inr p"
  obtains envelope sender inner where "decode_2718 cr raw = Inr envelope"
    "envelope_env sender envelope = Inr (cid, inner)"
    "p = \<lparr>pt_sender = sender, pt_to = kind_to (te_kind inner), pt_inner = inner\<rparr>"
proof -
  from assms obtain envelope where e: "decode_2718 cr raw = Inr envelope"
    by (cases "decode_2718 cr raw") (auto simp: prepared_decode_def)
  with assms obtain sender where s: "recover_signer cr envelope = Inr sender"
    by (cases "recover_signer cr envelope") (auto simp: prepared_decode_def)
  with e assms obtain k inner where i: "envelope_env sender envelope = Inr (k, inner)"
    by (cases "envelope_env sender envelope") (auto simp: prepared_decode_def)
  with e s assms have "k = cid" "p = \<lparr>pt_sender = sender, pt_to = kind_to (te_kind inner), pt_inner = inner\<rparr>"
    by (auto simp: prepared_decode_def kind_to_cases split: if_splits)
  with e i show thesis by (intro that [of envelope sender inner]) simp_all
qed

lemma kind_to_alloy [simp]: "kind_to (alloy_kind k) = kind_to k"
  by (cases k) simp_all

lemma unat_effective_gas_price: "unat (effective_gas_price cap fee tip) = min (unat cap) (unat fee + unat tip)"
  using unsigned_less [of cap, where ?'a = nat] by (auto simp: effective_gas_price_def unat_min unat_sat_add)

lemma envelope_view_env:
  assumes "envelope_env sender envelope = Inr (cid, inner)"
  shows "\<exists>v. envelope_view envelope fee = Some v \<and> tv_nonce v = te_nonce inner
    \<and> tv_gas_limit v = te_gas_limit inner \<and> tv_to v = kind_to (te_kind inner)
    \<and> tv_value v = te_value inner \<and> tv_input v = te_data inner \<and> tv_chain_id v = cid
    \<and> te_chain_id inner = Some cid
    \<and> (case envelope of
          Legacy tx _ \<Rightarrow> tv_tx_type v = 0 \<and> te_tx_type inner = 0 \<and> te_access_list inner = []
            \<and> te_authorization_list inner = [] \<and> unat (tv_effective_gas_price v) = unat (tl_gas_price tx)
        | Eip2930 tx _ \<Rightarrow> tv_tx_type v = 1 \<and> te_tx_type inner = 0 \<and> te_access_list inner = t1_access_list tx
            \<and> te_authorization_list inner = [] \<and> unat (tv_effective_gas_price v) = unat (t1_gas_price tx)
        | Eip1559 tx _ \<Rightarrow> tv_tx_type v = 2 \<and> te_tx_type inner = 0 \<and> te_access_list inner = t2_access_list tx
            \<and> te_authorization_list inner = [] \<and> unat (tv_effective_gas_price v)
              = min (unat (t2_max_fee_per_gas tx)) (unat fee + unat (t2_max_priority_fee_per_gas tx))
        | Eip7702 tx _ \<Rightarrow> tv_tx_type v = 4 \<and> te_tx_type inner = 4 \<and> te_access_list inner = t4_access_list tx
            \<and> te_authorization_list inner = t4_authorization_list tx \<and> unat (tv_effective_gas_price v)
              = min (unat (t4_max_fee_per_gas tx)) (unat fee + unat (t4_max_priority_fee_per_gas tx))
        | Eip4844 _ \<Rightarrow> False)"
proof (cases envelope)
  case (Legacy tx sig)
  with assms show ?thesis by (cases "tl_chain_id tx") (auto simp: ok_or_def res_bind_def unat_ucast_up)
next
  case (Eip2930 tx sig)
  with assms show ?thesis by (auto simp: unat_ucast_up)
next
  case (Eip1559 tx sig)
  with assms show ?thesis by (auto simp: unat_ucast_up unat_effective_gas_price)
next
  case (Eip7702 tx sig)
  with assms show ?thesis by (auto simp: unat_ucast_up unat_effective_gas_price)
qed (use assms in simp)

lemma seal_committed_block:
  assumes "seal_committed x n raw ts = (Inr hash, n')"
  shows "\<exists>b. n_blocks n' = n_blocks n @ [b] \<and> sb_number b = block_number n + 1 \<and> sb_txs b = [raw]"
  using assms unfolding seal_committed_def seal_raw_def by (rule seal_success) simp

section \<open>Properties\<close>

text \<open>
  C31. What the explorer shows of a transaction against what was executed: whenever the node accepts raw bytes, the view
  decodes the same bytes to the nonce, gas limit, recipient, value, input and chain id of the environment the
  interpreter ran. The price shown is, over the naturals, the gas price of a legacy or EIP-2930 transaction and the lower
  of the fee cap and base fee plus tip for EIP-1559 and EIP-7702. The environment carries the transaction's access and
  authorization lists, which the view leaves out. The types agree for legacy and EIP-7702 transactions; EIP-2930 and
  EIP-1559 transactions are shown as types 1 and 2 but run as type 0.
\<close>

theorem tx_view_matches_execution:
  assumes "prepared_decode cr raw cid = Inr p"
  shows "\<exists>envelope v. decode_2718 cr raw = Inr envelope \<and> decode_tx_view cr raw base_fee_wei = Some v
    \<and> tv_nonce v = te_nonce (pt_inner p) \<and> tv_gas_limit v = te_gas_limit (pt_inner p) \<and> tv_to v = pt_to p
    \<and> tv_value v = te_value (pt_inner p) \<and> tv_input v = te_data (pt_inner p)
    \<and> tv_chain_id v = cid \<and> te_chain_id (pt_inner p) = Some cid
    \<and> (case envelope of
          Legacy tx _ \<Rightarrow> tv_tx_type v = 0 \<and> te_tx_type (pt_inner p) = 0 \<and> te_access_list (pt_inner p) = []
            \<and> te_authorization_list (pt_inner p) = [] \<and> unat (tv_effective_gas_price v) = unat (tl_gas_price tx)
        | Eip2930 tx _ \<Rightarrow> tv_tx_type v = 1 \<and> te_tx_type (pt_inner p) = 0
            \<and> te_access_list (pt_inner p) = t1_access_list tx
            \<and> te_authorization_list (pt_inner p) = [] \<and> unat (tv_effective_gas_price v) = unat (t1_gas_price tx)
        | Eip1559 tx _ \<Rightarrow> tv_tx_type v = 2 \<and> te_tx_type (pt_inner p) = 0
            \<and> te_access_list (pt_inner p) = t2_access_list tx
            \<and> te_authorization_list (pt_inner p) = [] \<and> unat (tv_effective_gas_price v)
              = min (unat (t2_max_fee_per_gas tx)) (unat base_fee_wei + unat (t2_max_priority_fee_per_gas tx))
        | Eip7702 tx _ \<Rightarrow> tv_tx_type v = 4 \<and> te_tx_type (pt_inner p) = 4
            \<and> te_access_list (pt_inner p) = t4_access_list tx
            \<and> te_authorization_list (pt_inner p) = t4_authorization_list tx \<and> unat (tv_effective_gas_price v)
              = min (unat (t4_max_fee_per_gas tx)) (unat base_fee_wei + unat (t4_max_priority_fee_per_gas tx))
        | Eip4844 _ \<Rightarrow> False)"
proof -
  from assms obtain envelope sender inner where e: "decode_2718 cr raw = Inr envelope"
      "envelope_env sender envelope = Inr (cid, inner)"
    and p: "p = \<lparr>pt_sender = sender, pt_to = kind_to (te_kind inner), pt_inner = inner\<rparr>"
    by (rule prepared_decode_parts)
  from envelope_view_env [OF e(2), of base_fee_wei] show ?thesis
    unfolding decode_tx_view_def e(1) p PreparedTx.select_convs sum.case by (intro exI [of _ envelope]) blast
qed

text \<open>
  The log scan over a block range returns exactly the logs of the sealed blocks in the range, block by
  block in chain order: nothing outside, nothing missing, nothing twice.
\<close>

theorem logs_in_range_exact:
  assumes "ledger_ok cr n"
  shows "logs_in_range cr n lo hi =
    concat (map (block_logs cr n) (filter (\<lambda>b. lo \<le> sb_number b \<and> sb_number b \<le> hi) (n_blocks n)))"
  by (rule logs_of_range [OF assms])

theorem tx_view_matches_execution_witness:
  "\<exists>p v. prepared_decode mem_crypto [1] 19088 = Inr p \<and> decode_tx_view mem_crypto [1] 7 = Some v
     \<and> tv_nonce v = te_nonce (pt_inner p) \<and> tv_nonce v = 1"
proof -
  obtain p where p: "prepared_decode mem_crypto [1] 19088 = Inr p"
    by (auto simp: prepared_decode_def mem_crypto_def mem_decode_def mem_tx_def ok_or_def)
  from tx_view_matches_execution [OF p, of 7] obtain v where
    "decode_tx_view mem_crypto [1] 7 = Some v" "tv_nonce v = te_nonce (pt_inner p)" by blast
  moreover from this(1) have "tv_nonce v = 1"
    by (auto simp: decode_tx_view_def mem_crypto_def mem_decode_def mem_tx_def)
  ultimately show ?thesis using p by blast
qed

theorem logs_in_range_exact_witness:
  "\<exists>n'. seal_committed mem_ext mem_node [1] 100 = (Inr 1, n') \<and> length (n_blocks n') = 1
     \<and> logs_in_range mem_crypto n' 0 5 = concat (map (block_logs mem_crypto n') (n_blocks n'))"
proof -
  obtain n' where n': "seal_committed mem_ext mem_node [1] 100 = (Inr 1, n')" using mem_seal by blast
  then obtain b where b: "n_blocks n' = [b]" "sb_number b = 1"
    using seal_committed_block [OF n'] by (auto simp: block_number_def)
  show ?thesis
    using n' b logs_in_range_exact [OF mem_seal_ledger [OF n'], of 0 5] by (intro exI [of _ n']) simp
qed

end
