(* ===== verification/Faucet.thy ===== *)
theory Faucet
  imports Ledger
begin

text \<open>
  The development faucet (\<^verbatim>\<open>crates/move-execution/src/faucet.rs\<close>): the stored key, the capped drip
  that signs an EIP-1559 transfer from the faucet account and submits it, and the legacy key file.
\<close>

section \<open>Operations\<close>

definition set_faucet_key :: "'h Kv \<Rightarrow> ('db, 'h) KanariNode \<Rightarrow> B256 \<Rightarrow> ('db, 'h, unit) node_result" where
  "set_faucet_key kv n secret =
     (case store_set_faucet_key kv (n_store n) secret of
        (Inl e, h) \<Rightarrow> (Inl (node_error_of_store e), n\<lparr>n_store := h\<rparr>)
      | (Inr _, h) \<Rightarrow> (Inr (), n\<lparr>n_store := h, n_faucet_key := Some secret\<rparr>))"

definition load_faucet_key :: "'h Kv \<Rightarrow> ('db, 'h) KanariNode \<Rightarrow> ('db, 'h, bool) node_result" where
  "load_faucet_key kv n =
     (case store_load_faucet_key kv (n_store n) of
        Inl e \<Rightarrow> (Inl (node_error_of_store e), n)
      | Inr None \<Rightarrow> (Inr False, n)
      | Inr (Some secret) \<Rightarrow> (Inr True, n\<lparr>n_faucet_key := Some secret\<rparr>))"

definition faucet_address :: "Crypto \<Rightarrow> ('db, 'h) KanariNode \<Rightarrow> NodeError + Address option" where
  "faucet_address cr n =
     (case n_faucet_key n of
        None \<Rightarrow> Inr None
      | Some secret \<Rightarrow>
          res_bind (map_err (\<lambda>e. Storage (''bad faucet key: '' @ e)) (signer_from_bytes cr secret))
            (\<lambda>signer. Inr (Some (signer_address cr signer))))"

definition faucet_tx :: "u64 \<Rightarrow> u64 \<Rightarrow> Address \<Rightarrow> U256 \<Rightarrow> u128 \<Rightarrow> TxEip1559" where
  "faucet_tx chain_id nonce to amount_wei fee =
     \<lparr>t2_chain_id = chain_id, t2_nonce = nonce, t2_gas_limit = 21000, t2_max_fee_per_gas = fee,
      t2_max_priority_fee_per_gas = fee, t2_to = Call to, t2_value = amount_wei, t2_access_list = [],
      t2_input = []\<rparr>"

definition faucet ::
  "('db, 'st, 'h) Ext \<Rightarrow> ('db, 'h) KanariNode \<Rightarrow> Address \<Rightarrow> U256 \<Rightarrow> u64 \<Rightarrow> ('db, 'h, B256) node_result" where
  "faucet x n to amount_wei now =
     (if amount_wei > ucast (MAX_FAUCET_ETH_PER_REQUEST * WEI_IN_ETH)
      then (Inl (InvalidTransaction (''faucet amount exceeds per-request cap of ''
              @ decimal (unat MAX_FAUCET_ETH_PER_REQUEST) @ '' ETH'')), n)
      else case n_faucet_key n of None \<Rightarrow> (Inl NoFaucetConfigured, n) | Some secret \<Rightarrow>
      (case signer_from_bytes (x_crypto x) secret of
         Inl e \<Rightarrow> (Inl (Storage (''bad faucet key: '' @ e)), n)
       | Inr signer \<Rightarrow>
         (let from = signer_address (x_crypto x) signer in
          bind_node (balance_of (x_revm x) n from) (\<lambda>balance n1.
          let fee = pending_base_fee (x_crypto x) n1;
              gas_cost = ucast (sat_mul (21000 :: u128) fee)
          in if balance < amount_wei + gas_cost then (Inl (Execution ''faucet account is dry''), n1)
             else bind_node (nonce_of (x_revm x) n1 from) (\<lambda>nonce n2.
               let tx = faucet_tx (cs_chain_id (n_spec n2)) nonce to amount_wei fee
               in case sign_hash (x_crypto x) signer (signature_hash (x_crypto x) tx) of
                    Inl e \<Rightarrow> (Inl (BadSignature e), n2)
                  | Inr sig \<Rightarrow>
                      send_raw_transaction x n2 (encode_2718 (x_crypto x) (Eip1559 tx sig)) now)))))"

text \<open>The legacy sidecar: its contents, as read, hold 64 hexadecimal characters.\<close>

definition parse_faucet_hex_file :: "string + string \<Rightarrow> NodeError + B256" where
  "parse_faucet_hex_file contents =
     res_bind (map_err Storage contents) (\<lambda>raw.
     res_bind (map_err (\<lambda>_. Storage ''malformed faucet key file'') (hex_decode32 raw)) (\<lambda>bytes.
       Inr (from_be_bytes bytes)))"

section \<open>Lemmas\<close>

lemma balance_of_cases:
  "balance_of rv n a =
     (map_sum Storage (\<lambda>i. case i of Some i \<Rightarrow> ai_balance i | None \<Rightarrow> 0) (fst (rv_basic rv (n_db n) a)),
      n\<lparr>n_db := snd (rv_basic rv (n_db n) a)\<rparr>)"
  by (auto simp: balance_of_def split: prod.splits sum.splits)

lemma nonce_of_cases:
  "nonce_of rv n a =
     (map_sum Storage (\<lambda>i. case i of Some i \<Rightarrow> ai_nonce i | None \<Rightarrow> 0) (fst (rv_basic rv (n_db n) a)),
      n\<lparr>n_db := snd (rv_basic rv (n_db n) a)\<rparr>)"
  by (auto simp: nonce_of_def split: prod.splits sum.splits)

lemma pending_base_fee_cong:
  "n_blocks n = n_blocks m \<Longrightarrow> n_receipts n = n_receipts m \<Longrightarrow> n_spec n = n_spec m \<Longrightarrow>
     pending_base_fee cr n = pending_base_fee cr m"
  by (simp only: pending_base_fee_def block_gas_used_def block_by_number_def)

lemma pending_base_fee_db [simp]: "pending_base_fee cr (n\<lparr>n_db := db\<rparr>) = pending_base_fee cr n"
  by (rule pending_base_fee_cong) simp_all

text \<open>A drip either fails early or submits one transaction.\<close>

lemma lookups_sim:
  assumes "lookups_unobserved rv cr"
  shows "db_sim rv cr True (snd (rv_basic rv db a)) db"
    and "db_sim rv cr True (snd (rv_basic rv (snd (rv_basic rv db a)) b)) db"
  using assms by (auto simp: lookups_unobserved_def intro: db_sim_trans)

lemma faucet_submits:
  obtains (failed) e db where "faucet x n to amt now = (Inl e, n\<lparr>n_db := db\<rparr>)"
      "lookups_unobserved (x_revm x) (x_crypto x) \<longrightarrow> db_sim (x_revm x) (x_crypto x) True db (n_db n)"
  | (sent) db raw where "faucet x n to amt now = send_raw_transaction x (n\<lparr>n_db := db\<rparr>) raw now"
      "lookups_unobserved (x_revm x) (x_crypto x) \<longrightarrow> db_sim (x_revm x) (x_crypto x) True db (n_db n)"
      "\<exists>a. n\<lparr>n_db := db\<rparr> = snd (nonce_of (x_revm x) (snd (balance_of (x_revm x) n a)) a)"
proof -
  let ?sim = "\<lambda>db. lookups_unobserved (x_revm x) (x_crypto x) \<longrightarrow> db_sim (x_revm x) (x_crypto x) True db (n_db n)"
  let ?twice = "\<lambda>a. snd (rv_basic (x_revm x) (snd (rv_basic (x_revm x) (n_db n) a)) a)"
  have early: "\<exists>db. (Inl e, n) = (Inl e, n\<lparr>n_db := db\<rparr>) \<and> ?sim db" for e :: NodeError
    using node_db_self [of n] by (intro exI [of _ "n_db n"]) simp
  have looks: "?sim (snd (rv_basic (x_revm x) (n_db n) a))"
    "?sim (snd (rv_basic (x_revm x) (snd (rv_basic (x_revm x) (n_db n) a)) b))" for a b
    by (simp_all add: lookups_sim)
  have "(\<exists>e db. faucet x n to amt now = (Inl e, n\<lparr>n_db := db\<rparr>) \<and> ?sim db)
      \<or> (\<exists>a raw. faucet x n to amt now = send_raw_transaction x (n\<lparr>n_db := ?twice a\<rparr>) raw now)"
    using early looks
    by (simp add: faucet_def balance_of_cases nonce_of_cases bind_node_def Let_def
        split: option.split sum.split) (auto simp: map_sum_def split: sum.splits)
  then show thesis
  proof (elim disjE exE conjE)
    fix a raw assume "faucet x n to amt now = send_raw_transaction x (n\<lparr>n_db := ?twice a\<rparr>) raw now"
    then show thesis by (rule sent [OF _ looks(2)]) (simp add: balance_of_cases nonce_of_cases exI [of _ a])
  qed (rule failed)
qed

text \<open>The drip is sent only when the account covers it.\<close>

lemma faucet_success:
  assumes "faucet x n to amt now = (Inr hash, n')"
  obtains secret signer where "n_faucet_key n = Some secret"
    "signer_from_bytes (x_crypto x) secret = Inr signer"
    "amt \<le> ucast (MAX_FAUCET_ETH_PER_REQUEST * WEI_IN_ETH)"
    "unat (amt + ucast (sat_mul (21000 :: u128) (pending_base_fee (x_crypto x) n)))
       \<le> balance_in (x_revm x) (n_db n) (signer_address (x_crypto x) signer)"
  using assms
  by (auto simp: faucet_def balance_of_cases bind_node_Inr_iff Let_def balance_in_def word_le_nat_alt
      not_less map_sum_def split: if_splits option.splits sum.splits)

section \<open>Properties\<close>

text \<open>
  C34. The faucet is capped and solvent: a drip succeeds only with a configured and valid key, an
  amount of at most 10,000 ether, and a faucet account whose balance covers the amount and the gas at
  the pending base fee, as exact integers: the unchecked 256-bit addition cannot wrap below the cap.
\<close>

theorem faucet_capped_and_solvent:
  assumes "faucet x n to amt now = (Inr hash, n')"
  shows "\<exists>secret signer. n_faucet_key n = Some secret \<and> signer_from_bytes (x_crypto x) secret = Inr signer
    \<and> unat amt \<le> 10000 * 10 ^ 18
    \<and> unat amt + min (21000 * unat (pending_base_fee (x_crypto x) n)) (2 ^ 128 - 1)
        \<le> balance_in (x_revm x) (n_db n) (signer_address (x_crypto x) signer)"
  using assms
proof (rule faucet_success)
  fix secret signer
  let ?g = "sat_mul (21000 :: u128) (pending_base_fee (x_crypto x) n)"
  assume key: "n_faucet_key n = Some secret" "signer_from_bytes (x_crypto x) secret = Inr signer"
    and cap: "amt \<le> ucast (MAX_FAUCET_ETH_PER_REQUEST * WEI_IN_ETH)"
    and bal: "unat (amt + ucast ?g) \<le> balance_in (x_revm x) (n_db n) (signer_address (x_crypto x) signer)"
  have cap': "unat amt \<le> 10000 * 10 ^ 18"
    using cap by (simp add: word_le_nat_alt MAX_FAUCET_ETH_PER_REQUEST_def WEI_IN_ETH_def)
  have g: "unat (ucast ?g :: U256) = min (21000 * unat (pending_base_fee (x_crypto x) n)) (2 ^ 128 - 1)"
    by (simp add: unat_ucast_up unat_sat_mul)
  then have "unat (amt + ucast ?g) = unat amt + min (21000 * unat (pending_base_fee (x_crypto x) n)) (2 ^ 128 - 1)"
    using cap' by (subst unat_add_lem [THEN iffD1]) auto
  with key cap' bal show ?thesis by auto
qed

theorem faucet_capped_and_solvent_witness:
  "\<exists>hash n'. faucet mem_ext (mem_node\<lparr>n_faucet_key := Some 0xabc, n_dag_sender := Some []\<rparr>) 7 1000 100
       = (Inr hash, n')
     \<and> 1000 + 21000 * 1000000000 \<le> balance_in mem_revm (n_db mem_node) 0xabc"
proof -
  let ?n = "mem_node\<lparr>n_faucet_key := Some 0xabc, n_dag_sender := Some []\<rparr>"
  have fee: "pending_base_fee mem_crypto ?n = 1000000000"
    by (simp add: pending_base_fee_def mem_spec_def gas_consts)
  have sign: "signer_from_bytes mem_crypto 0xabc = Inr 0xabc" "signer_address mem_crypto 0xabc = 0xabc"
    "\<And>t. sign_hash mem_crypto 0xabc t = Inr []"
    by (simp_all add: mem_crypto_def)
  have acc: "map_of (n_db mem_node) 0xabc = Some (mem_account 1000000000000000000)"
    by (simp add: mem_node_def)
  have send: "x_try_send mem_ext s b = Inr ()" for s b by (simp add: mem_ext_def)
  have cost: "sat_mul (21000 :: u128) 1000000000 = 21000000000000"
    by (simp add: sat_mul_def unat_minus_one_eq)
  obtain hash n' where d: "faucet mem_ext ?n 7 1000 100 = (Inr hash, n')"
    by (simp add: faucet_def balance_of_cases nonce_of_cases sign fee send_raw_transaction_def acc send cost
        MAX_FAUCET_ETH_PER_REQUEST_def WEI_IN_ETH_def Let_def)
      (simp add: mem_account_def nonce_of_cases acc sign send send_raw_transaction_def Let_def)
  from faucet_capped_and_solvent [OF d] have "1000 + 21000 * 1000000000 \<le> balance_in mem_revm (n_db mem_node) 0xabc"
    by (simp add: fee sign)
  with d show ?thesis by auto
qed

end
