(* ===== verification/Node.thy ===== *)
theory Node
  imports Faucet
begin

text \<open>
  The node's life cycle (\<^verbatim>\<open>crates/move-execution/src/node.rs\<close>): opening or creating a node,
  migration of the legacy journal, the remaining accessors, and the operations that change a node as
  one step relation with its invariants. The file system around the legacy journal is a record of
  what reading, renaming and the sidecar give.
\<close>

section \<open>Opening\<close>

text \<open>
  \<open>lf_journal\<close> is the legacy state file when it is a file, with the result of reading it;
  \<open>lf_sidecar\<close> the faucet key file when it exists; \<open>lf_rename\<close> the outcome of moving the journal
  aside.
\<close>

record LegacyFs =
  lf_journal :: "(string + bytes) option"
  lf_sidecar :: "(string + string) option"
  lf_rename :: "string + unit"

definition fresh_node :: "KanariChainSpec \<Rightarrow> 'db \<Rightarrow> 'h \<Rightarrow> ('db, 'h) KanariNode" where
  "fresh_node spec db h =
     \<lparr>n_spec = spec, n_db = db, n_blocks = [], n_receipts = Map.empty, n_store = h,
      n_genesis_root = 0, n_faucet_key = None, n_dag_sender = None,
      n_metrics = \<lparr>nm_blocks_sealed = 0, nm_txs_sealed = 0, nm_commits_seen = 0\<rparr>\<rparr>"

definition node_init_meta ::
  "('db, 'st, 'h) Ext \<Rightarrow> ('db, 'h) KanariNode \<Rightarrow> ('db, 'h, unit) node_result" where
  "node_init_meta x n =
     (case init_meta (x_kv x) (x_codec x) (n_store n) (cs_chain_id (n_spec n)) (cs_genesis_alloc (n_spec n)) of
        (r, h) \<Rightarrow> (map_err node_error_of_store r, n\<lparr>n_store := h\<rparr>))"

definition migrate_legacy_journal ::
  "('db, 'st, 'h) Ext \<Rightarrow> LegacyFs \<Rightarrow> string + bytes \<Rightarrow> ('db, 'h) KanariNode
     \<Rightarrow> ('db, 'h, SealedBlock list) node_result" where
  "migrate_legacy_journal x fs contents n =
     bind_node (map_err Storage contents, n) (\<lambda>raw n.
     bind_node (map_err Storage (de_journal (x_codec x) raw), n) (\<lambda>journal n.
     if jr_chain_id journal \<noteq> cs_chain_id (n_spec n)
     then (Inl (Storage (''legacy journal chain id '' @ decimal (unat (jr_chain_id journal))
             @ '' does not match node chain id '' @ decimal (unat (cs_chain_id (n_spec n))))), n)
     else let n1 = (if jr_genesis_alloc journal = [] then n
                    else n\<lparr>n_spec := (n_spec n)\<lparr>cs_genesis_alloc := jr_genesis_alloc journal\<rparr>\<rparr>)
      in bind_node (node_init_meta x n1) (\<lambda>_ n2.
         bind_node
           (case lf_sidecar fs of
              None \<Rightarrow> (Inr (), n2)
            | Some sc \<Rightarrow> (case parse_faucet_hex_file sc of
                Inl _ \<Rightarrow> (Inr (), n2)
              | Inr secret \<Rightarrow> set_faucet_key (x_kv x) n2 secret)) (\<lambda>_ n3.
         bind_node (map_err Storage (lf_rename fs), n3) (\<lambda>_ n4.
           (Inr (jr_blocks journal), n4))))))"

text \<open>Genesis and its state root; a panic of \<open>apply_genesis\<close> is a panic of \<open>open\<close>.\<close>

definition start_genesis ::
  "('db, 'st, 'h) Ext \<Rightarrow> ('db, 'h) KanariNode \<Rightarrow> ('db, 'h, unit) node_result outcome" where
  "start_genesis x n =
     out_bind (apply_genesis (x_revm x) (n_spec n) (n_db n)) (\<lambda>db.
       Returns (bind_node (rebuild_smt (x_revm x) (x_kv x) (x_crypto x) (n\<lparr>n_db := db\<rparr>)) (\<lambda>root n'.
         (Inr (), n'\<lparr>n_genesis_root := root\<rparr>))))"

definition bind_out ::
  "('db, 'h, 'a) node_result outcome \<Rightarrow> ('a \<Rightarrow> ('db, 'h) KanariNode \<Rightarrow> ('db, 'h, 'b) node_result outcome)
     \<Rightarrow> ('db, 'h, 'b) node_result outcome" where
  "bind_out r f = out_bind r (\<lambda>p. case p of (Inl e, n) \<Rightarrow> Returns (Inl e, n) | (Inr y, n) \<Rightarrow> f y n)"

definition pick_up_faucet_key ::
  "('db, 'st, 'h) Ext \<Rightarrow> ('db, 'h) KanariNode \<Rightarrow> ('db, 'h, unit) node_result" where
  "pick_up_faucet_key x n =
     (case store_load_faucet_key (x_kv x) (n_store n) of
        Inl e \<Rightarrow> (Inl (node_error_of_store e), n)
      | Inr None \<Rightarrow> (Inr (), n)
      | Inr (Some secret) \<Rightarrow> (Inr (), n\<lparr>n_faucet_key := Some secret\<rparr>))"

text \<open>The three ways to start: migrate, create, reopen.\<close>

definition open_migrate ::
  "('db, 'st, 'h) Ext \<Rightarrow> LegacyFs \<Rightarrow> string + bytes \<Rightarrow> ('db, 'h) KanariNode
     \<Rightarrow> ('db, 'h, unit) node_result outcome" where
  "open_migrate x fs contents n =
     bind_out (Returns (migrate_legacy_journal x fs contents n)) (\<lambda>pending n1.
     bind_out (start_genesis x n1) (\<lambda>_ n2. Returns (replay_blocks x pending n2)))"

definition open_create ::
  "('db, 'st, 'h) Ext \<Rightarrow> ('db, 'h) KanariNode \<Rightarrow> ('db, 'h, unit) node_result outcome" where
  "open_create x n = bind_out (Returns (node_init_meta x n)) (\<lambda>_ n1. start_genesis x n1)"

definition open_existing ::
  "('db, 'st, 'h) Ext \<Rightarrow> u64 \<Rightarrow> ('db, 'h) KanariNode \<Rightarrow> ('db, 'h, unit) node_result outcome" where
  "open_existing x stored_chain n =
     (if stored_chain \<noteq> cs_chain_id (n_spec n)
      then Returns (Inl (Storage (''stored chain id '' @ decimal (unat stored_chain)
             @ '' does not match node chain id '' @ decimal (unat (cs_chain_id (n_spec n))))), n)
      else bind_out (Returns (map_err node_error_of_store
                       (stored_genesis_alloc (x_kv x) (x_codec x) (n_store n)), n)) (\<lambda>alloc n.
        let n1 = (if alloc = [] then n else n\<lparr>n_spec := (n_spec n)\<lparr>cs_genesis_alloc := alloc\<rparr>\<rparr>)
        in bind_out (start_genesis x n1) (\<lambda>_ n2.
           bind_out (Returns (map_err node_error_of_store
                      (load_blocks (x_kv x) (x_codec x) (n_store n2)), n2)) (\<lambda>blocks n2.
             Returns (replay_blocks x blocks n2)))))"

text \<open>\<open>opened\<close> is the result of opening the RocksDB directory.\<close>

definition open_node ::
  "('db, 'st, 'h) Ext \<Rightarrow> LegacyFs \<Rightarrow> KanariChainSpec \<Rightarrow> string + 'h
     \<Rightarrow> (NodeError + ('db, 'h) KanariNode) outcome" where
  "open_node x fs spec opened =
     (case opened of
        Inl e \<Rightarrow> Returns (Inl (node_error_of_store (Backend e)))
      | Inr h \<Rightarrow>
        (let n = fresh_node spec (rv_default (x_revm x)) h;
             started = bind_out (Returns (map_err node_error_of_store (stored_chain_id (x_kv x) h), n)) (\<lambda>c n.
               case c of
                 Some stored_chain \<Rightarrow> open_existing x stored_chain n
               | None \<Rightarrow> (case lf_journal fs of
                            Some contents \<Rightarrow> open_migrate x fs contents n
                          | None \<Rightarrow> open_create x n));
             final = bind_out started (\<lambda>_ n'. Returns (pick_up_faucet_key x n'))
         in out_bind final (\<lambda>p. case p of (Inl e, _) \<Rightarrow> Returns (Inl e) | (Inr _, n') \<Rightarrow> Returns (Inr n'))))"

section \<open>Accessors\<close>

definition chain_id :: "('db, 'h) KanariNode \<Rightarrow> u64" where
  "chain_id n = cs_chain_id (n_spec n)"

definition set_dag_sender :: "('db, 'h) KanariNode \<Rightarrow> ('db, 'h) KanariNode" where
  "set_dag_sender n = n\<lparr>n_dag_sender := Some []\<rparr>"

definition is_validator_mode :: "('db, 'h) KanariNode \<Rightarrow> bool" where
  "is_validator_mode n \<longleftrightarrow> n_dag_sender n \<noteq> None"

definition snapshot :: "NodeMetrics \<Rightarrow> u64 \<times> u64 \<times> u64" where
  "snapshot m = (nm_blocks_sealed m, nm_txs_sealed m, nm_commits_seen m)"

definition node_supply :: "('db, 'h) KanariNode \<Rightarrow> U256 \<times> U256" where
  "node_supply n =
     (foldl (\<lambda>acc (_, balance). sat_add acc balance) 0 (cs_genesis_alloc (n_spec n)),
      sat_mul (ucast KANARI_EVM_MAX_SUPPLY_ETH) (ucast WEI_IN_ETH))"

section \<open>Steps of a running node\<close>

text \<open>Every operation that changes a node, with its result ignored.\<close>

definition note_commit :: "('db, 'h) KanariNode \<Rightarrow> ('db, 'h) KanariNode" where
  "note_commit n = n\<lparr>n_metrics := (n_metrics n)\<lparr>nm_commits_seen := nm_commits_seen (n_metrics n) + 1\<rparr>\<rparr>"

inductive node_step :: "('db, 'st, 'h) Ext \<Rightarrow> ('db, 'h) KanariNode \<Rightarrow> ('db, 'h) KanariNode \<Rightarrow> bool" for x where
  seal: "seal_committed x n raw ts = (r, n') \<Longrightarrow> node_step x n n'"
| send: "send_raw_transaction x n raw now = (r, n') \<Longrightarrow> node_step x n n'"
| drip: "faucet x n to amt now = (r, n') \<Longrightarrow> node_step x n n'"
| eth_call: "call x n c now = (out, n') \<Longrightarrow> node_step x n n'"
| read_balance: "balance_of (x_revm x) n a = (v, n') \<Longrightarrow> node_step x n n'"
| read_nonce: "nonce_of (x_revm x) n a = (k, n') \<Longrightarrow> node_step x n n'"
| read_code: "code_of (x_revm x) n a = (c, n') \<Longrightarrow> node_step x n n'"
| read_storage: "storage_of (x_revm x) n a slot = (v, n') \<Longrightarrow> node_step x n n'"
| set_key: "set_faucet_key (x_kv x) n secret = (u, n') \<Longrightarrow> node_step x n n'"
| load_key: "load_faucet_key (x_kv x) n = (b, n') \<Longrightarrow> node_step x n n'"
| attach: "node_step x n (set_dag_sender n)"
| commit: "node_step x n (note_commit n)"

inductive reachable :: "('db, 'st, 'h) Ext \<Rightarrow> ('db, 'h) KanariNode \<Rightarrow> ('db, 'h) KanariNode \<Rightarrow> bool"
  for x n0 where
  init: "reachable x n0 n0"
| step: "reachable x n0 n \<Longrightarrow> node_step x n n' \<Longrightarrow> reachable x n0 n'"

text \<open>
  The plain steps: seals, submissions, drips, account lookups, key changes and commit notes. Left out are reads of
  contract storage and calls, which can leave leaves behind that no replay reproduces.
\<close>

inductive plain_step :: "('db, 'st, 'h) Ext \<Rightarrow> ('db, 'h) KanariNode \<Rightarrow> ('db, 'h) KanariNode \<Rightarrow> bool" for x where
  seal: "seal_committed x n raw ts = (r, n') \<Longrightarrow> plain_step x n n'"
| send: "send_raw_transaction x n raw now = (r, n') \<Longrightarrow> plain_step x n n'"
| drip: "faucet x n to amt now = (r, n') \<Longrightarrow> plain_step x n n'"
| read_balance: "balance_of (x_revm x) n a = (v, n') \<Longrightarrow> plain_step x n n'"
| read_nonce: "nonce_of (x_revm x) n a = (k, n') \<Longrightarrow> plain_step x n n'"
| read_code: "code_of (x_revm x) n a = (c, n') \<Longrightarrow> plain_step x n n'"
| set_key: "set_faucet_key (x_kv x) n secret = (u, n') \<Longrightarrow> plain_step x n n'"
| load_key: "load_faucet_key (x_kv x) n = (b, n') \<Longrightarrow> plain_step x n n'"
| attach: "plain_step x n (set_dag_sender n)"
| commit: "plain_step x n (note_commit n)"

inductive plain_run :: "('db, 'st, 'h) Ext \<Rightarrow> ('db, 'h) KanariNode \<Rightarrow> ('db, 'h) KanariNode \<Rightarrow> bool"
  for x n0 where
  start: "plain_run x n0 n0"
| step: "plain_run x n0 n \<Longrightarrow> plain_step x n n' \<Longrightarrow> plain_run x n0 n'"

lemma plain_step_node: "plain_step x n n' \<Longrightarrow> node_step x n n'"
  by (induction rule: plain_step.induct) (auto intro: node_step.intros)

lemma plain_run_reachable: "plain_run x n0 n \<Longrightarrow> reachable x n0 n"
  by (induction rule: plain_run.induct) (auto intro: reachable.intros plain_step_node)

lemma plain_run_seal: "seal_committed x n raw ts = (r, n') \<Longrightarrow> plain_run x n n'"
  by (rule plain_run.step [OF plain_run.start plain_step.seal])

lemma plain_run_trans: "plain_run x m n \<Longrightarrow> plain_run x n0 m \<Longrightarrow> plain_run x n0 n"
  by (induction rule: plain_run.induct) (auto intro: plain_run.step)

lemma plain_run_lookups: "plain_run x n (snd (nonce_of (x_revm x) (snd (balance_of (x_revm x) n a)) b))"
  by (rule plain_run.step [OF plain_run.step [OF plain_run.start plain_step.read_balance] plain_step.read_nonce])
    (rule surjective_pairing)+

text \<open>Steps that seal nothing leave the chain and its stored copy alone.\<close>

definition quiet :: "('db, 'st, 'h) Ext \<Rightarrow> ('db, 'h) KanariNode \<Rightarrow> ('db, 'h) KanariNode \<Rightarrow> bool" where
  "quiet x n n' \<longleftrightarrow> n_blocks n' = n_blocks n \<and> n_receipts n' = n_receipts n \<and> n_spec n' = n_spec n
     \<and> n_genesis_root n' = n_genesis_root n
     \<and> nm_blocks_sealed (n_metrics n') = nm_blocks_sealed (n_metrics n)
     \<and> nm_txs_sealed (n_metrics n') = nm_txs_sealed (n_metrics n)
     \<and> (\<forall>k. chain_key k \<longrightarrow> k \<noteq> META_FAUCET_KEY \<longrightarrow> kv_get (x_kv x) (n_store n') k = kv_get (x_kv x) (n_store n) k)"

lemma quiet_updates [simp]:
  "quiet x n (n\<lparr>n_db := db\<rparr>)" "quiet x n (n\<lparr>n_dag_sender := s\<rparr>)"
  "quiet x n (n\<lparr>n_metrics := (n_metrics n)\<lparr>nm_commits_seen := c\<rparr>\<rparr>)"
  "quiet x n (n\<lparr>n_faucet_key := k\<rparr>)" "quiet x n n"
  by (simp_all add: quiet_def)

lemma quiet_mirrored: "mirrored x n \<Longrightarrow> quiet x n n' \<Longrightarrow> mirrored x n'"
  by (simp add: mirrored_def stored_def height_synced_def quiet_def store_reads keys_neq)

lemma quiet_ledger: "ledger_ok cr n \<Longrightarrow> quiet x n n' \<Longrightarrow> ledger_ok cr n'"
  by (simp add: ledger_ok_def quiet_def)

lemma code_of_quiet: "quiet x n (snd (code_of rv n a))"
  by (auto simp: code_of_def split: prod.splits sum.splits option.splits)

lemma storage_of_quiet: "quiet x n (snd (storage_of rv n a slot))"
  by (auto simp: storage_of_def split: prod.splits)

lemma call_quiet: "quiet x n (snd (call x n c now))"
proof -
  have "\<exists>k db. (case cr_nonce c of Some k \<Rightarrow> (k, n)
      | None \<Rightarrow> (case nonce_of (x_revm x) n a of (Inr k, n') \<Rightarrow> (k, n') | (Inl _, n') \<Rightarrow> (0, n')))
      = (k, n\<lparr>n_db := db\<rparr>)" for a
    using node_db_self [of n] by (auto simp: nonce_of_cases split: option.splits sum.splits)
  then obtain k db where "(case cr_nonce c of Some k \<Rightarrow> (k, n)
      | None \<Rightarrow> (case nonce_of (x_revm x) n (case cr_from c of Some a \<Rightarrow> a | None \<Rightarrow> 0) of
           (Inr k, n') \<Rightarrow> (k, n') | (Inl _, n') \<Rightarrow> (0, n'))) = (k, n\<lparr>n_db := db\<rparr>)" by blast
  note n1 = this
  show ?thesis unfolding call_def Let_def n1 prod.case by (simp split: prod.split sum.split)
qed

lemma set_faucet_key_quiet:
  assumes "kv_ok (x_kv x)"
  shows "quiet x n (snd (set_faucet_key (x_kv x) n secret))"
proof -
  obtain r h where w: "store_set_faucet_key (x_kv x) (n_store n) secret = (r, h)"
    by (cases "store_set_faucet_key (x_kv x) (n_store n) secret")
  have "kv_get (x_kv x) h k = kv_get (x_kv x) (n_store n) k" if "k \<noteq> META_FAUCET_KEY" for k
  proof (cases r)
    case (Inl e)
    with w show ?thesis
      using kv_get_failed_write [OF assms, of "n_store n" "[(META_FAUCET_KEY, to_be_bytes 32 secret)]"]
      by (auto simp: store_set_faucet_key_def kv_put_write [OF assms] Let_def map_err_Inl_iff split: prod.splits)
  next
    case (Inr u)
    with w store_set_faucet_key_ok [OF assms, of "n_store n" secret h k] that show ?thesis by simp
  qed
  then show ?thesis by (cases r) (simp_all add: set_faucet_key_def w quiet_def)
qed

lemma send_quiet_or_seal:
  "send_raw_transaction x n raw now = (r, n') \<Longrightarrow> quiet x n n' \<or> seal_committed x n raw now = (r, n')"
  by (auto simp: send_raw_transaction_def seal_committed_def split: option.splits sum.splits)

text \<open>A step is quiet, or one seal after a quiet change.\<close>

lemma node_step_cases:
  assumes "kv_ok (x_kv x)" and "node_step x n n'"
  obtains "quiet x n n'" | m raw ts r where "quiet x n m" "seal_committed x m raw ts = (r, n')"
  using assms(2)
proof cases
  case (seal raw ts r)
  then show thesis by (intro that(2) [of n]) simp_all
next
  case (send raw now r)
  then show thesis using send_quiet_or_seal [OF send] that(1) that(2) [of n] by auto
next
  case (drip to amt now r)
  then show thesis
  proof (cases rule: faucet_submits [of x n to amt now])
    case (failed e db)
    with drip show thesis by (intro that(1)) auto
  next
    case (sent db raw)
    from sent(1) drip have "send_raw_transaction x (n\<lparr>n_db := db\<rparr>) raw now = (r, n')" by simp
    from send_quiet_or_seal [OF this] that(1) that(2) [of "n\<lparr>n_db := db\<rparr>"] show thesis
      by (auto simp: quiet_def)
  qed
next
  case (eth_call c now out)
  then show thesis using call_quiet [of x n c now] that(1) by simp
next
  case (read_balance a v)
  then show thesis by (intro that(1)) (auto simp: balance_of_cases)
next
  case (read_nonce a k)
  then show thesis by (intro that(1)) (auto simp: nonce_of_cases)
next
  case (read_code a c)
  then show thesis using code_of_quiet [of x n "x_revm x" a] that(1) by simp
next
  case (read_storage a slot v)
  then show thesis using storage_of_quiet [of x n "x_revm x" a slot] that(1) by simp
next
  case (set_key secret u)
  then show thesis using set_faucet_key_quiet [OF assms(1), of n secret] that(1) by simp
next
  case (load_key b)
  then show thesis by (intro that(1)) (auto simp: load_faucet_key_def split: sum.splits option.splits)
next
  case attach
  then show thesis by (intro that(1)) (simp add: set_dag_sender_def)
next
  case commit
  then show thesis by (intro that(1)) (simp add: note_commit_def)
qed

text \<open>The combined invariant, for seals and for steps.\<close>

definition node_inv :: "('db, 'st, 'h) Ext \<Rightarrow> ('db, 'h) KanariNode \<Rightarrow> bool" where
  "node_inv x n \<longleftrightarrow> ledger_ok (x_crypto x) n \<and> mirrored x n"

lemma seal_committed_blocks:
  assumes "kv_ok (x_kv x)" and "seal_committed x n raw ts = (r, n')"
  shows "n_blocks n' = n_blocks n \<or> (\<exists>b. n_blocks n' = n_blocks n @ [b])"
proof (cases r)
  case (Inl e)
  from assms(2) [unfolded Inl seal_committed_def seal_raw_def] show ?thesis
    by (rule seal_failed [OF assms(1)]) simp
next
  case (Inr h)
  from assms(2) [unfolded Inr seal_committed_def seal_raw_def] show ?thesis
    by (rule seal_success_store [OF assms(1)]) simp
qed

lemma seal_committed_inv:
  assumes "kv_ok (x_kv x)" "codec_ok (x_codec x)" "node_inv x n" "length (n_blocks n) + 1 < 2 ^ 64"
    and "seal_committed x n raw ts = (r, n')"
  shows "node_inv x n'"
proof -
  note s = assms(5) [unfolded seal_committed_def seal_raw_def]
  have inv: "ledger_ok (x_crypto x) n" "mirrored x n" using assms(3) by (simp_all add: node_inv_def)
  have num: "numbered (n_blocks n)" using inv(1) by (simp add: ledger_ok_def)
  have "block_number n + 1 \<notin> sb_number ` set (n_blocks n)"
    using fresh_number [OF num assms(4)] by (simp add: block_number_numbered [OF num])
  with seal_mirrored [OF assms(1,2) inv(2) _ s] seal_ledger_ok [OF assms(1) inv(1) assms(4) refl s]
  show ?thesis by (simp add: node_inv_def)
qed

lemma node_step_inv:
  assumes "kv_ok (x_kv x)" "codec_ok (x_codec x)" "node_inv x n" "length (n_blocks n') + 1 < 2 ^ 64"
    and "node_step x n n'"
  shows "node_inv x n' \<and> length (n_blocks n) \<le> length (n_blocks n')"
  using assms(1,5)
proof (cases rule: node_step_cases)
  case 1
  with assms(3) show ?thesis by (auto simp: node_inv_def quiet_def intro: quiet_ledger quiet_mirrored)
next
  case (2 m raw ts r)
  have m: "node_inv x m" using assms(3) 2(1) quiet_ledger quiet_mirrored unfolding node_inv_def by blast
  have grow: "length (n_blocks m) \<le> length (n_blocks n')"
    using seal_committed_blocks [OF assms(1) 2(2)] by auto
  with assms(4) have "length (n_blocks m) + 1 < 2 ^ 64" by simp
  from seal_committed_inv [OF assms(1,2) m this 2(2)] grow 2(1) show ?thesis by (simp add: quiet_def)
qed

lemma reachable_inv:
  assumes "kv_ok (x_kv x)" "codec_ok (x_codec x)" "node_inv x n0"
    and "reachable x n0 n" "length (n_blocks n) + 1 < 2 ^ 64"
  shows "node_inv x n"
  using assms(4,5)
proof induction
  case init
  then show ?case using assms(3) by simp
next
  case (step n n')
  show ?case
  proof -
    have "length (n_blocks n) \<le> length (n_blocks n')"
      using step.hyps(2) assms(1)
      by (cases rule: node_step_cases [OF assms(1) step.hyps(2)])
        (auto simp: quiet_def dest!: seal_committed_blocks [OF assms(1)])
    with step have "node_inv x n" by simp
    from node_step_inv [OF assms(1,2) this step.prems step.hyps(2)] show ?thesis by simp
  qed
qed

section \<open>Opening, on a working disk\<close>

definition env_ok :: "('db, 'st, 'h) Ext \<Rightarrow> ((bytes \<times> bytes) set \<Rightarrow> B256) \<Rightarrow> bool" where
  "env_ok x root_of \<longleftrightarrow> working_disk x root_of \<and> db_ok (x_revm x) \<and> storage_insert_ok (x_revm x)
     \<and> rejects_cleanly (x_revm x) (x_crypto x) \<and> lookups_unobserved (x_revm x) (x_crypto x)"

definition fresh_store :: "'h Kv \<Rightarrow> 'h \<Rightarrow> bool" where
  "fresh_store kv h \<longleftrightarrow> (\<forall>k. chain_key k \<longrightarrow> kv_get kv h k = Inr None)"

lemma bind_out_simps [simp]:
  "bind_out (Returns (Inl e, n)) f = Returns (Inl e, n)" "bind_out (Returns (Inr y, n)) f = f y n"
  by (simp_all add: bind_out_def)

lemma start_genesis_ok:
  assumes "env_ok x root_of" and "apply_genesis (x_revm x) (n_spec n) (n_db n) = Returns db"
  obtains h where "start_genesis x n = Returns (Inr (), n\<lparr>n_db := db, n_store := h,
       n_genesis_root := root_of (set (smt_entries (x_revm x) (x_crypto x) db))\<rparr>)"
    "same_chain_data (x_kv x) (n_store n) h"
proof -
  have disk: "kv_reliable (x_kv x) root_of" "kv_ok (x_kv x)" using assms(1) by (simp_all add: env_ok_def working_disk_def)
  show thesis
    by (rule that [where h = "snd (smt_rebuild (x_kv x) (n_store n) (smt_entries (x_revm x) (x_crypto x) db))"])
      (simp_all add: start_genesis_def rebuild_smt_reliable [OF disk(1)] assms(2) same_chain_data_rebuild [OF disk(2)])
qed

lemma init_meta_reliable:
  assumes "working_disk x root_of"
  obtains h' where "init_meta (x_kv x) (x_codec x) h c alloc = (Inr (), h')"
proof -
  obtain ab where "ser_alloc (x_codec x) alloc = Inr ab"
    using assms unfolding working_disk_def codec_ok_def by metis
  then have "init_meta (x_kv x) (x_codec x) h c alloc = (Inr (), snd (kv_write (x_kv x) h
      [(META_CHAIN_ID, to_le_bytes 8 c), (META_GENESIS, ab)]))"
    using assms by (auto simp: init_meta_def working_disk_def kv_reliable_def split: prod.splits) (metis fst_conv map_err_simps(2))
  then show thesis by (rule that)
qed

text \<open>Creating a node on an empty store, for a specification whose genesis can be built.\<close>

lemma open_fresh:
  assumes env: "env_ok x root_of" and "fresh_store (x_kv x) h" and "lf_journal fs = None"
    and gen: "apply_genesis (x_revm x) spec (rv_default (x_revm x)) = Returns db"
  obtains n0 where "open_node x fs spec (Inr h) = Returns (Inr n0)" "n_spec n0 = spec" "n_blocks n0 = []"
    "n_receipts n0 = Map.empty" "node_inv x n0" "n_dag_sender n0 = None"
    "apply_genesis (x_revm x) spec (rv_default (x_revm x)) = Returns (n_db n0)"
    "n_genesis_root n0 = root_of (set (smt_entries (x_revm x) (x_crypto x) (n_db n0)))"
    "store_load_faucet_key (x_kv x) (n_store n0) = Inr None"
proof -
  have disk: "working_disk x root_of" and kv: "kv_ok (x_kv x)" and cd: "codec_ok (x_codec x)"
    using env by (simp_all add: env_ok_def working_disk_def)
  obtain h1 where h1: "init_meta (x_kv x) (x_codec x) h (cs_chain_id spec) (cs_genesis_alloc spec) = (Inr (), h1)"
    by (rule init_meta_reliable [OF disk])
  let ?n = "fresh_node spec (rv_default (x_revm x)) h1"
  obtain h2 where g: "start_genesis x ?n = Returns (Inr (), ?n\<lparr>n_db := db, n_store := h2,
         n_genesis_root := root_of (set (smt_entries (x_revm x) (x_crypto x) db))\<rparr>)"
      "same_chain_data (x_kv x) h1 h2"
    by (rule start_genesis_ok [OF env, of ?n db]) (simp_all add: fresh_node_def gen)
  let ?n0 = "?n\<lparr>n_db := db, n_store := h2,
         n_genesis_root := root_of (set (smt_entries (x_revm x) (x_crypto x) db))\<rparr>"
  obtain ab where ab: "ser_alloc (x_codec x) (cs_genesis_alloc spec) = Inr ab"
    and h1get: "\<And>k. kv_get (x_kv x) h1 k = (if k = META_CHAIN_ID then Inr (Some (to_le_bytes 8 (cs_chain_id spec)))
         else if k = META_GENESIS then Inr (Some ab) else kv_get (x_kv x) h k)"
    using init_meta_ok [OF kv h1] by blast
  have get: "kv_get (x_kv x) h2 k = (if k = META_CHAIN_ID then Inr (Some (to_le_bytes 8 (cs_chain_id spec)))
         else if k = META_GENESIS then Inr (Some ab) else Inr None)" if "chain_key k" for k
    using that g(2) h1get assms(2) by (simp add: same_chain_data_def fresh_store_def)
  have empty: "stored_chain_id (x_kv x) h = Inr None"
    using assms(2) by (simp add: fresh_store_def store_reads)
  have nofaucet: "pick_up_faucet_key x ?n0 = (Inr (), ?n0)"
    by (simp add: pick_up_faucet_key_def store_reads get keys_neq)
  show thesis
  proof (rule that)
    show "open_node x fs spec (Inr h) = Returns (Inr ?n0)"
      using g(1) h1 nofaucet assms(3)
      by (simp add: open_node_def empty open_create_def node_init_meta_def fresh_node_def Let_def)
    show "node_inv x ?n0"
      by (simp add: node_inv_def ledger_ok_def receipts_ok_def mirrored_def stored_def height_synced_def
          fresh_node_def store_reads get keys_neq codec_alloc [OF cd ab])
  qed (simp_all add: fresh_node_def gen store_reads get keys_neq)
qed

text \<open>An open on an empty store that returned a node has built its genesis.\<close>

lemma opened_genesis:
  assumes "fresh_store (x_kv x) h" and "lf_journal fs = None" and "open_node x fs spec (Inr h) = Returns r"
    and "init_meta (x_kv x) (x_codec x) h (cs_chain_id spec) (cs_genesis_alloc spec) = (Inr (), h1)"
  obtains db where "apply_genesis (x_revm x) spec (rv_default (x_revm x)) = Returns db"
proof (cases "apply_genesis (x_revm x) spec (rv_default (x_revm x))")
  case Panics
  have "stored_chain_id (x_kv x) h = Inr None" using assms(1) by (simp add: fresh_store_def store_reads)
  with assms(2-4) Panics have False
    by (simp add: open_node_def open_create_def node_init_meta_def start_genesis_def fresh_node_def Let_def bind_out_def)
  then show thesis ..
qed (rule that)

lemma opened_fresh:
  assumes env: "env_ok x root_of" and "fresh_store (x_kv x) h" and "lf_journal fs = None"
    and opened: "open_node x fs spec (Inr h) = Returns (Inr n0)"
  shows "n_spec n0 = spec" "n_blocks n0 = []" "n_receipts n0 = Map.empty" "node_inv x n0" "n_dag_sender n0 = None"
    "apply_genesis (x_revm x) spec (rv_default (x_revm x)) = Returns (n_db n0)"
    "n_genesis_root n0 = root_of (set (smt_entries (x_revm x) (x_crypto x) (n_db n0)))"
    "store_load_faucet_key (x_kv x) (n_store n0) = Inr None"
proof -
  have disk: "working_disk x root_of" using env by (simp add: env_ok_def)
  obtain h1 where h1: "init_meta (x_kv x) (x_codec x) h (cs_chain_id spec) (cs_genesis_alloc spec) = (Inr (), h1)"
    by (rule init_meta_reliable [OF disk])
  obtain db where db: "apply_genesis (x_revm x) spec (rv_default (x_revm x)) = Returns db"
    by (rule opened_genesis [OF assms(2,3) opened h1])
  show "n_spec n0 = spec" "n_blocks n0 = []" "n_receipts n0 = Map.empty" "node_inv x n0" "n_dag_sender n0 = None"
    "apply_genesis (x_revm x) spec (rv_default (x_revm x)) = Returns (n_db n0)"
    "n_genesis_root n0 = root_of (set (smt_entries (x_revm x) (x_crypto x) (n_db n0)))"
    "store_load_faucet_key (x_kv x) (n_store n0) = Inr None"
    using opened by (rule_tac open_fresh [OF env assms(2,3) db], simp)+
qed

section \<open>Plain steps, on a working disk\<close>

text \<open>Changes that neither the chain nor the program can see.\<close>

definition key_ok :: "('db, 'st, 'h) Ext \<Rightarrow> ('db, 'h) KanariNode \<Rightarrow> bool" where
  "key_ok x n \<longleftrightarrow> (\<exists>k. store_load_faucet_key (x_kv x) (n_store n) = Inr k)"

definition unseen :: "('db, 'st, 'h) Ext \<Rightarrow> ('db, 'h) KanariNode \<Rightarrow> ('db, 'h) KanariNode \<Rightarrow> bool" where
  "unseen x n n' \<longleftrightarrow> quiet x n n' \<and> db_sim (x_revm x) (x_crypto x) True (n_db n') (n_db n)
     \<and> (key_ok x n \<longrightarrow> key_ok x n')"

lemma unseen_updates [simp]:
  "db_sim (x_revm x) (x_crypto x) True db (n_db n) \<Longrightarrow> unseen x n (n\<lparr>n_db := db\<rparr>)"
  "unseen x n (n\<lparr>n_dag_sender := s\<rparr>)" "unseen x n (n\<lparr>n_metrics := (n_metrics n)\<lparr>nm_commits_seen := c\<rparr>\<rparr>)"
  "unseen x n (n\<lparr>n_faucet_key := k\<rparr>)" "unseen x n n"
  by (simp_all add: unseen_def key_ok_def)

lemma unseen_replica: "unseen x n n' \<Longrightarrow> same_replica x True n' n"
  by (simp add: unseen_def quiet_def same_replica_def)

lemma set_faucet_key_unseen:
  assumes "working_disk x root_of"
  shows "unseen x n (snd (set_faucet_key (x_kv x) n secret))"
proof -
  have kv: "kv_ok (x_kv x)" "kv_reliable (x_kv x) root_of" using assms by (simp_all add: working_disk_def)
  let ?w = "kv_write (x_kv x) (n_store n) [(META_FAUCET_KEY, to_be_bytes 32 secret)]"
  have "fst ?w = Inr ()" using kv(2) by (simp add: kv_reliable_def)
  then obtain h where w: "store_set_faucet_key (x_kv x) (n_store n) secret = (Inr (), h)"
    by (cases ?w) (simp add: store_set_faucet_key_def kv_put_write [OF kv(1)])
  then have "kv_get (x_kv x) h META_FAUCET_KEY = Inr (Some (to_be_bytes 32 secret))"
    using store_set_faucet_key_ok [OF kv(1) w, of META_FAUCET_KEY] by simp
  then have "\<exists>k. store_load_faucet_key (x_kv x) h = Inr k" by (simp add: store_reads)
  with set_faucet_key_quiet [OF kv(1), of n secret] w show ?thesis
    by (simp add: unseen_def set_faucet_key_def key_ok_def)
qed

lemma send_unseen_or_seal:
  "send_raw_transaction x n raw now = (r, n') \<Longrightarrow> unseen x n n' \<or> seal_committed x n raw now = (r, n')"
  by (auto simp: send_raw_transaction_def seal_committed_def split: option.splits sum.splits)

lemma plain_step_cases:
  assumes "env_ok x root_of" and "plain_step x n n'"
  obtains "unseen x n n'" | m raw ts r where "unseen x n m" "seal_committed x m raw ts = (r, n')" "plain_run x n m"
proof -
  have disk: "working_disk x root_of" and look: "lookups_unobserved (x_revm x) (x_crypto x)"
    using assms(1) by (simp_all add: env_ok_def)
  note looks = lookups_sim(1) [OF look]
  from assms(2) show thesis
  proof cases
    case (seal raw ts r)
    then show thesis by (intro that(2) [of n]) (simp_all add: plain_run.start)
  next
    case (send raw now r)
    then show thesis using send_unseen_or_seal [OF send] that(1) that(2) [OF _ _ plain_run.start] by auto
  next
    case (drip to amt now r)
    then show thesis
    proof (cases rule: faucet_submits [of x n to amt now])
      case (failed e db)
      with drip look show thesis by (intro that(1)) auto
    next
      case (sent db raw)
      then have still: "unseen x n (n\<lparr>n_db := db\<rparr>)" using look by simp
      have run: "plain_run x n (n\<lparr>n_db := db\<rparr>)" using sent(3) by (auto intro: plain_run_lookups)
      from sent(1) drip have "send_raw_transaction x (n\<lparr>n_db := db\<rparr>) raw now = (r, n')" by simp
      from send_unseen_or_seal [OF this] show thesis
      proof
        assume "unseen x (n\<lparr>n_db := db\<rparr>) n'"
        with still show thesis by (intro that(1)) (auto simp: unseen_def quiet_def intro: db_sim_trans)
      qed (rule that(2) [OF still _ run])
    qed
  next
    case (read_balance a v)
    then show thesis by (intro that(1)) (auto simp: balance_of_cases looks)
  next
    case (read_nonce a k)
    then show thesis by (intro that(1)) (auto simp: nonce_of_cases looks)
  next
    case (read_code a c)
    then show thesis using looks [of "n_db n" a]
      by (intro that(1)) (auto simp: code_of_def split: prod.splits sum.splits option.splits if_splits)
  next
    case (set_key secret u)
    then show thesis using set_faucet_key_unseen [OF disk, of n secret] that(1) by simp
  next
    case (load_key b)
    then show thesis by (intro that(1)) (auto simp: load_faucet_key_def split: sum.splits option.splits)
  next
    case attach
    then show thesis by (intro that(1)) (simp add: set_dag_sender_def)
  next
    case commit
    then show thesis by (intro that(1)) (simp add: note_commit_def)
  qed
qed

section \<open>Restart\<close>

definition at_genesis :: "('db, 'st, 'h) Ext \<Rightarrow> ('db, 'h) KanariNode \<Rightarrow> bool" where
  "at_genesis x n \<longleftrightarrow> n_blocks n = [] \<and> n_receipts n = Map.empty
     \<and> apply_genesis (x_revm x) (n_spec n) (rv_default (x_revm x)) = Returns (n_db n)"

text \<open>The specification given on a restart: allocations come from the store when it has any.\<close>

definition restart_spec :: "KanariChainSpec \<Rightarrow> KanariChainSpec \<Rightarrow> bool" where
  "restart_spec spec spec' \<longleftrightarrow>
     spec = (if cs_genesis_alloc spec = [] then spec' else spec'\<lparr>cs_genesis_alloc := cs_genesis_alloc spec\<rparr>)"

lemma restart_spec_chain_id: "restart_spec spec spec' \<Longrightarrow> cs_chain_id spec' = cs_chain_id spec"
  unfolding restart_spec_def by (metis KanariChainSpec.select_convs(1) KanariChainSpec.surjective
      KanariChainSpec.update_convs(3))

lemma linked_single_tx: "linked cr bs \<Longrightarrow> b \<in> set bs \<Longrightarrow> length (sb_txs b) = 1"
  by (auto simp: linked_def in_set_conv_nth)

text \<open>Sealing and replay leave the faucet key alone.\<close>

lemma seal_keeps_faucet:
  assumes "kv_ok (x_kv x)" and "seal_raw_with_fee x n raw number ts fee = (r, n')"
  shows "n_spec n' = n_spec n
    \<and> kv_get (x_kv x) (n_store n') META_FAUCET_KEY = kv_get (x_kv x) (n_store n) META_FAUCET_KEY"
proof (cases r)
  case (Inl e)
  from assms(2) [unfolded Inl] show ?thesis
    by (rule seal_failed [OF assms(1)]) (simp add: same_chain_data_def)
next
  case (Inr hash)
  from assms(2) [unfolded Inr] show ?thesis
  proof (rule seal_success_store [OF assms(1)])
    fix b q h1
    assume "same_chain_data (x_kv x) (n_store n) h1" "n_spec n' = n_spec n"
      and save: "save_block (x_kv x) (x_codec x) h1 b [(hash, q)] = (Inr (), n_store n')"
    then show ?thesis
      by (rule_tac save_block_ok [OF assms(1) save]) (simp add: keys_neq same_chain_data_def)
  qed
qed

lemma replay_txs_keeps_faucet:
  assumes "kv_ok (x_kv x)"
  shows "replay_txs x b raws n = (r, n') \<Longrightarrow>
    kv_get (x_kv x) (n_store n') META_FAUCET_KEY = kv_get (x_kv x) (n_store n) META_FAUCET_KEY"
proof (induction raws arbitrary: n)
  case (Cons raw raws)
  obtain q m where m: "seal_raw_with_fee x n raw (sb_number b) (sb_timestamp b) (sb_base_fee b) = (q, m)"
    by (cases "seal_raw_with_fee x n raw (sb_number b) (sb_timestamp b) (sb_base_fee b)")
  with seal_keeps_faucet [OF assms m] Cons show ?case
    by (cases q) (auto simp: Let_def split: if_splits)
qed simp

lemma replay_keeps_faucet:
  assumes "kv_ok (x_kv x)"
  shows "replay_blocks x bs n = (r, n') \<Longrightarrow>
    kv_get (x_kv x) (n_store n') META_FAUCET_KEY = kv_get (x_kv x) (n_store n) META_FAUCET_KEY"
proof (induction bs arbitrary: n)
  case (Cons b bs)
  obtain q m where m: "replay_txs x b (sb_txs b) n = (q, m)" by (cases "replay_txs x b (sb_txs b) n")
  with replay_txs_keeps_faucet [OF assms m] Cons show ?case by (cases q) auto
qed simp

text \<open>Reopening reaches genesis again and replays the stored blocks from there.\<close>

lemma open_existing_starts:
  assumes env: "env_ok x root_of" and inv: "node_inv x n" and spec: "restart_spec (n_spec n) spec'"
    and gen: "apply_genesis (x_revm x) (n_spec n) (rv_default (x_revm x)) = Returns db"
  obtains m0 where "open_existing x (cs_chain_id (n_spec n)) (fresh_node spec' (rv_default (x_revm x)) (n_store n))
      = Returns (replay_blocks x (n_blocks n) m0)" "at_genesis x m0" "n_spec m0 = n_spec n"
    "same_chain_data (x_kv x) (n_store n) (n_store m0)"
proof -
  have led: "numbered (n_blocks n)" and st: "stored x n" "height_synced x n"
    using inv by (simp_all add: node_inv_def ledger_ok_def mirrored_def)
  let ?f = "fresh_node (n_spec n) (rv_default (x_revm x)) (n_store n)"
  obtain h where g: "start_genesis x ?f = Returns (Inr (), ?f\<lparr>n_db := db, n_store := h,
         n_genesis_root := root_of (set (smt_entries (x_revm x) (x_crypto x) db))\<rparr>)"
      "same_chain_data (x_kv x) (n_store n) h"
    by (rule start_genesis_ok [OF env, of ?f db]) (simp_all add: fresh_node_def gen)
  let ?m0 = "?f\<lparr>n_db := db, n_store := h, n_genesis_root := root_of (set (smt_entries (x_revm x) (x_crypto x) db))\<rparr>"
  have load: "load_blocks (x_kv x) (x_codec x) h = Inr (n_blocks n)"
    using load_blocks_cong [of "x_kv x" h "n_store n" "x_codec x"] g(2) st
      load_blocks_present [OF led, of "x_kv x" "x_codec x" "n_store n"]
    by (simp add: same_chain_data_def stored_def height_synced_def)
  let ?f' = "fresh_node spec' (rv_default (x_revm x)) (n_store n)"
  have "(if cs_genesis_alloc (n_spec n) = [] then ?f'
      else ?f'\<lparr>n_spec := (n_spec ?f')\<lparr>cs_genesis_alloc := cs_genesis_alloc (n_spec n)\<rparr>\<rparr>) = ?f"
    using spec by (auto simp: restart_spec_def fresh_node_def split: if_splits)
  moreover have "stored_genesis_alloc (x_kv x) (x_codec x) (n_store ?f') = Inr (cs_genesis_alloc (n_spec n))"
    using st(1) by (simp add: stored_def fresh_node_def)
  moreover have "cs_chain_id (n_spec ?f') = cs_chain_id (n_spec n)"
    using restart_spec_chain_id [OF spec] by (simp add: fresh_node_def)
  ultimately have "open_existing x (cs_chain_id (n_spec n)) ?f' = Returns (replay_blocks x (n_blocks n) ?m0)"
    using g(1) load by (simp add: open_existing_def Let_def)
  then show thesis
    using g gen by (intro that [of ?m0]) (simp_all add: at_genesis_def fresh_node_def)
qed

lemma at_genesis_replica: "at_genesis x n \<Longrightarrow> at_genesis x m \<Longrightarrow> n_spec n = n_spec m \<Longrightarrow> same_replica x roots n m"
  by (simp add: at_genesis_def same_replica_def)

text \<open>Replay keeps up with any plain run.\<close>

lemma plain_run_replays:
  assumes env: "env_ok x root_of" and "replays_to x m0 n0" and "plain_run x n0 n"
  shows "replays_to x m0 n"
  using assms(3)
proof induction
  case start
  show ?case by (rule assms(2))
next
  case (step n n')
  have rv: "working_disk x root_of" "db_ok (x_revm x)" "rejects_cleanly (x_revm x) (x_crypto x)"
    using env by (simp_all add: env_ok_def)
  from env step.hyps(2) show ?case
  proof (cases rule: plain_step_cases)
    case 1
    from replays_to_same [OF step.IH unseen_replica [OF 1]] show ?thesis .
  next
    case (2 m raw ts r)
    from replays_to_seal [OF rv replays_to_same [OF step.IH unseen_replica [OF 2(1)]] 2(2)] show ?thesis .
  qed
qed

lemma open_existing_replays:
  assumes env: "env_ok x root_of" and gen: "at_genesis x n0" and inv: "node_inv x n"
    and run: "plain_run x n0 n" and spec: "n_spec n0 = n_spec n" "restart_spec (n_spec n) spec'"
  obtains m where "open_existing x (cs_chain_id (n_spec n)) (fresh_node spec' (rv_default (x_revm x)) (n_store n))
      = Returns (Inr (), m)" "same_replica x True n m" "mirrored x m"
    "store_load_faucet_key (x_kv x) (n_store m) = store_load_faucet_key (x_kv x) (n_store n)"
proof -
  have disk: "working_disk x root_of" and kv: "kv_ok (x_kv x)" and cd: "codec_ok (x_codec x)"
    using env by (simp_all add: env_ok_def working_disk_def)
  have led: "numbered (n_blocks n)" "linked (x_crypto x) (n_blocks n)" and st: "stored x n" "height_synced x n"
    using inv by (simp_all add: node_inv_def ledger_ok_def mirrored_def)
  obtain m0 where m0: "open_existing x (cs_chain_id (n_spec n)) (fresh_node spec' (rv_default (x_revm x)) (n_store n))
      = Returns (replay_blocks x (n_blocks n) m0)" "at_genesis x m0" "n_spec m0 = n_spec n"
      "same_chain_data (x_kv x) (n_store n) (n_store m0)"
    by (rule open_existing_starts [OF env inv spec(2)]) (use gen spec(1) in \<open>simp_all add: at_genesis_def\<close>)
  have "same_replica x True n0 m0" using gen m0(2) spec(1) m0(3) by (intro at_genesis_replica) simp_all
  then have "replays_to x m0 n0" using gen by (simp add: replays_to_def at_genesis_def)
  from plain_run_replays [OF env this run] obtain m where
    m: "replay_blocks x (n_blocks n) m0 = (Inr (), m)" "same_replica x True n m" by (auto simp: replays_to_def)
  have "stored x m0" "height_synced x m0 \<or> n_blocks n \<noteq> []" "n_blocks m0 = []"
    using st m0 by (auto simp: stored_def height_synced_def store_reads same_chain_data_def at_genesis_def)
  moreover from calculation have "numbered (n_blocks m0 @ n_blocks n)" using led(1) by simp
  ultimately have "mirrored x m"
    using replay_stored [OF kv cd _ _ linked_single_tx [OF led(2)] m(1)] by (auto simp: mirrored_def)
  moreover have "store_load_faucet_key (x_kv x) (n_store m) = store_load_faucet_key (x_kv x) (n_store n)"
    using replay_keeps_faucet [OF kv m(1)] m0(4) by (simp add: store_reads same_chain_data_def)
  ultimately show thesis using m0(1) m by (intro that [of m]) simp_all
qed

lemma open_node_existing:
  assumes "stored_chain_id (x_kv x) h = Inr (Some c)"
    and "open_existing x c (fresh_node spec (rv_default (x_revm x)) h) = Returns (Inr (), m)"
    and "pick_up_faucet_key x m = (Inr (), m')"
  shows "open_node x fs spec (Inr h) = Returns (Inr m')"
  using assms by (simp add: open_node_def Let_def)

lemma open_node_failing:
  assumes "stored_chain_id (x_kv x) h = Inr (Some c)"
    and "open_existing x c (fresh_node spec (rv_default (x_revm x)) h) = Returns (Inl e, m)"
  shows "open_node x fs spec (Inr h) = Returns (Inl e)"
  using assms by (simp add: open_node_def Let_def)

lemma plain_run_keeps:
  assumes env: "env_ok x root_of" and "plain_run x n0 n"
  shows "n_spec n = n_spec n0 \<and> (key_ok x n0 \<longrightarrow> key_ok x n)"
  using assms(2)
proof induction
  case (step n n')
  have kv: "kv_ok (x_kv x)" using env by (simp add: env_ok_def working_disk_def)
  from env step.hyps(2) show ?case
  proof (cases rule: plain_step_cases)
    case 1
    with step.IH show ?thesis by (simp add: unseen_def quiet_def)
  next
    case (2 m raw ts r)
    from seal_keeps_faucet [OF kv 2(2) [unfolded seal_committed_def seal_raw_def]] 2(1) step.IH
    show ?thesis by (simp add: store_reads key_ok_def unseen_def quiet_def)
  qed
qed simp

text \<open>Reopening the store of a node that ran plainly from a fresh one.\<close>

lemma restart_replica:
  assumes env: "env_ok x root_of" and "fresh_store (x_kv x) h" and "lf_journal fs = None"
    and opened: "open_node x fs spec (Inr h) = Returns (Inr n0)"
    and run: "plain_run x n0 n" and "length (n_blocks n) + 1 < 2 ^ 64"
    and spec: "restart_spec spec spec'"
  shows "\<exists>m. open_node x fs' spec' (Inr (n_store n)) = Returns (Inr m) \<and> same_replica x True n m \<and> mirrored x m"
proof -
  have kv: "kv_ok (x_kv x)" and cd: "codec_ok (x_codec x)" using env by (simp_all add: env_ok_def working_disk_def)
  have n0: "n_spec n0 = spec" "at_genesis x n0" "node_inv x n0" "key_ok x n0"
    using opened_fresh [OF env assms(2-4)] by (simp_all add: at_genesis_def key_ok_def)
  have inv: "node_inv x n" by (rule reachable_inv [OF kv cd n0(3) plain_run_reachable [OF run] assms(6)])
  have sp: "n_spec n = spec" "key_ok x n" using plain_run_keeps [OF env run] n0 by simp_all
  obtain m where m: "open_existing x (cs_chain_id (n_spec n)) (fresh_node spec' (rv_default (x_revm x)) (n_store n))
      = Returns (Inr (), m)" "same_replica x True n m" "mirrored x m"
      "store_load_faucet_key (x_kv x) (n_store m) = store_load_faucet_key (x_kv x) (n_store n)"
    using open_existing_replays [OF env n0(2) inv run] n0(1) sp(1) spec by metis
  have chain: "stored_chain_id (x_kv x) (n_store n) = Inr (Some (cs_chain_id (n_spec n)))"
    using inv by (simp add: node_inv_def mirrored_def stored_def)
  from sp(2) m(4) obtain k where "store_load_faucet_key (x_kv x) (n_store m) = Inr k" by (auto simp: key_ok_def)
  then obtain m' where "pick_up_faucet_key x m = (Inr (), m')" "m' = m \<or> (\<exists>s. m' = m\<lparr>n_faucet_key := Some s\<rparr>)"
    by (cases k) (auto simp: pick_up_faucet_key_def)
  with open_node_existing [OF chain m(1)] m(2,3) quiet_mirrored [OF m(3), of m'] show ?thesis
    by (intro exI [of _ m']) (auto simp: same_replica_def)
qed

section \<open>Supply along a chain\<close>

lemma seal_supply_le:
  assumes "db_ok (x_revm x)" and "never_mints (x_revm x)"
    and "total_supply (x_revm x) (n_db n) < 2 ^ 256"
    and "seal_raw_with_fee x n raw number ts fee = (Inr hash, n')"
  shows "total_supply (x_revm x) (n_db n') \<le> total_supply (x_revm x) (n_db n)"
  using assms(4)
proof (rule seal_success)
  fix p res db1 db2 root h1 h2
  assume t: "transact_raw (x_revm x) (x_pqc x) (n_db n) (n_spec n) p number ts fee = (Inr res, db1)"
    and pay: "pay_base_fee (x_revm x) (n\<lparr>n_db := db1\<rparr>) (tx_gas_used res) fee = (Inr (), n\<lparr>n_db := db2\<rparr>)"
    and n': "n' = push_sealed (n\<lparr>n_db := db2, n_store := h2\<rparr>)
       (sealed_block (x_crypto x) (n_blocks n) raw number ts fee root)
       (keccak256 (x_crypto x) raw) (sealed_receipt (x_crypto x) (n_blocks n) raw number ts p res)"
  have basefee: "evm_basefee (block_evm (x_pqc x) (n_spec n) number ts fee) = fee"
    by (simp add: block_evm_def build_kanari_evm_def)
  from t obtain st dbx where tr: "rv_transact (x_revm x) (block_evm (x_pqc x) (n_spec n) number ts fee) (n_db n) (pt_inner p)
      = (Inr (res, st), dbx)" "db1 = rv_commit (x_revm x) dbx st"
    by (auto simp: transact_raw_def split: prod.splits sum.splits)
  have db1: "total_supply (x_revm x) db1 + unat (tx_gas_used res) * unat fee \<le> total_supply (x_revm x) (n_db n)"
    using assms(2) [unfolded never_mints_def, THEN conjunct1, rule_format, OF tr(1)] by (simp add: basefee tr(2))
  obtain db' where "pay_base_fee (x_revm x) (n\<lparr>n_db := db1\<rparr>) (tx_gas_used res) fee = (Inr (), n\<lparr>n_db := db'\<rparr>)"
      "total_supply (x_revm x) db' = total_supply (x_revm x) db1 + unat (tx_gas_used res) * unat fee"
    by (rule pay_base_fee_supply [OF assms(1), of "n\<lparr>n_db := db1\<rparr>" "tx_gas_used res" fee])
      (use db1 assms(3) in auto)
  with pay have "total_supply (x_revm x) db2 = total_supply (x_revm x) db1 + unat (tx_gas_used res) * unat fee"
    by (metis KanariNode.select_convs(2) KanariNode.surjective KanariNode.update_convs(2) prod.inject)
  with db1 show ?thesis by (simp add: n')
qed

text \<open>
  A quantity that plain changes keep and seals do not raise (or keep) is bounded (or constant) along a run. The seals on
  the way from one node to another, each of which may be required to burn the base fee and nothing else:
\<close>

definition burns_on_run :: "('db, 'st, 'h) Ext \<Rightarrow> ('db, 'h) KanariNode \<Rightarrow> ('db, 'h) KanariNode \<Rightarrow> bool" where
  "burns_on_run x n0 n \<longleftrightarrow> (\<forall>m raw ts hash m'.
     plain_run x n0 m \<longrightarrow> seal_committed x m raw ts = (Inr hash, m') \<longrightarrow> plain_run x m' n \<longrightarrow>
       fee_rule x m raw (block_number m + 1) ts (ucast (pending_base_fee (x_crypto x) m)))"

lemma burns_on_run_step: "burns_on_run x n0 n' \<Longrightarrow> plain_step x n n' \<Longrightarrow> burns_on_run x n0 n"
  unfolding burns_on_run_def by (metis plain_run.step)

lemma plain_run_supply:
  assumes env: "env_ok x root_of" and "never_mints (x_revm x)"
    and "total_supply (x_revm x) (n_db n0) < 2 ^ 256" and "plain_run x n0 n"
  shows "total_supply (x_revm x) (n_db n) \<le> total_supply (x_revm x) (n_db n0)
    \<and> (burns_on_run x n0 n \<longrightarrow>
      total_supply (x_revm x) (n_db n) = total_supply (x_revm x) (n_db n0))"
  using assms(4)
proof induction
  case (step n n')
  have env': "db_ok (x_revm x)" "rejects_cleanly (x_revm x) (x_crypto x)" "working_disk x root_of"
    using env by (simp_all add: env_ok_def)
  let ?s = "\<lambda>n. total_supply (x_revm x) (n_db n)"
  have still: "?s m = ?s n" if "unseen x n m" for m
    by (rule db_sim_supply [where cr = "x_crypto x" and roots = True]) (use that in \<open>simp add: unseen_def\<close>)
  have seal: "?s n' \<le> ?s m \<and> (burns_on_run x n0 n' \<longrightarrow> ?s n' = ?s m)"
    if "?s m < 2 ^ 256" and s: "seal_committed x m raw ts = (r, n')" and m: "plain_run x n0 m" for m raw ts r
  proof (cases r)
    case (Inl e)
    from seal_failed_same [OF env' s [unfolded Inl]] have "db_sim (x_revm x) (x_crypto x) True (n_db n') (n_db m)"
      by (simp add: same_replica_def)
    from db_sim_supply [OF this] show ?thesis by simp
  next
    case (Inr hash)
    note s' = s [unfolded Inr seal_committed_def seal_raw_def]
    show ?thesis
    proof (intro conjI impI)
      show "?s n' \<le> ?s m" by (rule seal_supply_le [OF env'(1) assms(2) that(1) s'])
      assume "burns_on_run x n0 n'"
      with m s [unfolded Inr] have "fee_rule x m raw (block_number m + 1) ts (ucast (pending_base_fee (x_crypto x) m))"
        unfolding burns_on_run_def by (metis plain_run.start)
      from seal_supply [OF env'(1) this that(1) s'] show "?s n' = ?s m" .
    qed
  qed
  from env step.hyps(2) show ?case
  proof (cases rule: plain_step_cases)
    case 1
    from step.IH burns_on_run_step [OF _ step.hyps(2), of n0] show ?thesis unfolding still [OF 1] by blast
  next
    case (2 m raw ts r)
    have "?s m < 2 ^ 256"
      using le_less_trans [OF conjunct1 [OF step.IH] assms(3)] unfolding still [OF 2(1)] .
    from seal [OF this 2(2) plain_run_trans [OF 2(3) step.hyps(1)]] step.IH burns_on_run_step [OF _ step.hyps(2), of n0]
    show ?thesis unfolding still [OF 2(1)] by (metis order_trans)
  qed
qed simp

lemma node_supply_sum:
  assumes "sum_list (map (\<lambda>(a, v). unat v) (cs_genesis_alloc (n_spec n))) < 2 ^ 256"
  shows "unat (fst (node_supply n)) = sum_list (map (\<lambda>(a, v). unat v) (cs_genesis_alloc (n_spec n)))"
proof -
  have "unat (foldl (\<lambda>acc (_, balance). sat_add acc balance) acc alloc)
      = unat acc + sum_list (map (\<lambda>(a, v). unat v) alloc)"
    if "unat acc + sum_list (map (\<lambda>(a, v). unat v) alloc) < 2 ^ 256"
    for acc :: U256 and alloc :: "(Address \<times> U256) list"
    using that
  proof (induction alloc arbitrary: acc)
    case (Cons p alloc)
    obtain a v where p: "p = (a, v)" by (cases p)
    with Cons.prems have "unat (sat_add acc v) = unat acc + unat v" by (simp add: unat_sat_add)
    with Cons show ?case by (simp add: p add.assoc)
  qed simp
  from this [of 0] assms show ?thesis by (simp add: node_supply_def)
qed

text \<open>What a successful replay guarantees, transaction by transaction: each is sealed again as the stored block has it.\<close>

definition replayed :: "SealedBlock \<times> bytes \<Rightarrow> SealedBlock \<Rightarrow> bool" where
  "replayed = (\<lambda>(b, raw) c. sb_number c = sb_number b \<and> sb_timestamp c = sb_timestamp b \<and> sb_txs c = [raw]
     \<and> sb_base_fee c = sb_base_fee b \<and> sb_hash c = sb_hash b
     \<and> (sb_state_root b = None \<or> sb_state_root c = sb_state_root b))"

definition block_txs :: "SealedBlock list \<Rightarrow> (SealedBlock \<times> bytes) list" where
  "block_txs bs = concat (map (\<lambda>b. map (Pair b) (sb_txs b)) bs)"

lemma replay_txs_match:
  assumes "linked (x_crypto x) (n_blocks n)" and "replay_txs x b raws n = (Inr (), n')"
  shows "\<exists>cs. n_blocks n' = n_blocks n @ cs \<and> list_all2 replayed (map (Pair b) raws) cs
    \<and> linked (x_crypto x) (n_blocks n')"
  using assms
proof (induction raws arbitrary: n)
  case Nil
  then show ?case by simp
next
  case (Cons raw raws)
  from Cons.prems(2) obtain hash n1 where
      s: "seal_raw_with_fee x n raw (sb_number b) (sb_timestamp b) (sb_base_fee b) = (Inr hash, n1)"
      and ok: "sb_hash (last (n_blocks n1)) = sb_hash b"
        "sb_state_root b = None \<or> sb_state_root (last (n_blocks n1)) = sb_state_root b"
      and rest: "replay_txs x b raws n1 = (Inr (), n')"
    by (auto simp: bind_node_Inr_iff Let_def split: if_splits prod.splits sum.splits)
  from s obtain root c where c: "n_blocks n1 = n_blocks n @ [c]"
      "c = sealed_block (x_crypto x) (n_blocks n) raw (sb_number b) (sb_timestamp b) (sb_base_fee b) root"
    by (rule seal_success) auto
  then have "replayed (b, raw) c" using ok by (simp add: replayed_def)
  moreover have "linked (x_crypto x) (n_blocks n1)" using linked_snoc [OF Cons.prems(1)] c by simp
  from Cons.IH [OF this rest] obtain cs where "n_blocks n' = n_blocks n1 @ cs" "list_all2 replayed (map (Pair b) raws) cs"
    "linked (x_crypto x) (n_blocks n')" by blast
  ultimately show ?case by (intro exI [of _ "c # cs"]) (simp add: c(1))
qed

lemma replay_blocks_match:
  assumes "linked (x_crypto x) (n_blocks n)" and "replay_blocks x bs n = (Inr (), n')"
  shows "\<exists>cs. n_blocks n' = n_blocks n @ cs \<and> list_all2 replayed (block_txs bs) cs \<and> linked (x_crypto x) (n_blocks n')"
  using assms
proof (induction bs arbitrary: n)
  case Nil
  then show ?case by (simp add: block_txs_def)
next
  case (Cons b bs)
  from Cons.prems(2) obtain n1 where t: "replay_txs x b (sb_txs b) n = (Inr (), n1)"
      and rest: "replay_blocks x bs n1 = (Inr (), n')" by (auto simp: bind_node_Inr_iff)
  obtain cs where cs: "n_blocks n1 = n_blocks n @ cs" "list_all2 replayed (map (Pair b) (sb_txs b)) cs"
      "linked (x_crypto x) (n_blocks n1)"
    using replay_txs_match [OF Cons.prems(1) t] by blast
  obtain ds where "n_blocks n' = n_blocks n1 @ ds" "list_all2 replayed (block_txs bs) ds" "linked (x_crypto x) (n_blocks n')"
    using Cons.IH [OF cs(3) rest] by blast
  with cs show ?case by (intro exI [of _ "cs @ ds"]) (simp add: block_txs_def list_all2_appendI)
qed

section \<open>Properties\<close>

definition no_legacy :: LegacyFs where
  "no_legacy = \<lparr>lf_journal = None, lf_sidecar = None, lf_rename = Inr ()\<rparr>"

lemma mem_env_ok: "env_ok mem_ext leaf_count"
  using mem_working_disk mem_db_ok mem_storage_insert_ok
  by (simp add: env_ok_def rejects_cleanly_def lookups_unobserved_def)

lemma mem_fresh_store: "fresh_store mem_kv mem_empty"
  by (simp add: fresh_store_def mem_kv_def mem_empty_def)

lemma mem_genesis: "apply_genesis (x_revm mem_ext) mem_spec (rv_default (x_revm mem_ext)) = Returns (n_db mem_node)"
  by (simp add: apply_genesis_def mem_spec_def genesis_account_def mem_node_def)
    (simp add: mem_revm_def mem_set_def mem_get_def mem_account_def)

lemma mem_open:
  obtains n0 where "open_node mem_ext no_legacy mem_spec (Inr mem_empty) = Returns (Inr n0)"
    "same_replica mem_ext True mem_node n0"
proof -
  have fs: "fresh_store (x_kv mem_ext) mem_empty" "lf_journal no_legacy = None"
    by (simp_all add: mem_fresh_store no_legacy_def)
  show thesis
  proof (rule open_fresh [OF mem_env_ok fs mem_genesis])
    fix n0
    assume n0: "open_node mem_ext no_legacy mem_spec (Inr mem_empty) = Returns (Inr n0)" "n_spec n0 = mem_spec"
      "n_blocks n0 = []" "n_receipts n0 = Map.empty"
      "apply_genesis (x_revm mem_ext) mem_spec (rv_default (x_revm mem_ext)) = Returns (n_db n0)"
    then have "n_db n0 = n_db mem_node" using mem_genesis by simp
    with n0 show thesis by (intro that [of n0]) (simp_all add: same_replica_def)
  qed
qed

lemma mem_open_seal:
  assumes "same_replica mem_ext True mem_node n0"
  shows "\<exists>n. seal_committed mem_ext n0 [1] 100 = (Inr 1, n) \<and> length (n_blocks n) = 1"
proof -
  have env: "same_env mem_ext mem_ext" by (simp add: same_env_def)
  obtain k where k: "seal_committed mem_ext mem_node [1] 100 = (Inr 1, k)" using mem_seal by blast
  obtain r n where n: "seal_committed mem_ext n0 [1] 100 = (r, n)" by (cases "seal_committed mem_ext n0 [1] 100")
  from seal_committed_replica [OF env mem_working_disk mem_working_disk assms, of "[1]" 100] k n
  have r: "r = Inr 1" by simp
  from n [unfolded r seal_committed_def seal_raw_def] obtain b where "n_blocks n = n_blocks n0 @ [b]"
    by (rule seal_success) auto
  with n r assms show ?thesis by (simp add: same_replica_def)
qed

text \<open>
  C1. A restart reproduces the chain: take a node created on an empty store, let it run through any sequence of
  seals (rejected payloads included), submissions, faucet drips, balance, nonce and code lookups, key changes and
  commit notes, and open the resulting store again. Opening returns a node with the same specification, the same
  blocks with the same state roots, the same receipts and a database that the program cannot tell from the one of the
  running node, and the store is again in step with it.
\<close>

theorem restart_reproduces_chain:
  assumes "env_ok x root_of" and "fresh_store (x_kv x) h" and "lf_journal fs = None"
    and "open_node x fs spec (Inr h) = Returns (Inr n0)"
    and "plain_run x n0 n" and "length (n_blocks n) + 1 < 2 ^ 64"
    and "restart_spec spec spec'"
  shows "\<exists>m. open_node x fs' spec' (Inr (n_store n)) = Returns (Inr m) \<and> same_replica x True n m \<and> mirrored x m"
  using assms by (rule restart_replica)

theorem restart_reproduces_chain_witness:
  "\<exists>n0 n m. open_node mem_ext no_legacy mem_spec (Inr mem_empty) = Returns (Inr n0)
     \<and> seal_committed mem_ext n0 [1] 100 = (Inr 1, n) \<and> length (n_blocks n) = 1
     \<and> open_node mem_ext no_legacy mem_spec (Inr (n_store n)) = Returns (Inr m)
     \<and> same_replica mem_ext True n m \<and> mirrored mem_ext m"
proof -
  obtain n0 where n0: "open_node mem_ext no_legacy mem_spec (Inr mem_empty) = Returns (Inr n0)"
    "same_replica mem_ext True mem_node n0" by (rule mem_open)
  obtain n where n: "seal_committed mem_ext n0 [1] 100 = (Inr 1, n)" "length (n_blocks n) = 1"
    using mem_open_seal [OF n0(2)] by (elim exE conjE)
  have fs: "fresh_store (x_kv mem_ext) mem_empty" "lf_journal no_legacy = None"
    by (simp_all add: mem_fresh_store no_legacy_def)
  have sealed: "plain_run mem_ext n0 n" by (rule plain_run_seal [OF n(1)])
  have len: "length (n_blocks n) + 1 < 2 ^ 64" by (simp add: n(2))
  have "restart_spec mem_spec mem_spec" by (simp add: restart_spec_def)
  from restart_reproduces_chain [OF mem_env_ok fs n0(1) sealed len this, of no_legacy] obtain m where
    "open_node mem_ext no_legacy mem_spec (Inr (n_store n)) = Returns (Inr m)" "same_replica mem_ext True n m"
    "mirrored mem_ext m" by (elim exE conjE)
  with n0(1) n show ?thesis by (intro exI conjI)
qed

text \<open>
  C2. The chain and its stored copy stay consistent. From a node created on an empty store, after any
  sequence of seals, submissions, faucet drips, calls, reads, key changes and commit notes, blocks
  are numbered 1, 2, 3, \<dots>, each links to the hash of the one before and carries one transaction and a
  state root, receipts and blocks refer to each other, and every block, every receipt, the height, the
  chain id and the allocations read back from the store.
\<close>

theorem reachable_chain_consistent:
  assumes "env_ok x root_of" and "fresh_store (x_kv x) h" and "lf_journal fs = None"
    and "open_node x fs spec (Inr h) = Returns (Inr n0)"
    and "reachable x n0 n" and "length (n_blocks n) + 1 < 2 ^ 64"
  shows "ledger_ok (x_crypto x) n \<and> mirrored x n"
proof -
  have kv: "kv_ok (x_kv x)" "codec_ok (x_codec x)" using assms(1) by (simp_all add: env_ok_def working_disk_def)
  from reachable_inv [OF kv opened_fresh(4) [OF assms(1-4)] assms(5,6)] show ?thesis by (simp add: node_inv_def)
qed

theorem reachable_chain_consistent_witness:
  "\<exists>n0 n. open_node mem_ext no_legacy mem_spec (Inr mem_empty) = Returns (Inr n0)
     \<and> reachable mem_ext n0 n \<and> length (n_blocks n) = 1 \<and> ledger_ok mem_crypto n \<and> mirrored mem_ext n"
proof -
  obtain n0 where n0: "open_node mem_ext no_legacy mem_spec (Inr mem_empty) = Returns (Inr n0)"
    "same_replica mem_ext True mem_node n0" by (rule mem_open)
  obtain n where n: "seal_committed mem_ext n0 [1] 100 = (Inr 1, n)" "length (n_blocks n) = 1"
    using mem_open_seal [OF n0(2)] by (elim exE conjE)
  have fs: "fresh_store (x_kv mem_ext) mem_empty" "lf_journal no_legacy = None"
    by (simp_all add: mem_fresh_store no_legacy_def)
  have r: "reachable mem_ext n0 n" by (rule reachable.step [OF reachable.init node_step.seal [OF n(1)]])
  have len: "length (n_blocks n) + 1 < 2 ^ 64" by (simp add: n(2))
  from reachable_chain_consistent [OF mem_env_ok fs n0(1) r len] n0(1) r n(2) show ?thesis
    by (simp only: mem_ext_sels) (rule exI [of _ n0], rule exI [of _ n], simp)
qed



text \<open>
  C32. Every transaction can be traced: in any node reached from one created on an empty store by any operations,
  looking up the hash of a receipt finds the recorded sender and raw bytes that hash to it, in the block the receipt
  names (same number, same block hash); and every transaction of every block has a receipt and so a record.
\<close>

theorem tx_record_complete:
  assumes "env_ok x root_of" and "fresh_store (x_kv x) h" and "lf_journal fs = None"
    and "open_node x fs spec (Inr h) = Returns (Inr n0)"
    and "reachable x n0 n" and "length (n_blocks n) + 1 < 2 ^ 64"
  shows "(\<forall>hash r. n_receipts n hash = Some r \<longrightarrow>
      (\<exists>raw b. tx_record (x_crypto x) n hash = Some (sr_from r, raw) \<and> keccak256 (x_crypto x) raw = hash
        \<and> block_by_number n (sr_block_number r) = Some b \<and> sb_hash b = sr_block_hash r \<and> sb_txs b = [raw]))
    \<and> (\<forall>b\<in>set (n_blocks n). \<forall>raw\<in>set (sb_txs b). \<exists>sender raw'.
        tx_record (x_crypto x) n (keccak256 (x_crypto x) raw) = Some (sender, raw')
        \<and> keccak256 (x_crypto x) raw' = keccak256 (x_crypto x) raw)"
proof -
  have kv: "kv_ok (x_kv x)" "codec_ok (x_codec x)" using assms(1) by (simp_all add: env_ok_def working_disk_def)
  from reachable_inv [OF kv opened_fresh(4) [OF assms(1-4)] assms(5,6)] have ok: "ledger_ok (x_crypto x) n"
    by (simp add: node_inv_def)
  then have "\<exists>r. n_receipts n (keccak256 (x_crypto x) raw) = Some r" if "b \<in> set (n_blocks n)" "raw \<in> set (sb_txs b)" for b raw
    using that unfolding ledger_ok_def receipts_ok_def by blast
  with receipt_traced [OF ok] show ?thesis by metis
qed

theorem tx_record_complete_witness:
  "\<exists>n0 n sender raw. open_node mem_ext no_legacy mem_spec (Inr mem_empty) = Returns (Inr n0)
     \<and> seal_committed mem_ext n0 [1] 100 = (Inr 1, n)
     \<and> tx_record mem_crypto n 1 = Some (sender, raw) \<and> keccak256 mem_crypto raw = 1"
proof -
  obtain n0 where n0: "open_node mem_ext no_legacy mem_spec (Inr mem_empty) = Returns (Inr n0)"
    "same_replica mem_ext True mem_node n0" by (rule mem_open)
  obtain n where n: "seal_committed mem_ext n0 [1] 100 = (Inr 1, n)" "length (n_blocks n) = 1"
    using mem_open_seal [OF n0(2)] by (elim exE conjE)
  have fs: "fresh_store (x_kv mem_ext) mem_empty" "lf_journal no_legacy = None"
    by (simp_all add: mem_fresh_store no_legacy_def)
  have r: "reachable mem_ext n0 n" by (rule reachable.step [OF reachable.init node_step.seal [OF n(1)]])
  have len: "length (n_blocks n) + 1 < 2 ^ 64" by (simp add: n(2))
  obtain q where "n_receipts n 1 = Some q" using seal_committed_receipt [OF _ n(1)] mem_kv_ok by auto
  with conjunct1 [OF tx_record_complete [OF mem_env_ok fs n0(1) r len]] obtain raw where
    "tx_record (x_crypto mem_ext) n 1 = Some (sr_from q, raw)" "keccak256 (x_crypto mem_ext) raw = 1" by blast
  then have "tx_record mem_crypto n 1 = Some (sr_from q, raw)" "keccak256 mem_crypto raw = 1" by simp_all
  with n0(1) n(1) show ?thesis by (intro exI conjI)
qed

text \<open>
  C15. Replay verifies: when replaying stored blocks, of any number of transactions each, onto a hash-linked chain
  succeeds, every transaction of every block, in order, was sealed again with that block's number, timestamp, base fee
  and hash, and with its state root where one is stored; the node's chain grows by exactly these sealed blocks and is
  hash-linked, so each stored hash equals the one recomputed from the block before. A stored block without
  transactions adds nothing and is not checked.
\<close>

theorem replay_verifies_blocks:
  assumes "linked (x_crypto x) (n_blocks n)" and "replay_blocks x bs n = (Inr (), n')"
  shows "\<exists>cs. n_blocks n' = n_blocks n @ cs \<and> linked (x_crypto x) (n_blocks n')
    \<and> list_all2 (\<lambda>(b, raw) c. sb_number c = sb_number b \<and> sb_timestamp c = sb_timestamp b \<and> sb_txs c = [raw]
         \<and> sb_base_fee c = sb_base_fee b \<and> sb_hash c = sb_hash b
         \<and> (sb_state_root b = None \<or> sb_state_root c = sb_state_root b))
       (concat (map (\<lambda>b. map (Pair b) (sb_txs b)) bs)) cs"
  using replay_blocks_match [OF assms] unfolding replayed_def block_txs_def by blast

theorem replay_verifies_blocks_witness:
  "\<exists>b n'. replay_blocks mem_ext [b] mem_node = (Inr (), n') \<and> sb_txs b = [[1]]
     \<and> (\<exists>c. n_blocks n' = [c] \<and> sb_hash c = sb_hash b \<and> sb_txs c = [[1]])"
proof -
  obtain k where k: "seal_committed mem_ext mem_node [1] 100 = (Inr 1, k)" using mem_seal by blast
  have rep: "same_env mem_ext mem_ext" "same_replica mem_ext True mem_node mem_node"
    by (simp_all add: same_env_def same_replica_def)
  from replay_sealed_block [OF rep(1) mem_working_disk mem_working_disk rep(2)
      k [unfolded seal_committed_def seal_raw_def]]
  obtain m b where m: "replay_blocks mem_ext [b] mem_node = (Inr (), m)" "sb_txs b = [[1]]" .
  have "linked (x_crypto mem_ext) (n_blocks mem_node)" by simp
  from replay_verifies_blocks [OF this m(1)] m(2) obtain c where "n_blocks m = [c]" "sb_hash c = sb_hash b" "sb_txs c = [[1]]"
    by (auto simp: list_all2_Cons1)
  with m show ?thesis by (intro exI conjI)
qed

text \<open>
  A diverging replay rewrites the store before it reports the error: when a stored block is sealed
  again with another hash, \<open>replay_blocks\<close> stops with an error, but the block in the store is by then
  the recomputed one and the stored height is that block's number, whatever it was before.
\<close>

theorem diverging_replay_overwrites:
  assumes "kv_ok (x_kv x)" "codec_ok (x_codec x)"
    and "sb_txs b = [raw]"
    and "seal_raw_with_fee x n raw (sb_number b) (sb_timestamp b) (sb_base_fee b) = (Inr hash, n1)"
    and "sb_hash (last (n_blocks n1)) \<noteq> sb_hash b"
  shows "\<exists>e. replay_blocks x (b # bs) n = (Inl (Storage e), n1)
    \<and> height (x_kv x) (n_store n1) = Inr (sb_number b)
    \<and> load_block (x_kv x) (x_codec x) (n_store n1) (sb_number b) = Inr (Some (last (n_blocks n1)))"
proof -
  have "height (x_kv x) (n_store n1) = Inr (sb_number b)
    \<and> load_block (x_kv x) (x_codec x) (n_store n1) (sb_number b) = Inr (Some (last (n_blocks n1)))"
    using assms(4)
  proof (rule seal_success_store [OF assms(1)])
    fix c r h1
    assume save: "save_block (x_kv x) (x_codec x) h1 c [(hash, r)] = (Inr (), n_store n1)"
      and c: "n_blocks n1 = n_blocks n @ [c]" "sb_number c = sb_number b"
    have ok: "store_ok (x_kv x, x_codec x)" using assms(1,2) by (simp add: store_ok_def)
    show ?thesis
      using chain_store.top_save [OF ok, of h1 c hash r] chain_store.block_at_save [OF ok, of h1 c hash r] save
      by (simp add: c)
  qed
  then show ?thesis using assms(3,4,5) by simp
qed

theorem diverging_replay_overwrites_witness:
  "\<exists>e n1. replay_blocks mem_ext [\<lparr>sb_number = 1, sb_timestamp = 100,
       sb_hash = block_hash mem_crypto (genesis_hash mem_crypto) 1 100 + 1, sb_parent_hash = 0,
       sb_txs = [[1]], sb_state_root = None, sb_base_fee = 1000000000\<rparr>] mem_node = (Inl (Storage e), n1)
     \<and> height mem_kv (n_store n1) = Inr 1"
proof -
  let ?b = "\<lparr>sb_number = 1, sb_timestamp = 100,
       sb_hash = block_hash mem_crypto (genesis_hash mem_crypto) 1 100 + 1, sb_parent_hash = 0, sb_txs = [[1]],
     sb_state_root = None, sb_base_fee = 1000000000\<rparr>"
  obtain n1 where n1: "seal_committed mem_ext mem_node [1] 100 = (Inr 1, n1)" using mem_seal by blast
  have s: "seal_raw_with_fee mem_ext mem_node [1] (sb_number ?b) (sb_timestamp ?b) (sb_base_fee ?b) = (Inr 1, n1)"
    using n1 by (simp add: seal_committed_def seal_raw_def mem_pending block_number_def)
  from s obtain b where "n_blocks n1 = [b]" "sb_hash b = block_hash mem_crypto (genesis_hash mem_crypto) 1 100"
    by (rule seal_success) (auto simp: next_parent_hash_def)
  then have ne: "sb_hash (last (n_blocks n1)) \<noteq> sb_hash ?b" by simp
  have ok: "kv_ok (x_kv mem_ext)" "codec_ok (x_codec mem_ext)" by (simp_all add: mem_kv_ok mem_codec_ok)
  have raw: "sb_txs ?b = [[1]]" by simp
  from diverging_replay_overwrites [OF ok raw s ne, of "[]"] show ?thesis by auto
qed

end
