(* ===== verification/Trace.thy ===== *)
theory Trace
  imports Views Node
begin

text \<open>
  Execution traces (\<^verbatim>\<open>crates/move-execution/src/trace.rs\<close>): options, mapping of the tracer's JSON lines to
  struct logs, tracing of a sealed transaction in a scratch database and of a call on the current state.
  The inspector of \<open>revm\<close>, UTF-8 decoding and the JSON parser are arguments.
\<close>

section \<open>The tracer and its environment\<close>

text \<open>
  The sink of the tracer collects what is written to it. \<open>tr_inspect\<close> is \<open>inspect_one_tx\<close> on an EVM whose inspector is
  an EIP-3155 tracer over such a sink: the result, the chunks that the tracer wrote and the database.
\<close>

type_synonym SharedBuf = bytes

definition buf_write :: "SharedBuf \<Rightarrow> bytes \<Rightarrow> (string + nat) \<times> SharedBuf" where
  "buf_write inner buf = (Inr (length buf), inner @ buf)"

definition buf_write_all :: "SharedBuf \<Rightarrow> bytes list \<Rightarrow> SharedBuf" where
  "buf_write_all inner chunks = foldl (\<lambda>b chunk. snd (buf_write b chunk)) inner chunks"

lemma buf_write_all_concat [simp]: "buf_write_all inner chunks = inner @ concat chunks"
  by (induction chunks arbitrary: inner) (simp_all add: buf_write_all_def buf_write_def)

record 'db Tracer =
  tr_inspect :: "SharedBuf KanariTracedEvm \<Rightarrow> 'db \<Rightarrow> TxEnv \<Rightarrow> (string + ExecutionResult) \<times> bytes list \<times> 'db"
  tr_from_utf8 :: "bytes \<Rightarrow> string + string"
  tr_from_str :: "string \<Rightarrow> string + Json"

record TraceOptions =
  op_disable_stack :: bool
  op_disable_memory :: bool

definition default_options :: TraceOptions where
  "default_options = \<lparr>op_disable_stack = False, op_disable_memory = False\<rparr>"

definition as_object :: "Json \<Rightarrow> (string \<times> Json) list option" where
  "as_object v = (case v of JObj obj \<Rightarrow> Some obj | _ \<Rightarrow> None)"

text \<open>\<open>Value::get(key)\<close>: absent on anything but an object.\<close>

definition jfield :: "Json \<Rightarrow> string \<Rightarrow> Json option" where
  "jfield v key = Option.bind (as_object v) (\<lambda>obj. jget obj key)"

definition as_str :: "Json \<Rightarrow> string option" where
  "as_str v = (case v of JStr s \<Rightarrow> Some s | _ \<Rightarrow> None)"

definition option_flag :: "(string \<times> Json) list \<Rightarrow> string \<Rightarrow> string + bool" where
  "option_flag obj key =
     (case jget obj key of
        None \<Rightarrow> Inr False
      | Some JNull \<Rightarrow> Inr False
      | Some (JBool b) \<Rightarrow> Inr b
      | Some _ \<Rightarrow> Inl (key @ '' must be a boolean''))"

definition options_from_json :: "Json \<Rightarrow> string + TraceOptions" where
  "options_from_json v =
     (let obj = (case as_object v of Some obj \<Rightarrow> obj | None \<Rightarrow> [])
      in res_bind (option_flag obj ''disableStack'') (\<lambda>stack.
         res_bind (option_flag obj ''disableMemory'') (\<lambda>memory.
           Inr \<lparr>op_disable_stack = stack, op_disable_memory = memory\<rparr>)))"

record TraceOutput =
  to_gas_used :: u64
  to_failed :: bool
  to_return_value :: string
  to_struct_logs :: "Json list"

definition trace_to_json :: "TraceOutput \<Rightarrow> Json" where
  "trace_to_json out =
     JObj [(''gas'', JStr (''0x'' @ lower_hex (unat (to_gas_used out)))),
           (''failed'', JBool (to_failed out)),
           (''returnValue'', JStr (to_return_value out)),
           (''structLogs'', JArr (to_struct_logs out))]"

section \<open>Reading the tracer's output\<close>

definition jremove :: "string \<Rightarrow> (string \<times> Json) list \<Rightarrow> (string \<times> Json) list" where
  "jremove key obj = filter (\<lambda>m. fst m \<noteq> key) obj"

definition jinsert :: "string \<Rightarrow> Json \<Rightarrow> (string \<times> Json) list \<Rightarrow> (string \<times> Json) list" where
  "jinsert key v obj = jremove key obj @ [(key, v)]"

definition dropped_members :: "TraceOptions \<Rightarrow> string list" where
  "dropped_members opts =
     [''reservoir'', ''stateGas'', ''refund'', ''memSize'', ''returnData'', ''returnStack'', ''storage'']
     @ (if op_disable_stack opts then [''stack''] else [])
     @ (if op_disable_memory opts then [''memory''] else [])"

definition map_step :: "Json \<Rightarrow> TraceOptions \<Rightarrow> Json outcome" where
  "map_step step opts =
     (case as_object step of
        None \<Rightarrow> Panics
      | Some obj \<Rightarrow>
        (let named = (case jget obj ''opName'' of
                        None \<Rightarrow> obj
                      | Some op \<Rightarrow> jinsert ''op'' op (jremove ''opName'' obj))
         in Returns (JObj (foldl (\<lambda>o' key. jremove key o') named (dropped_members opts)))))"

text \<open>\<open>str::lines\<close>: pieces between newlines without a carriage return before the newline, and no empty
  piece after a final newline.\<close>

abbreviation newline :: char where "newline \<equiv> CHR 0x0A"
abbreviation carriage_return :: char where "carriage_return \<equiv> CHR 0x0D"

definition strip_cr :: "string \<Rightarrow> string" where
  "strip_cr line = (if line \<noteq> [] \<and> last line = carriage_return then butlast line else line)"

fun text_lines_from :: "string \<Rightarrow> string \<Rightarrow> string list" where
  "text_lines_from acc [] = (if acc = [] then [] else [rev acc])"
| "text_lines_from acc (c # cs) =
     (if c = newline then strip_cr (rev acc) # text_lines_from [] cs else text_lines_from (c # acc) cs)"

definition text_lines :: "string \<Rightarrow> string list" where
  "text_lines s = text_lines_from [] s"

text \<open>The loop over the lines: step lines are mapped and collected, the last other line is the summary.\<close>

fun scan_lines ::
  "(string \<Rightarrow> string + Json) \<Rightarrow> TraceOptions \<Rightarrow> string list \<Rightarrow> Json list \<Rightarrow> Json option
     \<Rightarrow> (NodeError + Json list \<times> Json option) outcome" where
  "scan_lines from_str opts [] logs summary = Returns (Inr (logs, summary))"
| "scan_lines from_str opts (line # lines) logs summary =
     (let l = trim line in
      if l = [] then scan_lines from_str opts lines logs summary
      else case from_str l of
        Inl e \<Rightarrow> Returns (Inl (Execution (''bad tracer line: '' @ e)))
      | Inr v \<Rightarrow>
          (if jfield v ''pc'' \<noteq> None
           then out_bind (map_step v opts) (\<lambda>step. scan_lines from_str opts lines (logs @ [step]) summary)
           else scan_lines from_str opts lines logs (Some v)))"

fun result_parts :: "ExecutionResult \<Rightarrow> bool \<times> u64 \<times> bytes" where
  "result_parts (Success gas output _) = (False, gas, into_data output)"
| "result_parts (Revert gas output) = (True, gas, output)"
| "result_parts (Halt gas) = (True, gas, [])"

definition summary_gas :: "Json option \<Rightarrow> u64 option" where
  "summary_gas summary =
     Option.bind summary (\<lambda>s. Option.bind (jfield s ''gasUsed'') (\<lambda>g. Option.bind (as_str g) (\<lambda>g.
       map_option of_nat (from_str_radix16 (2 ^ 64 - 1) (trim_0x g)))))"

definition trace_in ::
  "'db Tracer \<Rightarrow> PqcEnv \<Rightarrow> 'db \<Rightarrow> KanariChainSpec \<Rightarrow> TxEnv \<Rightarrow> u64 \<Rightarrow> u64 \<Rightarrow> u64 \<Rightarrow> TraceOptions
     \<Rightarrow> (NodeError + TraceOutput) outcome \<times> 'db" where
  "trace_in tr P db spec tx number timestamp base_fee opts =
     (let params = \<lparr>ep_chain_id = cs_chain_id spec, ep_spec = cs_spec_id spec, ep_number = number,
            ep_timestamp = timestamp, ep_basefee = base_fee, ep_gas_limit = BLOCK_GAS_LIMIT,
            ep_beneficiary = BLOCK_BENEFICIARY\<rparr> in
      case tr_inspect tr (build_kanari_evm_traced P params []) db tx of
        (Inl e, _, db') \<Rightarrow> (Returns (Inl (Execution e)), db')
      | (Inr out, chunks, db') \<Rightarrow>
        (case tr_from_utf8 tr (buf_write_all [] chunks) of
           Inl e \<Rightarrow> (Returns (Inl (Execution (''tracer output is not UTF-8: '' @ e))), db')
         | Inr text \<Rightarrow>
           (out_bind (scan_lines (tr_from_str tr) opts (text_lines text) [] None) (\<lambda>scanned. Returns (
              res_bind scanned (\<lambda>(struct_logs, summary).
                let (failed, gas_used, return_value) = result_parts out in
                Inr \<lparr>to_gas_used = (case summary_gas summary of Some g \<Rightarrow> g | None \<Rightarrow> gas_used),
                     to_failed = failed, to_return_value = hex_prefixed return_value,
                     to_struct_logs = struct_logs\<rparr>))), db')))"

section \<open>Tracing\<close>

text \<open>The scratch state before a block: the raw transactions of the earlier blocks executed on genesis.\<close>

fun scratch_txs ::
  "('db, 'st, 'h) Ext \<Rightarrow> KanariChainSpec \<Rightarrow> SealedBlock \<Rightarrow> bytes list \<Rightarrow> 'db \<Rightarrow> NodeError + 'db" where
  "scratch_txs x spec prior [] db = Inr db"
| "scratch_txs x spec prior (raw # raws) db =
     res_bind (prepared_decode (x_crypto x) raw (cs_chain_id spec)) (\<lambda>p.
       case transact_raw (x_revm x) (x_pqc x) db spec p (sb_number prior) (sb_timestamp prior) (sb_base_fee prior) of
         (Inl e, _) \<Rightarrow> Inl e
       | (Inr _, db') \<Rightarrow> scratch_txs x spec prior raws db')"

fun scratch_blocks ::
  "('db, 'st, 'h) Ext \<Rightarrow> KanariChainSpec \<Rightarrow> SealedBlock list \<Rightarrow> 'db \<Rightarrow> NodeError + 'db" where
  "scratch_blocks x spec [] db = Inr db"
| "scratch_blocks x spec (prior # blocks) db =
     res_bind (scratch_txs x spec prior (sb_txs prior) db) (\<lambda>db'. scratch_blocks x spec blocks db')"

definition trace_transaction ::
  "('db, 'st, 'h) Ext \<Rightarrow> 'db Tracer \<Rightarrow> TextOps \<Rightarrow> ('db, 'h) KanariNode \<Rightarrow> B256 \<Rightarrow> TraceOptions
     \<Rightarrow> (NodeError + TraceOutput) outcome" where
  "trace_transaction x tr tx n hash opts =
     (case receipt n hash of
        None \<Rightarrow> Returns (Inl (InvalidTransaction (''unknown transaction '' @ to_hash tx hash)))
      | Some r \<Rightarrow>
        (case block_by_number n (sr_block_number r) of
           None \<Rightarrow> Returns (Inl (Storage (''missing block '' @ decimal (unat (sr_block_number r)))))
         | Some block \<Rightarrow>
           (case tx_record (x_crypto x) n hash of
              None \<Rightarrow> Returns (Inl (Storage (''missing raw tx '' @ to_hash tx hash)))
            | Some (_, raw) \<Rightarrow>
              (case prepared_decode (x_crypto x) raw (cs_chain_id (n_spec n)) of
                 Inl e \<Rightarrow> Returns (Inl e)
               | Inr prepared \<Rightarrow>
                 out_bind (apply_genesis (x_revm x) (n_spec n) (rv_default (x_revm x))) (\<lambda>scratch.
                   case scratch_blocks x (n_spec n)
                          (filter (\<lambda>b. sb_number b < sr_block_number r) (n_blocks n)) scratch of
                     Inl e \<Rightarrow> Returns (Inl e)
                   | Inr scratch' \<Rightarrow>
                       fst (trace_in tr (x_pqc x) scratch' (n_spec n) (pt_inner prepared) (sr_block_number r)
                              (sb_timestamp block) (sb_base_fee block) opts))))))"

definition trace_call ::
  "('db, 'st, 'h) Ext \<Rightarrow> 'db Tracer \<Rightarrow> ('db, 'h) KanariNode \<Rightarrow> CallRequest \<Rightarrow> TraceOptions \<Rightarrow> u64
     \<Rightarrow> (NodeError + TraceOutput) outcome \<times> ('db, 'h) KanariNode" where
  "trace_call x tr n c opts now =
     (let caller = (case cr_from c of Some a \<Rightarrow> a | None \<Rightarrow> 0);
          (nonce, n1) = (case cr_nonce c of
             Some k \<Rightarrow> (k, n)
           | None \<Rightarrow> (case nonce_of (x_revm x) n caller of
                        (Inr k, n') \<Rightarrow> (k, n') | (Inl _, n') \<Rightarrow> (0, n')));
          tx = \<lparr>te_tx_type = 0, te_caller = caller,
                te_gas_limit = (case cr_gas c of Some g \<Rightarrow> g | None \<Rightarrow> DEFAULT_CALL_GAS),
                te_gas_price = (case cr_gas_price c of Some p \<Rightarrow> p
                                | None \<Rightarrow> pending_base_fee (x_crypto x) n1),
                te_kind = (case cr_to c of Some to \<Rightarrow> Call to | None \<Rightarrow> Create),
                te_value = (case cr_value c of Some v \<Rightarrow> v | None \<Rightarrow> 0),
                te_data = (case cr_data c of Some d \<Rightarrow> d | None \<Rightarrow> []),
                te_nonce = nonce, te_chain_id = Some (cs_chain_id (n_spec n1)),
                te_access_list = [], te_gas_priority_fee = None, te_authorization_list = []\<rparr>;
          (r, db) = trace_in tr (x_pqc x) (n_db n1) (n_spec n1) tx (block_number n1) now
                      (ucast (pending_base_fee (x_crypto x) n1)) opts
      in (r, n1\<lparr>n_db := db\<rparr>))"

section \<open>Lemmas\<close>

text \<open>Documented behaviour of the inspector: it reports what execution without it reports, and its output is text
  whose non-empty lines are JSON. Nothing is assumed of the gas that a summary line names.\<close>

definition tracer_ok :: "'db Tracer \<Rightarrow> ('db, 'st) Revm \<Rightarrow> bool" where
  "tracer_ok tr rv \<longleftrightarrow>
     (\<forall>evm db tx. fst (tr_inspect tr evm db tx) = map_sum id fst (fst (rv_transact rv (KanariEvm.truncate evm) db tx))) \<and>
     (\<forall>evm db tx out chunks db'. tr_inspect tr evm db tx = (Inr out, chunks, db') \<longrightarrow>
        (\<exists>text. tr_from_utf8 tr (concat chunks) = Inr text \<and>
           (\<forall>line\<in>set (text_lines text). trim line \<noteq> [] \<longrightarrow> (\<exists>v. tr_from_str tr (trim line) = Inr v))))"

text \<open>The values of the non-empty lines of a tracer's text, and the gas that a trace reports for them.\<close>

definition line_values :: "(string \<Rightarrow> string + Json) \<Rightarrow> string list \<Rightarrow> Json list" where
  "line_values from_str lines = map (\<lambda>l. projr (from_str l)) (filter (\<lambda>l. l \<noteq> []) (map trim lines))"

definition is_step :: "Json \<Rightarrow> bool" where
  "is_step v \<longleftrightarrow> jfield v ''pc'' \<noteq> None"

definition reported_gas :: "Json list \<Rightarrow> u64 \<Rightarrow> u64" where
  "reported_gas vs gas =
     (case filter (\<lambda>v. \<not> is_step v) vs of
        [] \<Rightarrow> gas
      | ws \<Rightarrow> (case summary_gas (Some (last ws)) of Some g \<Rightarrow> g | None \<Rightarrow> gas))"

text \<open>A concrete tracer over the concrete interpreter: it writes the summary line only.\<close>

definition mem_tracer :: "mem_db Tracer" where
  "mem_tracer = \<lparr>tr_inspect = (\<lambda>evm db tx. (map_sum id fst (mem_charge (KanariEvm.truncate evm) db tx), [ascii ''summary''], db)),
     tr_from_utf8 = (\<lambda>bs. Inr (map (\<lambda>b. char_of (unat b)) bs)),
     tr_from_str = (\<lambda>_. Inr (JObj [(''gasUsed'', JStr ''0x5208'')]))\<rparr>"

lemma mem_tracer_ok: "tracer_ok mem_tracer mem_revm"
proof -
  show ?thesis unfolding tracer_ok_def by (auto simp: mem_tracer_def)
qed

lemma map_step_returns: "jfield v ''pc'' \<noteq> None \<Longrightarrow> \<exists>step. map_step v opts = Returns step"
  by (cases "as_object v") (auto simp: jfield_def map_step_def Let_def)

lemma scan_lines_values:
  assumes "\<forall>line\<in>set lines. trim line \<noteq> [] \<longrightarrow> (\<exists>v. f (trim line) = Inr v)"
  shows "\<exists>steps. scan_lines f opts lines logs summary = Returns (Inr (logs @ steps,
      (case filter (\<lambda>v. \<not> is_step v) (line_values f lines) of [] \<Rightarrow> summary | ws \<Rightarrow> Some (last ws))))
    \<and> list_all2 (\<lambda>v s. map_step v opts = Returns s) (filter is_step (line_values f lines)) steps"
  using assms
proof (induction lines arbitrary: logs summary)
  case Nil
  then show ?case by (simp add: line_values_def)
next
  case (Cons line lines)
  show ?case
  proof (cases "trim line = []")
    case True
    with Cons show ?thesis by (simp add: Let_def line_values_def)
  next
    case False
    with Cons.prems(1) obtain v where v: "f (trim line) = Inr v" by auto
    then have vs: "line_values f (line # lines) = v # line_values f lines" using False by (simp add: line_values_def)
    show ?thesis
    proof (cases "is_step v")
      case False': False
      then show ?thesis
        using False v Cons.prems Cons.IH [of logs "Some v"]
        by (simp add: vs Let_def is_step_def split: list.splits)
    next
      case True
      then obtain st where st: "map_step v opts = Returns st" using map_step_returns unfolding is_step_def by blast
      obtain steps where "scan_lines f opts lines (logs @ [st]) summary = Returns (Inr ((logs @ [st]) @ steps,
          (case filter (\<lambda>v. \<not> is_step v) (line_values f lines) of [] \<Rightarrow> summary | ws \<Rightarrow> Some (last ws))))"
        "list_all2 (\<lambda>v s. map_step v opts = Returns s) (filter is_step (line_values f lines)) steps"
        using Cons.IH [of "logs @ [st]" summary] Cons.prems by auto
      moreover have "scan_lines f opts (line # lines) logs summary = scan_lines f opts lines (logs @ [st]) summary"
        using True False v st by (simp add: Let_def is_step_def)
      ultimately show ?thesis using True st by (intro exI [of _ "st # steps"]) (simp add: vs)
    qed
  qed
qed

lemma result_parts_summary:
  "fst (result_parts out) = (\<not> fst (execution_summary out)) \<and> fst (snd (result_parts out)) = tx_gas_used out"
  by (cases out) simp_all

lemma trace_in_result:
  assumes "tracer_ok tr rv" and "fst (rv_transact rv (block_evm P spec number ts fee) db tx) = Inr (res, st)"
  shows "\<exists>chunks db' doc out.
    tr_inspect tr (build_kanari_evm_traced P \<lparr>ep_chain_id = cs_chain_id spec, ep_spec = cs_spec_id spec,
        ep_number = number, ep_timestamp = ts, ep_basefee = fee, ep_gas_limit = BLOCK_GAS_LIMIT,
        ep_beneficiary = BLOCK_BENEFICIARY\<rparr> []) db tx = (Inr res, chunks, db')
    \<and> tr_from_utf8 tr (concat chunks) = Inr doc
    \<and> fst (trace_in tr P db spec tx number ts fee opts) = Returns (Inr out)
    \<and> to_failed out = (\<not> fst (execution_summary res))
    \<and> to_gas_used out = reported_gas (line_values (tr_from_str tr) (text_lines doc)) (tx_gas_used res)
    \<and> list_all2 (\<lambda>v s. map_step v opts = Returns s)
        (filter is_step (line_values (tr_from_str tr) (text_lines doc))) (to_struct_logs out)"
proof -
  let ?evm = "build_kanari_evm_traced P \<lparr>ep_chain_id = cs_chain_id spec, ep_spec = cs_spec_id spec, ep_number = number,
      ep_timestamp = ts, ep_basefee = fee, ep_gas_limit = BLOCK_GAS_LIMIT, ep_beneficiary = BLOCK_BENEFICIARY\<rparr> []"
  from assms have r: "fst (tr_inspect tr ?evm db tx) = Inr res"
    by (simp add: tracer_ok_def block_evm_def)
  then obtain chunks db' where i: "tr_inspect tr ?evm db tx = (Inr res, chunks, db')"
    by (metis prod.collapse)
  with assms(1) obtain doc where t: "tr_from_utf8 tr (concat chunks) = Inr doc"
    "\<forall>line\<in>set (text_lines doc). trim line \<noteq> [] \<longrightarrow> (\<exists>v. tr_from_str tr (trim line) = Inr v)"
    unfolding tracer_ok_def by blast
  let ?vs = "line_values (tr_from_str tr) (text_lines doc)"
  let ?sum = "case filter (\<lambda>v. \<not> is_step v) ?vs of [] \<Rightarrow> None | ws \<Rightarrow> Some (last ws)"
  obtain steps where s: "scan_lines (tr_from_str tr) opts (text_lines doc) [] None = Returns (Inr (steps, ?sum))"
    "list_all2 (\<lambda>v s. map_step v opts = Returns s) (filter is_step ?vs) steps"
    using scan_lines_values [OF t(2), of opts "[]" None] by auto
  obtain f g d where p: "result_parts res = (f, g, d)" by (cases "result_parts res")
  with result_parts_summary [of res] have f: "f = (\<not> fst (execution_summary res))" "g = tx_gas_used res" by simp_all
  have gas: "(case summary_gas ?sum of Some g \<Rightarrow> g | None \<Rightarrow> g) = reported_gas ?vs g"
    by (simp add: reported_gas_def summary_gas_def split: list.split)
  have "fst (trace_in tr P db spec tx number ts fee opts) = Returns (Inr \<lparr>to_gas_used = reported_gas ?vs g,
      to_failed = f, to_return_value = hex_prefixed d, to_struct_logs = steps\<rparr>)"
    by (simp add: trace_in_def Let_def i t(1) s(1) p gas)
  with i t(1) s(2) f show ?thesis
    by (intro exI [of _ chunks] exI [of _ db'] exI [of _ doc]) simp
qed

lemma trace_in_db:
  "snd (trace_in tr P db spec tx number ts fee opts) =
     snd (snd (tr_inspect tr (build_kanari_evm_traced P \<lparr>ep_chain_id = cs_chain_id spec, ep_spec = cs_spec_id spec,
       ep_number = number, ep_timestamp = ts, ep_basefee = fee, ep_gas_limit = BLOCK_GAS_LIMIT,
       ep_beneficiary = BLOCK_BENEFICIARY\<rparr> []) db tx))"
  by (simp add: trace_in_def Let_def split: prod.splits sum.splits)

text \<open>A trace of a call leaves everything but the database cache as it was.\<close>

lemma trace_call_quiet: "quiet x n (snd (trace_call x tr n c opts now))"
proof -
  obtain k n1 where 1: "(case cr_nonce c of Some k \<Rightarrow> (k, n)
      | None \<Rightarrow> (case nonce_of (x_revm x) n (case cr_from c of Some a \<Rightarrow> a | None \<Rightarrow> 0) of
                  (Inr k, n') \<Rightarrow> (k, n') | (Inl _, n') \<Rightarrow> (0, n'))) = (k, n1)" (is "?l = _")
    by (cases ?l)
  have "\<exists>db. n1 = n\<lparr>n_db := db\<rparr>"
    using 1 by (auto simp: nonce_of_def intro: exI [of _ "n_db n"] split: option.splits prod.splits sum.splits)
  then obtain db where "n1 = n\<lparr>n_db := db\<rparr>" ..
  with 1 show ?thesis by (simp add: trace_call_def Let_def split: prod.splits)
qed

lemma jget_simps:
  "jget (jremove k obj) key = (if key = k then None else jget obj key)"
  "jget (jinsert k v obj) key = (if key = k then Some v else jget obj key)"
proof -
  show r: "jget (jremove k obj) key = (if key = k then None else jget obj key)" for k obj
    by (induction obj) (auto simp: jget_def jremove_def)
  show "jget (jinsert k v obj) key = (if key = k then Some v else jget obj key)"
    using r [of k obj] by (auto simp: jinsert_def jget_def map_add_def split: option.splits)
qed

lemma jget_remove_all:
  "jget (foldl (\<lambda>o' k. jremove k o') obj ks) key = (if key \<in> set ks then None else jget obj key)"
  by (induction ks arbitrary: obj) (auto simp: jget_simps)

lemma numbered_pos: "numbered bs \<Longrightarrow> b \<in> set bs \<Longrightarrow> \<not> sb_number b < 1"
proof -
  assume "numbered bs" and b: "b \<in> set bs"
  from numbered_unat [OF this(1)] have "unat (sb_number b) \<in> set [1..<Suc (length bs)]"
    using b by (metis (mono_tags, lifting) image_eqI list.set_map)
  then show ?thesis by (auto simp: word_less_nat_alt)
qed

text \<open>What a successful seal of the first block left behind.\<close>

lemma first_seal:
  assumes "at_genesis x n0" and "seal_committed x n0 raw ts = (Inr hash, n1)"
  obtains fee p res db1 b r where
    "prepared_decode (x_crypto x) raw (cs_chain_id (n_spec n0)) = Inr p"
    "transact_raw (x_revm x) (x_pqc x) (n_db n0) (n_spec n0) p 1 ts fee = (Inr res, db1)"
    "pay_base_fee (x_revm x) (n0\<lparr>n_db := db1\<rparr>) (tx_gas_used res) fee = (Inr (), n0\<lparr>n_db := n_db n1\<rparr>)"
    "n_blocks n1 = [b]" "sb_number b = 1" "sb_timestamp b = ts" "sb_base_fee b = fee" "sb_txs b = [raw]"
    "n_receipts n1 hash = Some r" "sr_block_number r = 1" "sr_success r = fst (execution_summary res)"
    "sr_gas_used r = tx_gas_used res" "hash = keccak256 (x_crypto x) raw" "n_spec n1 = n_spec n0"
    "fee = ucast (pending_base_fee (x_crypto x) n0)"
proof -
  have g: "n_blocks n0 = []" using assms(1) by (simp add: at_genesis_def)
  then have num: "block_number n0 + 1 = 1" by (simp add: block_number_def)
  have parts: "sr_success (sealed_receipt cr bs raw k ts p res) = fst (execution_summary res)"
    "sr_gas_used (sealed_receipt cr bs raw k ts p res) = tx_gas_used res" for cr bs raw k ts p res
    by (simp_all add: sealed_receipt_def execution_summary_gas [symmetric] split: prod.splits)
  define fee where "fee = (ucast (pending_base_fee (x_crypto x) n0) :: u64)"
  from assms(2) have "seal_raw_with_fee x n0 raw 1 ts fee = (Inr hash, n1)"
    by (simp add: seal_committed_def seal_raw_def num fee_def)
  then show thesis
    by (rule seal_success) (rule that, auto simp: g parts fee_def)
qed

lemma pay_base_fee_balance:
  assumes "db_ok rv" and "pay_base_fee rv n gas fee = (Inr (), n\<lparr>n_db := db\<rparr>)"
  shows "balance_in rv db a =
    (if a = BLOCK_BENEFICIARY
     then min (balance_in rv (n_db n) a + unat (base_fee_share gas (ucast fee))) (2 ^ 256 - 1)
     else balance_in rv (n_db n) a)"
proof (cases "base_fee_share gas (ucast fee) = 0")
  case True
  then have "n\<lparr>n_db := db\<rparr> = n" using assms(2) by (simp add: pay_base_fee_def)
  then have "db = n_db n" by (metis KanariNode.select_convs(2) KanariNode.surjective KanariNode.update_convs(2))
  moreover have "balance_in rv (n_db n) a < 2 ^ 256"
    using unsigned_less [where ?'b = 256 and ?'a = nat]
    by (auto simp: balance_in_def split: sum.splits option.splits)
  ultimately show ?thesis using True by (cases "a = BLOCK_BENEFICIARY") (auto simp: min_def)
next
  case False
  define amount where "amount = base_fee_share gas (ucast fee)"
  obtain i db' where i: "rv_basic rv (n_db n) BLOCK_BENEFICIARY = (Inr i, db')"
    using assms(1) unfolding db_ok_def by (metis prod.collapse)
  define info where "info = (case i of Some j \<Rightarrow> j | None \<Rightarrow>
    \<lparr>ai_balance = 0, ai_nonce = 0, ai_code_hash = rv_keccak_empty rv, ai_code = None\<rparr>)"
  have "n\<lparr>n_db := db\<rparr> = n\<lparr>n_db := rv_insert_account_info rv db' BLOCK_BENEFICIARY
      (info\<lparr>ai_balance := sat_add (ai_balance info) amount\<rparr>)\<rparr>"
    using assms(2) False by (simp add: pay_base_fee_def credit_beneficiary_def i info_def amount_def Let_def)
  then have db: "db = rv_insert_account_info rv db' BLOCK_BENEFICIARY
      (info\<lparr>ai_balance := sat_add (ai_balance info) amount\<rparr>)"
    by (metis KanariNode.select_convs(2) KanariNode.surjective KanariNode.update_convs(2))
  have "balance_in rv db' c = balance_in rv (n_db n) c" for c
    using assms(1) i unfolding db_ok_def by (metis snd_conv)
  moreover have "balance_in rv (n_db n) BLOCK_BENEFICIARY = unat (ai_balance info)"
    by (simp add: balance_in_def i info_def split: option.splits)
  ultimately show ?thesis
    by (simp add: db balance_insert [OF assms(1)] unat_sat_add amount_def)
qed

lemma mem_at_genesis: "at_genesis mem_ext mem_node"
  using mem_genesis by (simp add: at_genesis_def)

lemma mem_first_receipt:
  assumes "seal_committed mem_ext mem_node [1] 100 = (Inr 1, n1)"
  shows "\<exists>r. n_receipts n1 1 = Some r \<and> sr_gas_used r = 21000 \<and> sr_success r
    \<and> sb_base_fee (last (n_blocks n1)) = 1000000000 \<and> n_spec n1 = mem_spec"
proof -
  obtain fee p res db1 b r where t: "transact_raw (x_revm mem_ext) (x_pqc mem_ext) (n_db mem_node) (n_spec mem_node)
      p 1 100 fee = (Inr res, db1)"
    and b: "n_blocks n1 = [b]" "sb_base_fee b = fee"
    and r: "n_receipts n1 1 = Some r" "sr_success r = fst (execution_summary res)" "sr_gas_used r = tx_gas_used res"
      "n_spec n1 = n_spec mem_node" and fee: "fee = ucast (pending_base_fee (x_crypto mem_ext) mem_node)"
    by (rule first_seal [OF mem_at_genesis assms])
  from t have "res = Success 21000 (OutCall []) []"
    by (auto simp: transact_raw_def mem_charge_def Let_def split: if_splits)
  with b r fee show ?thesis by (simp add: mem_pending)
qed

section \<open>Properties\<close>

text \<open>
  The struct-log mapping of a tracer step never panics and is exact: the entry's \<open>op\<close> is the opcode name when
  the tracer gave one, the tracer's internal members are gone, the stack and the memory are there unless
  disabled, and every other member is passed through unchanged.
\<close>

theorem map_step_members:
  assumes "jfield step ''pc'' \<noteq> None"
  shows "\<exists>entry. map_step step opts = Returns entry \<and>
    (\<forall>key. jfield entry key =
       (if key \<in> set (dropped_members opts) \<or> key = ''opName'' then None
        else if key = ''op'' \<and> jfield step ''opName'' \<noteq> None then jfield step ''opName''
        else jfield step key))"
proof -
  from assms obtain obj where obj: "as_object step = Some obj" by (cases "as_object step") (auto simp: jfield_def)
  have keys: "''op'' \<notin> set (dropped_members opts)" "''op'' \<noteq> ''opName''" by (simp_all add: dropped_members_def)
  show ?thesis
    using obj keys by (auto simp: map_step_def jfield_def as_object_def Let_def jget_remove_all jget_simps
        split: option.splits)
qed

theorem map_step_members_witness:
  "map_step (JObj [(''pc'', JInt 0), (''op'', JInt 96), (''opName'', JStr ''PUSH1''), (''stack'', JArr [])])
       \<lparr>op_disable_stack = True, op_disable_memory = False\<rparr>
     = Returns (JObj [(''pc'', JInt 0), (''op'', JStr ''PUSH1'')])
   \<and> (\<exists>entry. map_step (JObj [(''pc'', JInt 0), (''op'', JInt 96), (''opName'', JStr ''PUSH1'')]) default_options
          = Returns entry \<and> jfield entry ''op'' = Some (JStr ''PUSH1''))"
proof (rule conjI)
  show "\<exists>entry. map_step (JObj [(''pc'', JInt 0), (''op'', JInt 96), (''opName'', JStr ''PUSH1'')]) default_options
          = Returns entry \<and> jfield entry ''op'' = Some (JStr ''PUSH1'')"
    using map_step_members [of "JObj [(''pc'', JInt 0), (''op'', JInt 96), (''opName'', JStr ''PUSH1'')]" default_options]
    by (auto simp: jfield_def as_object_def jget_def dropped_members_def default_options_def)
qed (simp add: map_step_def as_object_def jget_def jinsert_def jremove_def dropped_members_def)

text \<open>
  C40. Tracing a transaction of the first block: on any later consistent chain of a node that started from genesis, the
  trace runs the inspector on the genesis state, in the environment the block was sealed in and with the transaction as
  it was decoded. With an inspector that reports what execution without it reports and writes JSON lines, the trace
  returns; it reports failure exactly when the receipt does; its struct logs are the mapped step lines in order; its gas is
  that of the last line that is no step if that line names one, otherwise the receipt's.
\<close>

theorem trace_first_block_exact:
  assumes "tracer_ok tr (x_revm x)" and "at_genesis x n0" and "seal_committed x n0 raw ts = (Inr hash, n1)"
    and "ledger_ok (x_crypto x) n2" and "n_blocks n2 = n_blocks n1 @ bs" and "n_spec n2 = n_spec n1"
    and "n_receipts n2 hash = n_receipts n1 hash"
  shows "\<exists>r p res chunks db doc out. n_receipts n1 hash = Some r
    \<and> prepared_decode (x_crypto x) raw (cs_chain_id (n_spec n0)) = Inr p
    \<and> tr_inspect tr (build_kanari_evm_traced (x_pqc x) \<lparr>ep_chain_id = cs_chain_id (n_spec n0),
         ep_spec = cs_spec_id (n_spec n0), ep_number = 1, ep_timestamp = ts,
         ep_basefee = ucast (pending_base_fee (x_crypto x) n0), ep_gas_limit = BLOCK_GAS_LIMIT,
         ep_beneficiary = BLOCK_BENEFICIARY\<rparr> []) (n_db n0) (pt_inner p) = (Inr res, chunks, db)
    \<and> tr_from_utf8 tr (concat chunks) = Inr doc
    \<and> trace_transaction x tr tx n2 hash opts = Returns (Inr out)
    \<and> to_failed out = (\<not> sr_success r)
    \<and> to_gas_used out = reported_gas (line_values (tr_from_str tr) (text_lines doc)) (sr_gas_used r)
    \<and> list_all2 (\<lambda>v s. map_step v opts = Returns s)
        (filter is_step (line_values (tr_from_str tr) (text_lines doc))) (to_struct_logs out)"
proof -
  have g: "apply_genesis (x_revm x) (n_spec n0) (rv_default (x_revm x)) = Returns (n_db n0)"
    using assms(2) by (simp add: at_genesis_def)
  from assms(2,3) obtain fee p res db1 b r where
    p: "prepared_decode (x_crypto x) raw (cs_chain_id (n_spec n0)) = Inr p"
    and t: "transact_raw (x_revm x) (x_pqc x) (n_db n0) (n_spec n0) p 1 ts fee = (Inr res, db1)"
    and b: "n_blocks n1 = [b]" "sb_number b = 1" "sb_timestamp b = ts" "sb_base_fee b = fee" "sb_txs b = [raw]"
    and r: "n_receipts n1 hash = Some r" "sr_block_number r = 1" "sr_success r = fst (execution_summary res)"
      "sr_gas_used r = tx_gas_used res"
    and h: "hash = keccak256 (x_crypto x) raw" "n_spec n1 = n_spec n0"
    and fee: "fee = ucast (pending_base_fee (x_crypto x) n0)"
    by (rule first_seal)
  obtain st where st: "fst (rv_transact (x_revm x) (block_evm (x_pqc x) (n_spec n0) 1 ts fee) (n_db n0) (pt_inner p))
      = Inr (res, st)"
    using t by (auto simp: transact_raw_def split: prod.splits sum.splits)
  have "block_by_number n2 1 = Some b"
    using block_by_number_member [OF assms(4), of b] b assms(5) by simp
  moreover have "filter (\<lambda>b. sb_number b < 1) (n_blocks n2) = []"
    using assms(4) by (auto simp: ledger_ok_def filter_empty_conv dest: numbered_pos)
  ultimately have "trace_transaction x tr tx n2 hash opts
      = fst (trace_in tr (x_pqc x) (n_db n0) (n_spec n0) (pt_inner p) 1 ts fee opts)"
    using p b r h g assms(6,7) by (simp add: trace_transaction_def tx_record_def receipt_def)
  with trace_in_result [OF assms(1) st, of opts] p r show ?thesis unfolding fee by metis
qed

theorem trace_first_block_exact_witness:
  "\<exists>n1 out. seal_committed mem_ext mem_node [1] 100 = (Inr 1, n1)
     \<and> trace_transaction mem_ext mem_tracer mem_text n1 1 default_options = Returns (Inr out)
     \<and> to_gas_used out = 21000 \<and> \<not> to_failed out"
proof -
  obtain n1 where n1: "seal_committed mem_ext mem_node [1] 100 = (Inr 1, n1)" using mem_seal by blast
  have "tracer_ok mem_tracer (x_revm mem_ext)" "ledger_ok (x_crypto mem_ext) n1"
    using mem_tracer_ok mem_seal_ledger [OF n1] by simp_all
  note ok = this
  have "n_blocks n1 = n_blocks n1 @ []" "n_spec n1 = n_spec n1" "n_receipts n1 1 = n_receipts n1 1" by simp_all
  from trace_first_block_exact [OF ok(1) mem_at_genesis n1 ok(2) this, of mem_text default_options]
  obtain r txe res chunks db doc out evm where o: "n_receipts n1 1 = Some r"
    "tr_inspect mem_tracer evm (n_db mem_node) txe = (Inr res, chunks, db)"
    "tr_from_utf8 mem_tracer (concat chunks) = Inr doc"
    "trace_transaction mem_ext mem_tracer mem_text n1 1 default_options = Returns (Inr out)"
    "to_failed out = (\<not> sr_success r)"
    "to_gas_used out = reported_gas (line_values (tr_from_str mem_tracer) (text_lines doc)) (sr_gas_used r)"
    by (elim exE conjE) (rule that)
  have doc: "doc = ''summary''" using o(2,3) by (auto simp: mem_tracer_def ascii_def char_of_def bit_0)
  have "text_lines ''summary'' = [''summary'']" "trim ''summary'' = ''summary''"
    by (simp add: text_lines_def) (rule trim_graphic, simp add: graphic_def)
  then have "to_gas_used out = 21000"
    by (simp add: o(6) doc line_values_def mem_tracer_def reported_gas_def is_step_def jfield_def as_object_def jget_def
        summary_gas_def as_str_def from_str_radix16_def to_digit16_def)
  with n1 o mem_first_receipt [OF n1] show ?thesis by auto
qed

text \<open>
  The state a trace runs on is not the historical one when an earlier block paid a base fee: replaying the
  first block into the scratch database gives every account its balance except the beneficiary, which lacks the
  fee share that sealing credited.
\<close>

theorem trace_state_misses_fee_share:
  assumes "db_ok (x_revm x)" and "at_genesis x n0" and "seal_committed x n0 raw ts = (Inr hash, n1)"
    and "n_receipts n1 hash = Some r"
  shows "\<exists>db. scratch_blocks x (n_spec n1) (n_blocks n1) (n_db n0) = Inr db
    \<and> (\<forall>a. balance_in (x_revm x) (n_db n1) a =
         (if a = BLOCK_BENEFICIARY
          then min (balance_in (x_revm x) db a
                 + unat (base_fee_share (sr_gas_used r) (ucast (sb_base_fee (last (n_blocks n1)))))) (2 ^ 256 - 1)
          else balance_in (x_revm x) db a))"
proof -
  from assms(2,3) obtain fee p res db1 b r' where
    p: "prepared_decode (x_crypto x) raw (cs_chain_id (n_spec n0)) = Inr p"
    and t: "transact_raw (x_revm x) (x_pqc x) (n_db n0) (n_spec n0) p 1 ts fee = (Inr res, db1)"
    and pay: "pay_base_fee (x_revm x) (n0\<lparr>n_db := db1\<rparr>) (tx_gas_used res) fee = (Inr (), n0\<lparr>n_db := n_db n1\<rparr>)"
    and b: "n_blocks n1 = [b]" "sb_number b = 1" "sb_timestamp b = ts" "sb_base_fee b = fee" "sb_txs b = [raw]"
    and r: "n_receipts n1 hash = Some r'" "sr_gas_used r' = tx_gas_used res" and h: "n_spec n1 = n_spec n0"
    by (rule first_seal)
  have "scratch_blocks x (n_spec n1) (n_blocks n1) (n_db n0) = Inr db1"
    using p t b h by simp
  moreover from pay have "pay_base_fee (x_revm x) (n0\<lparr>n_db := db1\<rparr>) (tx_gas_used res) fee
      = (Inr (), (n0\<lparr>n_db := db1\<rparr>)\<lparr>n_db := n_db n1\<rparr>)" by simp
  note pay_base_fee_balance [OF assms(1) this]
  moreover have "r' = r" using r assms(4) by simp
  ultimately show ?thesis using r b by simp
qed

theorem trace_state_misses_fee_share_witness:
  "\<exists>n1 db. seal_committed mem_ext mem_node [1] 100 = (Inr 1, n1)
     \<and> scratch_blocks mem_ext mem_spec (n_blocks n1) (n_db mem_node) = Inr db
     \<and> balance_in mem_revm (n_db n1) BLOCK_BENEFICIARY
         = min (balance_in mem_revm db BLOCK_BENEFICIARY + 21000000000000) (2 ^ 256 - 1)"
proof -
  obtain n1 where n1: "seal_committed mem_ext mem_node [1] 100 = (Inr 1, n1)" using mem_seal by blast
  from mem_first_receipt [OF n1] obtain r where r: "n_receipts n1 1 = Some r" "sr_gas_used r = 21000"
    "sb_base_fee (last (n_blocks n1)) = 1000000000" "n_spec n1 = mem_spec" by blast
  have ok: "db_ok (x_revm mem_ext)" by (simp add: mem_db_ok)
  have share: "unat (base_fee_share 21000 1000000000) = 21000000000000"
    by (simp add: base_fee_share_def unat_simps)
  obtain db where db: "scratch_blocks mem_ext mem_spec (n_blocks n1) (n_db mem_node) = Inr db"
    "balance_in mem_revm (n_db n1) BLOCK_BENEFICIARY
       = min (balance_in mem_revm db BLOCK_BENEFICIARY + 21000000000000) (2 ^ 256 - 1)"
    using trace_state_misses_fee_share [OF ok mem_at_genesis n1 r(1)] r share by auto
  show ?thesis using n1 db by auto
qed

end
