(* ===== verification/Rpc.thy ===== *)
theory Rpc
  imports Trace "HOL-Library.Sublist"
begin

text \<open>
  The JSON-RPC server (\<^verbatim>\<open>crates/server_rpc/src/rpc.rs\<close>): parsing of parameters, log filters, one definition
  per method, dispatch by name, and single and batch requests. The node behind the lock is passed from request
  to request. A handler that panics (axum drops the connection, the lock is released) returns \<open>Panics\<close> with the
  node as it then is. The clock is an argument of the methods that read it.
\<close>

section \<open>Requests and responses\<close>

record RpcRequest =
  rq_id :: Json
  rq_method :: string
  rq_params :: Json

record RpcResponse =
  rp_id :: Json
  rp_result :: "Json option"
  rp_error :: "(int \<times> string) option"

definition ok :: "Json \<Rightarrow> Json \<Rightarrow> RpcResponse" where
  "ok rid result = \<lparr>rp_id = rid, rp_result = Some result, rp_error = None\<rparr>"

definition err :: "Json \<Rightarrow> int \<Rightarrow> string \<Rightarrow> RpcResponse" where
  "err rid code message = \<lparr>rp_id = rid, rp_result = None, rp_error = Some (code, message)\<rparr>"

text \<open>The messages of \<open>NodeError\<close>.\<close>

fun node_error_string :: "NodeError \<Rightarrow> string" where
  "node_error_string (InvalidTransaction m) = ''invalid transaction bytes: '' @ m"
| "node_error_string UnsupportedTxType =
     ''unsupported transaction type (only legacy, EIP-2930, EIP-1559 and EIP-7702 are accepted)''"
| "node_error_string UnsupportedBlobTransactions =
     ''EIP-4844 blob transactions are not supported on this chain: there is no blob mempool or KZG '' @
     ''commitment check here. Resubmit as EIP-1559 (type 2) or EIP-7702 (type 4) with the same nonce.''"
| "node_error_string (BadSignature m) = ''signature recovery failed: '' @ m"
| "node_error_string (WrongChainId got want) =
     ''wrong chain id: tx for '' @ decimal (unat got) @ '', this chain is '' @ decimal (unat want)"
| "node_error_string (Execution m) = ''execution failed: '' @ m"
| "node_error_string (Storage m) = ''storage error: '' @ m"
| "node_error_string NoFaucetConfigured = ''no faucet key configured (fresh state creates one automatically)''"

definition node_error :: "Json \<Rightarrow> NodeError \<Rightarrow> RpcResponse" where
  "node_error rid e = err rid (- 32000) (node_error_string e)"

section \<open>Parameters\<close>

definition as_array :: "Json \<Rightarrow> Json list option" where
  "as_array v = (case v of JArr xs \<Rightarrow> Some xs | _ \<Rightarrow> None)"

definition params_arr :: "Json \<Rightarrow> Json list" where
  "params_arr params = (case as_array params of Some xs \<Rightarrow> xs | None \<Rightarrow> [])"

definition object_or_empty :: "Json option \<Rightarrow> (string \<times> Json) list" where
  "object_or_empty v = (case Option.bind v as_object of Some obj \<Rightarrow> obj | None \<Rightarrow> [])"

definition parse_address :: "TextOps \<Rightarrow> Json \<Rightarrow> string + Address" where
  "parse_address tx v = ok_or ''invalid address (want 0x-hex)'' (Option.bind (as_str v) (of_address tx))"

definition parse_hash :: "TextOps \<Rightarrow> Json \<Rightarrow> string + B256" where
  "parse_hash tx v = ok_or ''invalid hash (want 0x-hex)'' (Option.bind (as_str v) (of_hash tx))"

definition parse_bytes :: "TextOps \<Rightarrow> Json \<Rightarrow> string + bytes" where
  "parse_bytes tx v = ok_or ''invalid bytes (want 0x-hex)'' (Option.bind (as_str v) (of_bytes tx))"

definition parse_u64 :: "Json \<Rightarrow> string + u64" where
  "parse_u64 v =
     res_bind (ok_or ''want 0x quantity'' (as_str v)) (\<lambda>s.
       ok_or ''invalid 0x quantity'' (map_option of_nat (from_str_radix16 (2 ^ 64 - 1) (trim_0x s))))"

definition parse_u256 :: "TextOps \<Rightarrow> Json \<Rightarrow> string + U256" where
  "parse_u256 tx v =
     res_bind (ok_or ''want 0x quantity'' (as_str v)) (\<lambda>s.
       ok_or ''invalid 0x quantity'' (of_u256 tx (trim_0x s)))"

definition take_parsed :: "(string \<times> Json) list \<Rightarrow> string \<Rightarrow> (Json \<Rightarrow> string + 'a) \<Rightarrow> string + 'a option" where
  "take_parsed obj key parse =
     (case jget obj key of
        None \<Rightarrow> Inr None
      | Some JNull \<Rightarrow> Inr None
      | Some v \<Rightarrow> res_bind (parse v) (\<lambda>y. Inr (Some y)))"

section \<open>Log filters\<close>

definition range_bound :: "(string \<times> Json) list \<Rightarrow> u64 \<Rightarrow> string \<Rightarrow> u64 \<Rightarrow> string + u64" where
  "range_bound flt latest key fallback =
     (case jget flt key of
        None \<Rightarrow> Inr fallback
      | Some JNull \<Rightarrow> Inr fallback
      | Some v \<Rightarrow>
          (if v = JStr ''latest'' \<or> v = JStr ''pending'' then Inr latest
           else if v = JStr ''earliest'' then Inr 0
           else parse_u64 v))"

definition range_bounds :: "(string \<times> Json) list \<Rightarrow> u64 \<Rightarrow> string + u64 \<times> u64" where
  "range_bounds flt latest =
     res_bind (range_bound flt latest ''fromBlock'' latest) (\<lambda>lo.
     res_bind (range_bound flt latest ''toBlock'' latest) (\<lambda>hi.
       Inr (min lo hi, min (max hi lo) latest)))"

definition log_block_range ::
  "TextOps \<Rightarrow> (string \<times> Json) list \<Rightarrow> u64 \<Rightarrow> ('db, 'h) KanariNode \<Rightarrow> string + u64 \<times> u64" where
  "log_block_range tx flt latest n =
     (case jget flt ''blockHash'' of
        None \<Rightarrow> range_bounds flt latest
      | Some JNull \<Rightarrow> range_bounds flt latest
      | Some hash_v \<Rightarrow>
          res_bind (parse_hash tx hash_v) (\<lambda>hash.
          res_bind (ok_or ''unknown blockHash'' (map_option sb_number (block_by_hash n hash))) (\<lambda>number.
            Inr (number, number))))"

definition log_addresses :: "TextOps \<Rightarrow> (string \<times> Json) list \<Rightarrow> string + Address list option" where
  "log_addresses tx flt =
     (case jget flt ''address'' of
        None \<Rightarrow> Inr None
      | Some JNull \<Rightarrow> Inr None
      | Some (JArr addrs) \<Rightarrow> res_bind (collect_results (parse_address tx) addrs) (\<lambda>xs. Inr (Some xs))
      | Some v \<Rightarrow> res_bind (parse_address tx v) (\<lambda>a. Inr (Some [a])))"

definition topic_slot :: "TextOps \<Rightarrow> Json \<Rightarrow> string + B256 list option" where
  "topic_slot tx entry =
     (case entry of
        JNull \<Rightarrow> Inr None
      | JArr options \<Rightarrow> res_bind (collect_results (parse_hash tx) options) (\<lambda>hs. Inr (Some hs))
      | v \<Rightarrow> res_bind (parse_hash tx v) (\<lambda>h. Inr (Some [h])))"

definition log_topics :: "TextOps \<Rightarrow> (string \<times> Json) list \<Rightarrow> string + B256 list option list" where
  "log_topics tx flt =
     (case jget flt ''topics'' of
        None \<Rightarrow> Inr []
      | Some topics \<Rightarrow>
          res_bind (ok_or ''topics must be an array'' (as_array topics)) (\<lambda>arr. collect_results (topic_slot tx) arr))"

definition topics_match :: "B256 list option list \<Rightarrow> B256 list \<Rightarrow> bool" where
  "topics_match flt topics =
     list_all (\<lambda>(i, slot). case slot of
         None \<Rightarrow> True
       | Some options \<Rightarrow> (case get_at topics i of None \<Rightarrow> False | Some t \<Rightarrow> t \<in> set options)) (enumerate 0 flt)"

section \<open>Call requests\<close>

text \<open>\<open>U256::to::<u128>()\<close> panics above \<open>u128::MAX\<close>.\<close>

definition to_u128 :: "U256 \<Rightarrow> u128 outcome" where
  "to_u128 v = (if unat v < 2 ^ 128 then Returns (ucast v) else Panics)"

definition gas_price_of :: "U256 option \<Rightarrow> u128 option outcome" where
  "gas_price_of p = (case p of None \<Rightarrow> Returns None | Some v \<Rightarrow> out_bind (to_u128 v) (\<lambda>w. Returns (Some w)))"

definition call_data :: "TextOps \<Rightarrow> (string \<times> Json) list \<Rightarrow> string + bytes option" where
  "call_data tx obj =
     (case (jget obj ''data'', jget obj ''input'') of
        (Some v, _) \<Rightarrow> res_bind (parse_bytes tx v) (\<lambda>bs. Inr (Some bs))
      | (None, Some v) \<Rightarrow> res_bind (parse_bytes tx v) (\<lambda>bs. Inr (Some bs))
      | (None, None) \<Rightarrow> Inr None)"

text \<open>Fields are parsed in the order of the source; a gas price above \<open>u128\<close> panics once the earlier fields are
  well-formed.\<close>

definition call_request_from_json :: "TextOps \<Rightarrow> (string \<times> Json) list \<Rightarrow> (string + CallRequest) outcome" where
  "call_request_from_json tx obj =
     (case res_bind (call_data tx obj) (\<lambda>data.
           res_bind (take_parsed obj ''from'' (parse_address tx)) (\<lambda>sender.
           res_bind (take_parsed obj ''to'' (parse_address tx)) (\<lambda>target.
           res_bind (take_parsed obj ''value'' (parse_u256 tx)) (\<lambda>val.
           res_bind (take_parsed obj ''gas'' parse_u64) (\<lambda>gas.
           res_bind (take_parsed obj ''gasPrice'' (parse_u256 tx)) (\<lambda>price.
             Inr (data, sender, target, val, gas, price))))))) of
        Inl e \<Rightarrow> Returns (Inl e)
      | Inr (data, sender, target, val, gas, price) \<Rightarrow>
          out_bind (gas_price_of price) (\<lambda>gas_price. Returns (
            res_bind (take_parsed obj ''nonce'' parse_u64) (\<lambda>nonce.
              Inr \<lparr>cr_from = sender, cr_to = target, cr_data = data, cr_value = val, cr_gas = gas,
                   cr_gas_price = gas_price, cr_nonce = nonce\<rparr>))))"

section \<open>Methods\<close>

text \<open>The code outside the sources that the server calls; \<open>re_to_string\<close> is \<open>serde_json::to_string\<close> as bytes.\<close>

record ('db, 'st, 'h) RpcEnv =
  re_ext :: "('db, 'st, 'h) Ext"
  re_tracer :: "'db Tracer"
  re_text :: TextOps
  re_to_string :: "Json \<Rightarrow> bytes"

type_synonym ('db, 'h) rpc_result = "RpcResponse outcome \<times> ('db, 'h) KanariNode"

definition bad_params :: "Json \<Rightarrow> ('db, 'h) KanariNode \<Rightarrow> string \<Rightarrow> ('db, 'h) rpc_result" where
  "bad_params rid n message = (Returns (err rid (- 32602) message), n)"

definition reply :: "Json \<Rightarrow> ('a \<Rightarrow> Json) \<Rightarrow> ('db, 'h, 'a) node_result \<Rightarrow> ('db, 'h) rpc_result" where
  "reply rid render r =
     (Returns (case fst r of Inl e \<Rightarrow> node_error rid e | Inr v \<Rightarrow> ok rid (render v)), snd r)"

definition quantity :: "u64 \<Rightarrow> Json" where "quantity v = JStr (quantity_u64 v)"
definition big_quantity :: "U256 \<Rightarrow> Json" where "big_quantity v = JStr (quantity_u256 v)"

text \<open>A read of one account: balance, nonce and code.\<close>

definition eth_getCode :: "('db, 'st, 'h) RpcEnv \<Rightarrow> ('db, 'h) KanariNode \<Rightarrow> Json \<Rightarrow> Json \<Rightarrow> ('db, 'h) rpc_result" where
  "eth_getCode e n rid params =
     (case params_arr params of
        [] \<Rightarrow> bad_params rid n ''want [address, block]''
      | addr_v # _ \<Rightarrow>
          (case parse_address (re_text e) addr_v of
             Inl m \<Rightarrow> bad_params rid n m
           | Inr addr \<Rightarrow> reply rid (\<lambda>code. JStr (hex_prefixed code)) (code_of (x_revm (re_ext e)) n addr)))"

definition eth_getBalance :: "('db, 'st, 'h) RpcEnv \<Rightarrow> ('db, 'h) KanariNode \<Rightarrow> Json \<Rightarrow> Json \<Rightarrow> ('db, 'h) rpc_result" where
  "eth_getBalance e n rid params =
     (case params_arr params of
        [] \<Rightarrow> bad_params rid n ''want [address, block]''
      | addr_v # _ \<Rightarrow>
          (case parse_address (re_text e) addr_v of
             Inl m \<Rightarrow> bad_params rid n m
           | Inr addr \<Rightarrow> reply rid big_quantity (balance_of (x_revm (re_ext e)) n addr)))"

definition eth_getTransactionCount ::
  "('db, 'st, 'h) RpcEnv \<Rightarrow> ('db, 'h) KanariNode \<Rightarrow> Json \<Rightarrow> Json \<Rightarrow> ('db, 'h) rpc_result" where
  "eth_getTransactionCount e n rid params =
     (case params_arr params of
        [] \<Rightarrow> bad_params rid n ''want [address, block]''
      | addr_v # _ \<Rightarrow>
          (case parse_address (re_text e) addr_v of
             Inl m \<Rightarrow> bad_params rid n m
           | Inr addr \<Rightarrow> reply rid quantity (nonce_of (x_revm (re_ext e)) n addr)))"

definition eth_getStorageAt :: "('db, 'st, 'h) RpcEnv \<Rightarrow> ('db, 'h) KanariNode \<Rightarrow> Json \<Rightarrow> Json \<Rightarrow> ('db, 'h) rpc_result" where
  "eth_getStorageAt e n rid params =
     (case params_arr params of
        addr_v # slot_v # _ \<Rightarrow>
          (case (parse_address (re_text e) addr_v, parse_u256 (re_text e) slot_v) of
             (Inl m, _) \<Rightarrow> bad_params rid n m
           | (Inr _, Inl m) \<Rightarrow> bad_params rid n m
           | (Inr addr, Inr slot) \<Rightarrow>
               reply rid (\<lambda>v. JStr (bytes32_hex v)) (storage_of (x_revm (re_ext e)) n addr slot))
      | _ \<Rightarrow> bad_params rid n ''want [address, slot, block?]'')"

text \<open>The fee history: base fees and gas ratios from the oldest block to the head, the next block's fee last.\<close>

definition fee_history_count :: "Json list \<Rightarrow> u64" where
  "fee_history_count arr =
     (case arr of
        [] \<Rightarrow> 4
      | v # _ \<Rightarrow> (case parse_u64 v of Inl _ \<Rightarrow> 4 | Inr k \<Rightarrow> max 1 (min k 32)))"

definition fee_history_rewards :: "Json list \<Rightarrow> nat" where
  "fee_history_rewards arr =
     (case Option.bind (get_at arr 2) as_array of None \<Rightarrow> 1 | Some a \<Rightarrow> max (length a) 1)"

definition fee_history_entry :: "Crypto \<Rightarrow> ('db, 'h) KanariNode \<Rightarrow> u64 \<Rightarrow> Json \<times> Json" where
  "fee_history_entry cr n number =
     (case block_by_number n number of
        Some block \<Rightarrow> (big_quantity (ucast (sb_base_fee block)),
                       JRatio (unat (block_gas_used cr n number)) (unat BLOCK_GAS_LIMIT))
      | None \<Rightarrow> (big_quantity (ucast (pending_base_fee cr n)), JRatio 0 1))"

definition eth_feeHistory :: "('db, 'st, 'h) RpcEnv \<Rightarrow> ('db, 'h) KanariNode \<Rightarrow> Json \<Rightarrow> Json \<Rightarrow> ('db, 'h) rpc_result" where
  "eth_feeHistory e n rid params =
     (let arr = params_arr params; cr = x_crypto (re_ext e);
          count = fee_history_count arr;
          latest = block_number n;
          oldest = sat_sub latest (count - 1);
          entries = map (fee_history_entry cr n) (number_range oldest latest)
      in (Returns (ok rid (JObj
            [(''oldestBlock'', quantity oldest),
             (''baseFeePerGas'', JArr (map fst entries @ [big_quantity (ucast (pending_base_fee cr n))])),
             (''gasUsedRatio'', JArr (map snd entries)),
             (''reward'', JArr (replicate (unat count)
                (JArr (replicate (fee_history_rewards arr) (JStr ''0x0'')))))])), n))"

definition eth_gasPrice :: "('db, 'st, 'h) RpcEnv \<Rightarrow> ('db, 'h) KanariNode \<Rightarrow> Json \<Rightarrow> ('db, 'h) rpc_result" where
  "eth_gasPrice e n rid = (Returns (ok rid (big_quantity (ucast (pending_base_fee (x_crypto (re_ext e)) n)))), n)"

section \<open>Transactions, logs and blocks\<close>

definition eth_sendRawTransaction ::
  "('db, 'st, 'h) RpcEnv \<Rightarrow> ('db, 'h) KanariNode \<Rightarrow> u64 \<Rightarrow> Json \<Rightarrow> Json \<Rightarrow> ('db, 'h) rpc_result" where
  "eth_sendRawTransaction e n now rid params =
     (case params_arr params of
        [] \<Rightarrow> bad_params rid n ''want [rawTx]''
      | raw_v # _ \<Rightarrow>
          (case parse_bytes (re_text e) raw_v of
             Inl m \<Rightarrow> bad_params rid n m
           | Inr raw \<Rightarrow> reply rid (\<lambda>hash. JStr (to_hash (re_text e) hash)) (send_raw_transaction (re_ext e) n raw now)))"

definition view_or_null :: "Json \<Rightarrow> ('db, 'h) KanariNode \<Rightarrow> Json option \<Rightarrow> ('db, 'h) rpc_result" where
  "view_or_null rid n v = (Returns (ok rid (case v of Some view \<Rightarrow> view | None \<Rightarrow> JNull)), n)"

definition eth_getTransactionByHash ::
  "('db, 'st, 'h) RpcEnv \<Rightarrow> ('db, 'h) KanariNode \<Rightarrow> Json \<Rightarrow> Json \<Rightarrow> ('db, 'h) rpc_result" where
  "eth_getTransactionByHash e n rid params =
     (case params_arr params of
        [] \<Rightarrow> bad_params rid n ''want [hash]''
      | hash_v # _ \<Rightarrow>
          (case parse_hash (re_text e) hash_v of
             Inl m \<Rightarrow> bad_params rid n m
           | Inr hash \<Rightarrow> view_or_null rid n (tx_view (x_crypto (re_ext e)) (re_text e) n hash)))"

definition eth_getTransactionReceipt ::
  "('db, 'st, 'h) RpcEnv \<Rightarrow> ('db, 'h) KanariNode \<Rightarrow> Json \<Rightarrow> Json \<Rightarrow> ('db, 'h) rpc_result" where
  "eth_getTransactionReceipt e n rid params =
     (case params_arr params of
        [] \<Rightarrow> bad_params rid n ''want [hash]''
      | hash_v # _ \<Rightarrow>
          (case parse_hash (re_text e) hash_v of
             Inl m \<Rightarrow> bad_params rid n m
           | Inr hash \<Rightarrow> view_or_null rid n (receipt_view (x_crypto (re_ext e)) (re_text e) n hash)))"

definition log_matches :: "Address list option \<Rightarrow> B256 list option list \<Rightarrow> SealedLog \<Rightarrow> bool" where
  "log_matches addresses topics log \<longleftrightarrow>
     (case addresses of None \<Rightarrow> True | Some addrs \<Rightarrow> lo_address log \<in> set addrs) \<and> topics_match topics (lo_topics log)"

definition eth_getLogs :: "('db, 'st, 'h) RpcEnv \<Rightarrow> ('db, 'h) KanariNode \<Rightarrow> Json \<Rightarrow> Json \<Rightarrow> ('db, 'h) rpc_result" where
  "eth_getLogs e n rid params =
     (let flt = object_or_empty (get_at (params_arr params) 0) in
      case log_block_range (re_text e) flt (block_number n) n of
        Inl m \<Rightarrow> bad_params rid n m
      | Inr (lo, hi) \<Rightarrow>
        (case log_addresses (re_text e) flt of
           Inl m \<Rightarrow> bad_params rid n m
         | Inr addresses \<Rightarrow>
           (case log_topics (re_text e) flt of
              Inl m \<Rightarrow> bad_params rid n m
            | Inr topics \<Rightarrow>
                (Returns (ok rid (JArr (map (render_sealed_log (re_text e))
                   (filter (log_matches addresses topics) (logs_in_range (x_crypto (re_ext e)) n lo hi))))), n))))"

definition full_txs_flag :: "Json list \<Rightarrow> bool" where
  "full_txs_flag arr = (case get_at arr 1 of Some (JBool b) \<Rightarrow> b | _ \<Rightarrow> False)"

definition eth_getBlockByHash :: "('db, 'st, 'h) RpcEnv \<Rightarrow> ('db, 'h) KanariNode \<Rightarrow> Json \<Rightarrow> Json \<Rightarrow> ('db, 'h) rpc_result" where
  "eth_getBlockByHash e n rid params =
     (case params_arr params of
        [] \<Rightarrow> bad_params rid n ''want [blockHash, fullTxs]''
      | hash_v # _ \<Rightarrow>
          (case parse_hash (re_text e) hash_v of
             Inl m \<Rightarrow> bad_params rid n m
           | Inr hash \<Rightarrow> view_or_null rid n (block_view_by_hash (x_crypto (re_ext e)) (re_text e) n hash
                            (full_txs_flag (params_arr params)))))"

text \<open>The block a tag or quantity names; \<open>None\<close> is the head.\<close>

definition block_tag :: "Json \<Rightarrow> string + u64 option" where
  "block_tag v =
     (if v = JStr ''latest'' \<or> v = JStr ''pending'' then Inr None
      else if v = JStr ''earliest'' then Inr (Some 0)
      else res_bind (parse_u64 v) (\<lambda>k. Inr (Some k)))"

definition eth_getBlockByNumber ::
  "('db, 'st, 'h) RpcEnv \<Rightarrow> ('db, 'h) KanariNode \<Rightarrow> Json \<Rightarrow> Json \<Rightarrow> ('db, 'h) rpc_result" where
  "eth_getBlockByNumber e n rid params =
     (case params_arr params of
        [] \<Rightarrow> bad_params rid n ''want [blockNumber, fullTxs]''
      | v # _ \<Rightarrow>
          (case block_tag v of
             Inl m \<Rightarrow> bad_params rid n m
           | Inr tag \<Rightarrow> view_or_null rid n (block_view (x_crypto (re_ext e)) (re_text e) n
                           (case tag of Some k \<Rightarrow> k | None \<Rightarrow> block_number n)
                           (full_txs_flag (params_arr params)))))"

section \<open>Calls and traces\<close>

definition eth_call ::
  "('db, 'st, 'h) RpcEnv \<Rightarrow> ('db, 'h) KanariNode \<Rightarrow> u64 \<Rightarrow> bool \<Rightarrow> Json \<Rightarrow> Json \<Rightarrow> ('db, 'h) rpc_result" where
  "eth_call e n now estimate rid params =
     (case params_arr params of
        [] \<Rightarrow> bad_params rid n ''want [{...}, block]''
      | v # _ \<Rightarrow>
          (case call_request_from_json (re_text e) (object_or_empty (Some v)) of
             Panics \<Rightarrow> (Panics, n)
           | Returns (Inl m) \<Rightarrow> bad_params rid n m
           | Returns (Inr c) \<Rightarrow>
               reply rid (\<lambda>out. if estimate then quantity (co_gas_used out) else JStr (hex_prefixed (co_output out)))
                 (call (re_ext e) n c now)))"

definition trace_options :: "Json option \<Rightarrow> string + TraceOptions" where
  "trace_options v = (case v of None \<Rightarrow> Inr default_options | Some o' \<Rightarrow> options_from_json o')"

definition traced :: "Json \<Rightarrow> (NodeError + TraceOutput) outcome \<times> ('db, 'h) KanariNode \<Rightarrow> ('db, 'h) rpc_result" where
  "traced rid r =
     (case fst r of
        Panics \<Rightarrow> (Panics, snd r)
      | Returns out \<Rightarrow> reply rid trace_to_json (out, snd r))"

definition debug_traceTransaction ::
  "('db, 'st, 'h) RpcEnv \<Rightarrow> ('db, 'h) KanariNode \<Rightarrow> Json \<Rightarrow> Json \<Rightarrow> ('db, 'h) rpc_result" where
  "debug_traceTransaction e n rid params =
     (case params_arr params of
        [] \<Rightarrow> bad_params rid n ''want [txHash, options?]''
      | hash_v # _ \<Rightarrow>
          (case parse_hash (re_text e) hash_v of
             Inl m \<Rightarrow> bad_params rid n m
           | Inr hash \<Rightarrow>
             (case trace_options (get_at (params_arr params) 1) of
                Inl m \<Rightarrow> bad_params rid n m
              | Inr opts \<Rightarrow>
                  traced rid (trace_transaction (re_ext e) (re_tracer e) (re_text e) n hash opts, n))))"

definition debug_traceCall ::
  "('db, 'st, 'h) RpcEnv \<Rightarrow> ('db, 'h) KanariNode \<Rightarrow> u64 \<Rightarrow> Json \<Rightarrow> Json \<Rightarrow> ('db, 'h) rpc_result" where
  "debug_traceCall e n now rid params =
     (case params_arr params of
        [] \<Rightarrow> bad_params rid n ''want [{...}, block?, options?]''
      | v # _ \<Rightarrow>
          (case call_request_from_json (re_text e) (object_or_empty (Some v)) of
             Panics \<Rightarrow> (Panics, n)
           | Returns (Inl m) \<Rightarrow> bad_params rid n m
           | Returns (Inr c) \<Rightarrow>
             (case trace_options (get_at (params_arr params) 2) of
                Inl m \<Rightarrow> bad_params rid n m
              | Inr opts \<Rightarrow> traced rid (trace_call (re_ext e) (re_tracer e) n c opts now))))"

section \<open>Chain-specific methods\<close>

text \<open>\<open>str::parse::<u128>()\<close>: decimal digits with an optional plus sign.\<close>

fun radix10_digits :: "nat \<Rightarrow> nat \<Rightarrow> string \<Rightarrow> nat option" where
  "radix10_digits maxv acc [] = Some acc"
| "radix10_digits maxv acc (c # cs) =
     (if 48 \<le> code_of_char c \<and> code_of_char c \<le> 57 \<and> acc * 10 + (code_of_char c - 48) \<le> maxv
      then radix10_digits maxv (acc * 10 + (code_of_char c - 48)) cs else None)"

definition parse_decimal :: "nat \<Rightarrow> string \<Rightarrow> nat option" where
  "parse_decimal maxv s =
     (case s of
        [] \<Rightarrow> None
      | [c] \<Rightarrow> (if c = CHR ''+'' then None else radix10_digits maxv 0 [c])
      | c # cs \<Rightarrow> radix10_digits maxv 0 (if c = CHR ''+'' then cs else s))"

definition as_u64 :: "Json \<Rightarrow> nat option" where
  "as_u64 v = (case v of JInt i \<Rightarrow> (if 0 \<le> i \<and> i < 2 ^ 64 then Some (nat i) else None) | _ \<Rightarrow> None)"

definition eth_amount :: "Json option \<Rightarrow> string + u128" where
  "eth_amount v =
     (case v of
        None \<Rightarrow> Inr 100
      | Some JNull \<Rightarrow> Inr 100
      | Some w \<Rightarrow>
          (case Option.bind (as_str w) (parse_decimal (2 ^ 128 - 1)) of
             Some k \<Rightarrow> Inr (of_nat k)
           | None \<Rightarrow> (case as_u64 w of
                 Some k \<Rightarrow> Inr (of_nat k)
               | None \<Rightarrow> Inl ''ethAmount must be a whole-ETH number or 0x quantity'')))"

definition kanari_faucet ::
  "('db, 'st, 'h) RpcEnv \<Rightarrow> ('db, 'h) KanariNode \<Rightarrow> u64 \<Rightarrow> Json \<Rightarrow> Json \<Rightarrow> ('db, 'h) rpc_result" where
  "kanari_faucet e n now rid params =
     (case params_arr params of
        [] \<Rightarrow> bad_params rid n ''want [address, ethAmount?]''
      | addr_v # _ \<Rightarrow>
          (case parse_address (re_text e) addr_v of
             Inl m \<Rightarrow> bad_params rid n m
           | Inr address \<Rightarrow>
             (case eth_amount (get_at (params_arr params) 1) of
                Inl m \<Rightarrow> bad_params rid n m
              | Inr eth \<Rightarrow>
                (case checked_mul eth 1000000000000000000 of
                   None \<Rightarrow> bad_params rid n ''ethAmount too large''
                 | Some amount \<Rightarrow>
                     reply rid (\<lambda>hash. JStr (to_hash (re_text e) hash))
                       (faucet (re_ext e) n address (ucast amount) now)))))"

definition kanari_supply :: "('db, 'h) KanariNode \<Rightarrow> Json \<Rightarrow> ('db, 'h) rpc_result" where
  "kanari_supply n rid =
     (let (total, cap) = node_supply n
      in (Returns (ok rid (JObj [(''totalSupply'', big_quantity total), (''maxSupply'', big_quantity cap)])), n))"

definition render_proof :: "TextOps \<Rightarrow> SmtProof \<Rightarrow> Json" where
  "render_proof tx p =
     JObj [(''root'', JStr (to_hash tx (sp_root p))),
           (''key'', JStr (to_hash tx (sp_key p))),
           (''value'', opt_str (map_option hex_prefixed (sp_value p))),
           (''exists'', JBool (sp_exists p)),
           (''leaf'', JStr (to_hash tx (sp_leaf p))),
           (''proof'', JArr (map (JStr \<circ> to_hash tx) (sp_siblings p)))]"

definition proof_slot :: "TextOps \<Rightarrow> Json option \<Rightarrow> string + U256 option" where
  "proof_slot tx v =
     (case v of
        None \<Rightarrow> Inr None
      | Some JNull \<Rightarrow> Inr None
      | Some w \<Rightarrow> res_bind (parse_u256 tx w) (\<lambda>u. Inr (Some u)))"

definition kanari_getSmtProof :: "('db, 'st, 'h) RpcEnv \<Rightarrow> ('db, 'h) KanariNode \<Rightarrow> Json \<Rightarrow> Json \<Rightarrow> ('db, 'h) rpc_result" where
  "kanari_getSmtProof e n rid params =
     (case params_arr params of
        [] \<Rightarrow> bad_params rid n ''want [address, slot?]''
      | addr_v # _ \<Rightarrow>
          (case parse_address (re_text e) addr_v of
             Inl m \<Rightarrow> bad_params rid n m
           | Inr address \<Rightarrow>
             (case proof_slot (re_text e) (get_at (params_arr params) 1) of
                Inl m \<Rightarrow> bad_params rid n m
              | Inr slot \<Rightarrow>
                  reply rid (render_proof (re_text e))
                    (smt_proof (x_kv (re_ext e)) (x_crypto (re_ext e)) n address slot, n))))"

section \<open>Dispatch\<close>

definition dispatch_inner ::
  "('db, 'st, 'h) RpcEnv \<Rightarrow> ('db, 'h) KanariNode \<Rightarrow> u64 \<Rightarrow> RpcRequest \<Rightarrow> ('db, 'h) rpc_result" where
  "dispatch_inner e n now req =
     (let rid = rq_id req; params = rq_params req; method = rq_method req in
      if method = ''web3_clientVersion'' then (Returns (ok rid (JStr ''kanari-evm-node/0.2.8'')), n)
      else if method = ''net_version'' then (Returns (ok rid (JStr (decimal (unat (chain_id n))))), n)
      else if method = ''eth_chainId'' then (Returns (ok rid (quantity (chain_id n))), n)
      else if method = ''eth_blockNumber'' then (Returns (ok rid (quantity (block_number n))), n)
      else if method = ''eth_syncing'' then (Returns (ok rid (JBool False)), n)
      else if method = ''net_listening'' then (Returns (ok rid (JBool True)), n)
      else if method = ''eth_getCode'' then eth_getCode e n rid params
      else if method = ''eth_feeHistory'' then eth_feeHistory e n rid params
      else if method = ''eth_gasPrice'' \<or> method = ''eth_maxPriorityFeePerGas'' then eth_gasPrice e n rid
      else if method = ''eth_getBalance'' then eth_getBalance e n rid params
      else if method = ''eth_getTransactionCount'' then eth_getTransactionCount e n rid params
      else if method = ''eth_getStorageAt'' then eth_getStorageAt e n rid params
      else if method = ''eth_sendRawTransaction'' then eth_sendRawTransaction e n now rid params
      else if method = ''eth_getTransactionByHash'' then eth_getTransactionByHash e n rid params
      else if method = ''eth_getTransactionReceipt'' then eth_getTransactionReceipt e n rid params
      else if method = ''eth_getLogs'' then eth_getLogs e n rid params
      else if method = ''eth_getBlockByHash'' then eth_getBlockByHash e n rid params
      else if method = ''eth_getBlockByNumber'' then eth_getBlockByNumber e n rid params
      else if method = ''eth_call'' \<or> method = ''eth_estimateGas''
        then eth_call e n now (method = ''eth_estimateGas'') rid params
      else if method = ''debug_traceTransaction'' then debug_traceTransaction e n rid params
      else if method = ''debug_traceCall'' then debug_traceCall e n now rid params
      else if method = ''kanari_faucet'' then kanari_faucet e n now rid params
      else if method = ''kanari_supply'' then kanari_supply n rid
      else if method = ''kanari_getSmtProof'' then kanari_getSmtProof e n rid params
      else (Returns (err rid (- 32601) (''Method not found: '' @ method)), n))"

section \<open>Bodies\<close>

text \<open>\<open>serde_json::from_value::<RpcRequest>\<close>: an object with a string \<open>method\<close>, or the same fields in order as an
  array; \<open>jsonrpc\<close> is a string or null, \<open>id\<close> and \<open>params\<close> default to null.\<close>

definition version_ok :: "Json option \<Rightarrow> bool" where
  "version_ok v = (case v of None \<Rightarrow> True | Some JNull \<Rightarrow> True | Some (JStr _) \<Rightarrow> True | Some _ \<Rightarrow> False)"

definition or_null :: "Json option \<Rightarrow> Json" where
  "or_null v = (case v of Some w \<Rightarrow> w | None \<Rightarrow> JNull)"

definition request_fields :: "Json option \<Rightarrow> Json option \<Rightarrow> Json option \<Rightarrow> Json option \<Rightarrow> RpcRequest option" where
  "request_fields version rid method params =
     (if \<not> version_ok version then None
      else case Option.bind method as_str of
        None \<Rightarrow> None
      | Some m \<Rightarrow> Some \<lparr>rq_id = or_null rid, rq_method = m, rq_params = or_null params\<rparr>)"

definition parse_request :: "Json \<Rightarrow> RpcRequest option" where
  "parse_request v =
     (case v of
        JObj obj \<Rightarrow> request_fields (jget obj ''jsonrpc'') (jget obj ''id'') (jget obj ''method'') (jget obj ''params'')
      | JArr xs \<Rightarrow> (if length xs \<le> 4 then request_fields (get_at xs 0) (get_at xs 1) (get_at xs 2) (get_at xs 3)
                    else None)
      | _ \<Rightarrow> None)"

definition response_to_json :: "RpcResponse \<Rightarrow> Json" where
  "response_to_json r =
     JObj ([(''jsonrpc'', JStr ''2.0''), (''id'', rp_id r)]
       @ (case rp_result r of Some v \<Rightarrow> [(''result'', v)] | None \<Rightarrow> [])
       @ (case rp_error r of
            Some (code, message) \<Rightarrow> [(''error'', JObj [(''code'', JInt code), (''message'', JStr message)])]
          | None \<Rightarrow> []))"

text \<open>The log line of a call: \<open>&s[..160]\<close> panics when byte 160 continues a multi-byte character.\<close>

definition summarize_panics :: "bytes \<Rightarrow> bool" where
  "summarize_panics s \<longleftrightarrow> 160 < length s \<and> (128 \<le> s ! 160 \<and> s ! 160 < 192)"

text \<open>Requests of a batch run in order on the same node; \<open>clock k\<close> is the time when the \<open>k\<close>-th runs.\<close>

fun run_batch ::
  "('db, 'st, 'h) RpcEnv \<Rightarrow> ('db, 'h) KanariNode \<Rightarrow> (nat \<Rightarrow> u64) \<Rightarrow> nat \<Rightarrow> Json list
     \<Rightarrow> Json list outcome \<times> ('db, 'h) KanariNode" where
  "run_batch e n clock k [] = (Returns [], n)"
| "run_batch e n clock k (item # items) =
     (case parse_request item of
        None \<Rightarrow>
          (let (rs, n') = run_batch e n clock (Suc k) items
           in (out_bind rs (\<lambda>js. Returns (response_to_json (err JNull (- 32700) ''parse error'') # js)), n'))
      | Some req \<Rightarrow>
          (case dispatch_inner e n (clock k) req of
             (Panics, n1) \<Rightarrow> (Panics, n1)
           | (Returns r, n1) \<Rightarrow>
               (let (rs, n') = run_batch e n1 clock (Suc k) items
                in (out_bind rs (\<lambda>js. Returns (response_to_json r # js)), n'))))"

definition inner_handle_rpc ::
  "('db, 'st, 'h) RpcEnv \<Rightarrow> ('db, 'h) KanariNode \<Rightarrow> (nat \<Rightarrow> u64) \<Rightarrow> Json \<Rightarrow> Json outcome \<times> ('db, 'h) KanariNode" where
  "inner_handle_rpc e n clock body =
     (case body of
        JArr batch \<Rightarrow>
          (if batch = [] then (Returns (JArr [response_to_json (err JNull (- 32600) ''empty batch'')]), n)
           else let (rs, n') = run_batch e n clock 0 batch in (out_bind rs (\<lambda>js. Returns (JArr js)), n'))
      | JObj obj \<Rightarrow>
          (if summarize_panics (re_to_string e (or_null (jget obj ''params''))) then (Panics, n)
           else case parse_request body of
             None \<Rightarrow> (Returns (response_to_json (err JNull (- 32700) ''parse error'')), n)
           | Some req \<Rightarrow>
               (case dispatch_inner e n (clock 0) req of
                  (Panics, n') \<Rightarrow> (Panics, n')
                | (Returns r, n') \<Rightarrow> (Returns (response_to_json r), n')))
      | _ \<Rightarrow> (Returns (response_to_json (err JNull (- 32600) ''invalid request'')), n))"

section \<open>Metrics\<close>

definition metric :: "string \<Rightarrow> string \<Rightarrow> string \<Rightarrow> u64 \<Rightarrow> string" where
  "metric name help kind v =
     ''# HELP '' @ name @ '' '' @ help @ [newline] @ ''# TYPE '' @ name @ '' '' @ kind @ [newline]
     @ name @ '' '' @ decimal (unat v) @ [newline]"

definition metrics_page :: "('db, 'h) KanariNode \<Rightarrow> string" where
  "metrics_page n =
     (let (blocks, txs, commits) = snapshot (n_metrics n) in
      metric ''kanari_evm_block_number'' ''Latest sealed block number.'' ''gauge'' (block_number n)
      @ metric ''kanari_evm_blocks_sealed_total'' ''Sealed blocks (one tx each).'' ''counter'' blocks
      @ metric ''kanari_evm_txs_sealed_total'' ''Sealed transactions.'' ''counter'' txs
      @ metric ''kanari_evm_commits_seen_total'' ''DAG commits executed (0 on single nodes).'' ''counter'' commits)"

text \<open>A concrete server environment.\<close>

definition mem_rpc :: "(mem_db, mem_db, mem_handle) RpcEnv" where
  "mem_rpc = \<lparr>re_ext = mem_ext, re_tracer = mem_tracer, re_text = mem_text, re_to_string = (\<lambda>_. [])\<rparr>"

lemma mem_rpc_sels [simp]:
  "re_ext mem_rpc = mem_ext" "re_tracer mem_rpc = mem_tracer" "re_text mem_rpc = mem_text"
  "re_to_string mem_rpc v = []"
  by (simp_all add: mem_rpc_def)

section \<open>What a request changes\<close>

lemma rpc_frames [simp]:
  "snd (bad_params rid n m) = n" "snd (reply rid f r) = snd r" "snd (view_or_null rid n v) = n"
  "snd (traced rid t) = snd t" "snd (kanari_supply n rid) = n" "snd (eth_gasPrice e n rid) = n"
  "snd (eth_feeHistory e n rid params) = n"
  by (simp_all add: bad_params_def reply_def view_or_null_def traced_def kanari_supply_def eth_gasPrice_def
      eth_feeHistory_def Let_def split: outcome.splits prod.splits)

lemma read_quiet:
  "quiet x n (snd (balance_of rv n a))" "quiet x n (snd (nonce_of rv n a))"
  by (auto simp: balance_of_cases nonce_of_cases)

lemmas read_quiet_all = read_quiet code_of_quiet storage_of_quiet call_quiet trace_call_quiet

lemma read_methods_quiet:
  "quiet x n (snd (eth_getCode e n rid params))" "quiet x n (snd (eth_getBalance e n rid params))"
  "quiet x n (snd (eth_getTransactionCount e n rid params))" "quiet x n (snd (eth_getStorageAt e n rid params))"
  by (auto simp: eth_getCode_def eth_getBalance_def eth_getTransactionCount_def eth_getStorageAt_def
      read_quiet_all split: list.splits sum.splits)

lemma view_methods_frame [simp]:
  "snd (eth_getTransactionByHash e n rid params) = n" "snd (eth_getTransactionReceipt e n rid params) = n"
  "snd (eth_getBlockByHash e n rid params) = n" "snd (eth_getBlockByNumber e n rid params) = n"
  "snd (debug_traceTransaction e n rid params) = n" "snd (kanari_getSmtProof e n rid params) = n"
  by (auto simp: eth_getTransactionByHash_def eth_getTransactionReceipt_def eth_getBlockByHash_def
      eth_getBlockByNumber_def debug_traceTransaction_def kanari_getSmtProof_def split: list.splits sum.splits)

lemma eth_getLogs_frame [simp]: "snd (eth_getLogs e n rid params) = n"
  by (auto simp: eth_getLogs_def Let_def split: sum.splits)

lemma call_methods_quiet:
  "quiet (re_ext e) n (snd (eth_call e n now b rid params))"
  "quiet (re_ext e) n (snd (debug_traceCall e n now rid params))"
  by (auto simp: eth_call_def debug_traceCall_def read_quiet_all split: list.splits sum.splits outcome.splits)

lemmas methods_quiet = read_methods_quiet call_methods_quiet

definition writing_methods :: "string set" where
  "writing_methods = {''eth_sendRawTransaction'', ''kanari_faucet''}"

lemma dispatch_quiet:
  assumes "rq_method req \<notin> writing_methods"
  shows "quiet (re_ext e) n (snd (dispatch_inner e n now req))"
  using assms by (simp add: dispatch_inner_def Let_def methods_quiet writing_methods_def)

lemma send_method_step:
  "quiet (re_ext e) n (snd (eth_sendRawTransaction e n now rid params))
   \<or> node_step (re_ext e) n (snd (eth_sendRawTransaction e n now rid params))"
  by (auto simp: eth_sendRawTransaction_def split: list.splits sum.splits
      intro: node_step.send [of _ _ _ _ "fst r" "snd r" for r] surjective_pairing)

lemma faucet_method_step:
  "quiet (re_ext e) n (snd (kanari_faucet e n now rid params))
   \<or> node_step (re_ext e) n (snd (kanari_faucet e n now rid params))"
  by (auto simp: kanari_faucet_def split: list.splits sum.splits option.splits
      intro: node_step.drip [of _ _ _ _ _ "fst r" "snd r" for r] surjective_pairing)

lemma dispatch_step:
  "quiet (re_ext e) n (snd (dispatch_inner e n now req)) \<or> node_step (re_ext e) n (snd (dispatch_inner e n now req))"
proof (cases "rq_method req \<in> writing_methods")
  case True
  then show ?thesis
    using send_method_step [of e n now] faucet_method_step [of e n now]
    by (auto simp: dispatch_inner_def Let_def writing_methods_def)
next
  case False
  with dispatch_quiet show ?thesis by blast
qed

text \<open>The chain grows by at most one block per request, and stays consistent.\<close>

definition extends :: "nat \<Rightarrow> ('db, 'h) KanariNode \<Rightarrow> ('db, 'h) KanariNode \<Rightarrow> bool" where
  "extends k n n' \<longleftrightarrow> (\<exists>bs. n_blocks n' = n_blocks n @ bs \<and> length bs \<le> k)"

lemma extends_refl: "extends k n n"
  by (simp add: extends_def)

lemma extends_trans: "extends j n m \<Longrightarrow> extends k m n' \<Longrightarrow> extends (j + k) n n'"
  by (auto simp: extends_def)

lemma extends_length: "extends k n n' \<Longrightarrow> length (n_blocks n') \<le> length (n_blocks n) + k"
  by (auto simp: extends_def)

lemma quiet_extends: "quiet x n n' \<Longrightarrow> extends k n n'"
  by (simp add: quiet_def extends_def)

lemma seal_extends:
  assumes "kv_ok (x_kv x)" and "seal_committed x n raw ts = (r, n')"
  shows "extends 1 n n'"
  using seal_committed_blocks [OF assms] by (auto simp: extends_def)

lemma step_extends:
  assumes "kv_ok (x_kv x)" and "node_step x n n'"
  shows "extends 1 n n'"
  using assms
proof (cases rule: node_step_cases)
  case (2 m raw ts r)
  from seal_extends [OF assms(1) 2(2)] 2(1) show ?thesis by (simp add: extends_def quiet_def)
qed (rule quiet_extends)

lemma quiet_inv: "quiet x n n' \<Longrightarrow> node_inv x n \<Longrightarrow> node_inv x n'"
  by (auto simp: node_inv_def intro: quiet_ledger quiet_mirrored)

lemma dispatch_keeps:
  assumes "kv_ok (x_kv (re_ext e))" "codec_ok (x_codec (re_ext e))" "node_inv (re_ext e) n"
    and "length (n_blocks n) + 2 < 2 ^ 64"
  shows "node_inv (re_ext e) (snd (dispatch_inner e n now req))
    \<and> extends 1 n (snd (dispatch_inner e n now req))"
  using dispatch_step [of e n now req]
proof
  assume "quiet (re_ext e) n (snd (dispatch_inner e n now req))"
  with assms(3) show ?thesis by (simp add: quiet_inv quiet_extends)
next
  assume st: "node_step (re_ext e) n (snd (dispatch_inner e n now req))"
  from step_extends [OF assms(1) st] have ext: "extends 1 n (snd (dispatch_inner e n now req))" .
  with extends_length [OF ext] assms(4) have "length (n_blocks (snd (dispatch_inner e n now req))) + 1 < 2 ^ 64"
    by simp
  from node_step_inv [OF assms(1-3) this st] ext show ?thesis by simp
qed

lemma run_batch_keeps:
  assumes "kv_ok (x_kv (re_ext e))" "codec_ok (x_codec (re_ext e))" "node_inv (re_ext e) n"
    and "length (n_blocks n) + length items + 1 < 2 ^ 64"
  shows "node_inv (re_ext e) (snd (run_batch e n clock k items))
    \<and> extends (length items) n (snd (run_batch e n clock k items))"
  using assms(3,4)
proof (induction items arbitrary: n k)
  case Nil
  then show ?case by (simp add: extends_refl)
next
  case (Cons item items)
  show ?case
  proof (cases "parse_request item")
    case None
    have "node_inv (re_ext e) (snd (run_batch e n clock (Suc k) items))
      \<and> extends (length items) n (snd (run_batch e n clock (Suc k) items))"
      using Cons by simp
    with None show ?thesis by (auto simp: extends_def Let_def split: prod.splits)
  next
    case (Some req)
    obtain o1 n1 where d: "dispatch_inner e n (clock k) req = (o1, n1)" by (cases "dispatch_inner e n (clock k) req")
    from dispatch_keeps [OF assms(1,2) Cons.prems(1), of "clock k" req] Cons.prems(2)
    have 1: "node_inv (re_ext e) n1" "extends 1 n n1" by (simp_all add: d)
    with extends_length [OF 1(2)] Cons.prems(2)
    have 2: "node_inv (re_ext e) (snd (run_batch e n1 clock (Suc k) items))"
      "extends (length items) n1 (snd (run_batch e n1 clock (Suc k) items))"
      using Cons.IH [of n1 "Suc k"] by simp_all
    have "extends (Suc (length items)) n (snd (run_batch e n1 clock (Suc k) items))"
      using extends_trans [OF 1(2) 2(2)] by simp
    moreover have "extends (Suc (length items)) n n1" using 1(2) by (auto simp: extends_def)
    ultimately show ?thesis
      using 1(1) 2(1) by (cases o1) (auto simp: Some d Let_def split: prod.splits)
  qed
qed

definition body_requests :: "Json \<Rightarrow> nat" where
  "body_requests body = (case body of JArr batch \<Rightarrow> length batch | _ \<Rightarrow> 1)"

lemma body_keeps:
  assumes "kv_ok (x_kv (re_ext e))" "codec_ok (x_codec (re_ext e))" "node_inv (re_ext e) n"
    and "length (n_blocks n) + body_requests body + 1 < 2 ^ 64"
  shows "node_inv (re_ext e) (snd (inner_handle_rpc e n clock body))
    \<and> extends (body_requests body) n (snd (inner_handle_rpc e n clock body))"
proof (cases body)
  case (JArr batch)
  with run_batch_keeps [OF assms(1-3), of batch clock 0] assms(3,4) show ?thesis
    by (auto simp: inner_handle_rpc_def body_requests_def extends_refl Let_def split: prod.splits)
next
  case (JObj obj)
  have "node_inv (re_ext e) (snd (dispatch_inner e n (clock 0) req)) \<and> extends 1 n (snd (dispatch_inner e n (clock 0) req))"
    for req using assms(4) by (intro dispatch_keeps [OF assms(1-3)]) (simp add: JObj body_requests_def)
  with JObj assms(3) show ?thesis
    by (auto simp: inner_handle_rpc_def body_requests_def extends_refl split: option.splits prod.splits outcome.splits)
      (metis snd_conv)+
qed (simp_all add: inner_handle_rpc_def assms(3) extends_refl)

section \<open>Responses\<close>

text \<open>Every response carries the request's id and either a result or an error.\<close>

definition answers :: "Json \<Rightarrow> RpcResponse outcome \<Rightarrow> bool" where
  "answers rid r \<longleftrightarrow> (case r of Panics \<Rightarrow> True
     | Returns p \<Rightarrow> rp_id p = rid \<and> (rp_result p = None \<longleftrightarrow> rp_error p \<noteq> None)
         \<and> (\<forall>c m. rp_error p = Some (c, m) \<longrightarrow> c \<in> {- 32602, - 32601, - 32000}))"

lemma answers_simps [simp]:
  "answers rid (Returns (ok rid v))" "answers rid (Returns (err rid (- 32601) m))" "answers rid (Returns (node_error rid d))"
  "answers rid Panics" "answers rid (fst (bad_params rid n m))" "answers rid (fst (reply rid f r))"
  "answers rid (fst (view_or_null rid n w))" "answers rid (fst (traced rid t))"
  by (auto simp: answers_def ok_def err_def node_error_def bad_params_def reply_def view_or_null_def traced_def
      split: sum.splits outcome.splits option.splits)

lemma methods_answer [simp]:
  "answers rid (fst (eth_getCode e n rid params))" "answers rid (fst (eth_getBalance e n rid params))"
  "answers rid (fst (eth_getTransactionCount e n rid params))" "answers rid (fst (eth_getStorageAt e n rid params))"
  "answers rid (fst (eth_feeHistory e n rid params))" "answers rid (fst (eth_gasPrice e n rid))"
  "answers rid (fst (eth_sendRawTransaction e n now rid params))"
  "answers rid (fst (eth_getTransactionByHash e n rid params))"
  "answers rid (fst (eth_getTransactionReceipt e n rid params))" "answers rid (fst (eth_getLogs e n rid params))"
  "answers rid (fst (eth_getBlockByHash e n rid params))" "answers rid (fst (eth_getBlockByNumber e n rid params))"
  "answers rid (fst (eth_call e n now b rid params))" "answers rid (fst (debug_traceTransaction e n rid params))"
  "answers rid (fst (debug_traceCall e n now rid params))" "answers rid (fst (kanari_faucet e n now rid params))"
  "answers rid (fst (kanari_supply n rid))" "answers rid (fst (kanari_getSmtProof e n rid params))"
  unfolding eth_getCode_def eth_getBalance_def eth_getTransactionCount_def eth_getStorageAt_def eth_feeHistory_def
    eth_gasPrice_def eth_sendRawTransaction_def eth_getTransactionByHash_def eth_getTransactionReceipt_def
    eth_getLogs_def eth_getBlockByHash_def eth_getBlockByNumber_def eth_call_def debug_traceTransaction_def
    debug_traceCall_def kanari_faucet_def kanari_supply_def kanari_getSmtProof_def Let_def
  by (simp_all split: list.splits sum.splits option.splits outcome.splits prod.splits)

lemma dispatch_answers: "answers (rq_id req) (fst (dispatch_inner e n now req))"
  by (simp add: dispatch_inner_def Let_def)

lemma response_id [simp]: "jfield (response_to_json r) ''id'' = Some (rp_id r)"
  by (simp add: response_to_json_def jfield_def as_object_def jget_def)

definition request_id :: "Json \<Rightarrow> Json" where
  "request_id item = (case parse_request item of None \<Rightarrow> JNull | Some req \<Rightarrow> rq_id req)"

lemma run_batch_ids:
  assumes "run_batch e n clock k items = (Returns js, n')"
  shows "map (\<lambda>j. jfield j ''id'') js = map (\<lambda>item. Some (request_id item)) items"
  using assms
proof (induction items arbitrary: n k js)
  case Nil
  then show ?case by simp
next
  case (Cons item items)
  show ?case
  proof (cases "parse_request item")
    case None
    with Cons.prems obtain js' where "run_batch e n clock (Suc k) items = (Returns js', n')"
      "js = response_to_json (err JNull (- 32700) ''parse error'') # js'"
      by (auto simp: Let_def out_bind_def split: prod.splits outcome.splits)
    with Cons.IH None show ?thesis by (simp add: request_id_def err_def)
  next
    case (Some req)
    with Cons.prems obtain r n1 js' where d: "dispatch_inner e n (clock k) req = (Returns r, n1)"
      "run_batch e n1 clock (Suc k) items = (Returns js', n')" "js = response_to_json r # js'"
      by (auto simp: Let_def out_bind_def split: prod.splits outcome.splits)
    with Cons.IH Some dispatch_answers [of req e n "clock k"] show ?thesis
      by (simp add: request_id_def answers_def)
  qed
qed

section \<open>Lookups after a submission\<close>

lemma decode_tx_view_accepted:
  assumes "prepared_decode cr raw cid = Inr p"
  shows "\<exists>v. decode_tx_view cr raw fee = Some v"
proof -
  from assms obtain envelope sender inner where "decode_2718 cr raw = Inr envelope"
      "envelope_env sender envelope = Inr (cid, inner)" by (rule prepared_decode_parts)
  with envelope_view_env [of sender envelope cid inner fee] show ?thesis by (auto simp: decode_tx_view_def)
qed

lemma seal_committed_served:
  assumes "kv_ok (x_kv x)" "ledger_ok (x_crypto x) n" "length (n_blocks n) + 1 < 2 ^ 64"
    and "seal_committed x n raw ts = (Inr hash, n')"
  shows "\<exists>rec obj. receipt_view (x_crypto x) tx n' hash = Some (JObj rec)
    \<and> jget rec ''transactionHash'' = Some (JStr (to_hash tx hash))
    \<and> jget rec ''blockNumber'' = Some (quantity (block_number n + 1))
    \<and> tx_view (x_crypto x) tx n' hash = Some (JObj obj)
    \<and> jget obj ''hash'' = Some (JStr (to_hash tx hash))
    \<and> jget obj ''blockNumber'' = Some (quantity (block_number n + 1))
    \<and> block_number n' = block_number n + 1"
proof -
  note s = assms(4) [unfolded seal_committed_def seal_raw_def]
  have ledger: "ledger_ok (x_crypto x) n'" by (rule seal_ledger_ok [OF assms(1-3) refl s])
  from s obtain p b r where p: "prepared_decode (x_crypto x) raw (cs_chain_id (n_spec n)) = Inr p"
    and b: "n_blocks n' = n_blocks n @ [b]" "sb_number b = block_number n + 1" "sb_txs b = [raw]"
    and r: "n_receipts n' hash = Some r" "sr_block_number r = block_number n + 1" "sr_tx_hash r = hash"
    and h: "hash = keccak256 (x_crypto x) raw" by (rule seal_success) auto
  have "block_by_number n' (block_number n + 1) = Some b"
    using block_by_number_member [OF ledger, of b] b by simp
  then have rec: "tx_record (x_crypto x) n' hash = Some (sr_from r, raw)"
    using r b h by (simp add: tx_record_def)
  obtain v where v: "decode_tx_view (x_crypto x) raw (view_base_fee n' (block_number n + 1)) = Some v"
    using decode_tx_view_accepted [OF p] by blast
  show ?thesis
    using r rec v b by (simp add: receipt_view_def tx_view_def jget_def quantity_def block_number_def)
qed

lemma topics_match_iff:
  "topics_match flt topics \<longleftrightarrow>
     (\<forall>i < length flt. case flt ! i of None \<Rightarrow> True | Some options \<Rightarrow> i < length topics \<and> topics ! i \<in> set options)"
  by (auto simp: topics_match_def list_all_length nth_enumerate_eq get_at_def split: option.splits)

lemma log_matches_iff:
  "log_matches addresses topics = (\<lambda>log. (\<forall>addrs. addresses = Some addrs \<longrightarrow> lo_address log \<in> set addrs)
     \<and> (\<forall>i options. i < length topics \<longrightarrow> topics ! i = Some options \<longrightarrow>
          i < length (lo_topics log) \<and> lo_topics log ! i \<in> set options))"
proof (rule ext)
  fix log
  show "log_matches addresses topics log \<longleftrightarrow> (\<forall>addrs. addresses = Some addrs \<longrightarrow> lo_address log \<in> set addrs)
      \<and> (\<forall>i options. i < length topics \<longrightarrow> topics ! i = Some options \<longrightarrow>
           i < length (lo_topics log) \<and> lo_topics log ! i \<in> set options)"
    unfolding log_matches_def topics_match_iff
    by (cases addresses) (simp_all split: option.split, blast+)
qed

lemma mem_open_inv:
  obtains n0 where "open_node mem_ext no_legacy mem_spec (Inr mem_empty) = Returns (Inr n0)" "node_inv mem_ext n0"
    "n_blocks n0 = []"
proof -
  have fs: "fresh_store (x_kv mem_ext) mem_empty" "lf_journal no_legacy = None"
    by (simp_all add: mem_fresh_store no_legacy_def)
  show thesis by (rule open_fresh [OF mem_env_ok fs mem_genesis]) (rule that)
qed

section \<open>Properties\<close>

text \<open>
  Serving any HTTP body, a single request, a batch, or garbage, keeps the chain consistent in memory and on
  disk, whatever the requests do (a panic in the middle of a batch included); the chain is only ever extended, by
  at most one block per request of the body.
\<close>

theorem rpc_keeps_chain:
  assumes "kv_ok (x_kv (re_ext e))" "codec_ok (x_codec (re_ext e))"
    and "ledger_ok (x_crypto (re_ext e)) n" "mirrored (re_ext e) n"
    and "length (n_blocks n) + body_requests body + 1 < 2 ^ 64"
    and "inner_handle_rpc e n clock body = (out, n')"
  shows "ledger_ok (x_crypto (re_ext e)) n' \<and> mirrored (re_ext e) n'
    \<and> (\<exists>bs. n_blocks n' = n_blocks n @ bs \<and> length bs \<le> body_requests body)"
  using body_keeps [OF assms(1,2) _ assms(5), of clock] assms(3,4,6) by (simp add: node_inv_def extends_def)

theorem rpc_keeps_chain_witness:
  "\<exists>n0 out n'. open_node mem_ext no_legacy mem_spec (Inr mem_empty) = Returns (Inr n0)
     \<and> inner_handle_rpc mem_rpc n0 (\<lambda>_. 100)
         (JArr [JObj [(''method'', JStr ''eth_sendRawTransaction''), (''params'', JArr [JStr ''0x01''])], JNull]) = (out, n')
     \<and> ledger_ok mem_crypto n' \<and> mirrored mem_ext n'"
proof -
  let ?body = "JArr [JObj [(''method'', JStr ''eth_sendRawTransaction''), (''params'', JArr [JStr ''0x01''])], JNull]"
  obtain n0 where n0: "open_node mem_ext no_legacy mem_spec (Inr mem_empty) = Returns (Inr n0)" "node_inv mem_ext n0"
    "n_blocks n0 = []" by (rule mem_open_inv)
  obtain out n' where r: "inner_handle_rpc mem_rpc n0 (\<lambda>_. 100) ?body = (out, n')"
    by (cases "inner_handle_rpc mem_rpc n0 (\<lambda>_. 100) ?body")
  have "kv_ok (x_kv (re_ext mem_rpc))" "codec_ok (x_codec (re_ext mem_rpc))"
    "ledger_ok (x_crypto (re_ext mem_rpc)) n0" "mirrored (re_ext mem_rpc) n0"
    "length (n_blocks n0) + body_requests ?body + 1 < 2 ^ 64"
    using n0 by (simp_all add: node_inv_def mem_kv_ok mem_codec_ok body_requests_def)
  from rpc_keeps_chain [OF this r] r n0(1) show ?thesis by auto
qed

text \<open>
  Only \<open>eth_sendRawTransaction\<close> and \<open>kanari_faucet\<close> can change the chain: every other method, calls and traces
  included, leaves the blocks, the receipts, the specification and all chain data in the store as they were.
\<close>

theorem rpc_reads_change_nothing:
  assumes "rq_method req \<notin> {''eth_sendRawTransaction'', ''kanari_faucet''}"
    and "dispatch_inner e n now req = (out, n')"
  shows "n_blocks n' = n_blocks n \<and> n_receipts n' = n_receipts n \<and> n_spec n' = n_spec n
    \<and> (\<forall>k. chain_key k \<longrightarrow> k \<noteq> META_FAUCET_KEY \<longrightarrow>
         kv_get (x_kv (re_ext e)) (n_store n') k = kv_get (x_kv (re_ext e)) (n_store n) k)"
  using dispatch_quiet [of req e n now] assms by (simp add: writing_methods_def quiet_def)

theorem rpc_reads_change_nothing_witness:
  "\<exists>out n'. dispatch_inner mem_rpc mem_node 100 \<lparr>rq_id = JInt 1, rq_method = ''eth_getBalance'', rq_params = JArr []\<rparr>
       = (out, n') \<and> n_blocks n' = [] \<and> n_receipts n' = Map.empty"
proof -
  let ?req = "\<lparr>rq_id = JInt 1, rq_method = ''eth_getBalance'', rq_params = JArr []\<rparr>"
  obtain out n' where r: "dispatch_inner mem_rpc mem_node 100 ?req = (out, n')"
    by (cases "dispatch_inner mem_rpc mem_node 100 ?req")
  have "rq_method ?req \<notin> {''eth_sendRawTransaction'', ''kanari_faucet''}" by simp
  from rpc_reads_change_nothing [OF this r] r show ?thesis by simp
qed

text \<open>
  C38. Every answer of a method is well-formed: it carries the request's id and either a result or an error, never
  both and never neither, and an error's code is one of \<open>-32602\<close> (parameters), \<open>-32601\<close> (unknown method) and
  \<open>-32000\<close> (the node refused).
\<close>

theorem dispatch_well_formed:
  assumes "dispatch_inner e n now req = (Returns resp, n')"
  shows "rp_id resp = rq_id req \<and> (rp_result resp = None \<longleftrightarrow> rp_error resp \<noteq> None)
    \<and> (\<forall>code message. rp_error resp = Some (code, message) \<longrightarrow> code \<in> {- 32602, - 32601, - 32000})"
  using dispatch_answers [of req e n now] assms by (simp add: answers_def)

theorem dispatch_well_formed_witness:
  "\<exists>resp n'. dispatch_inner mem_rpc mem_node 100 \<lparr>rq_id = JInt 1, rq_method = ''eth_mine'', rq_params = JNull\<rparr>
       = (Returns resp, n') \<and> rp_id resp = JInt 1 \<and> rp_result resp = None \<and> rp_error resp \<noteq> None"
proof -
  let ?req = "\<lparr>rq_id = JInt 1, rq_method = ''eth_mine'', rq_params = JNull\<rparr>"
  have r: "dispatch_inner mem_rpc mem_node 100 ?req
      = (Returns (err (JInt 1) (- 32601) ''Method not found: eth_mine''), mem_node)"
    by (simp add: dispatch_inner_def)
  have "rp_result (err (JInt 1) (- 32601) ''Method not found: eth_mine'') = None" by (simp add: err_def)
  with dispatch_well_formed [OF r] r show ?thesis by auto
qed

text \<open>
  C19. A submitted transaction is served: when a single node answers \<open>eth_sendRawTransaction\<close> without an error, the
  block number has grown by one, and looking up the returned hash, as text, gives a receipt and a transaction
  object that carry this hash and the new block's number.
\<close>

theorem sent_transaction_is_served:
  assumes "text_ok (re_text e)" "kv_ok (x_kv (re_ext e))" "ledger_ok (x_crypto (re_ext e)) n"
    and "length (n_blocks n) + 1 < 2 ^ 64" and "n_dag_sender n = None"
    and "eth_sendRawTransaction e n now rid (JArr [JStr (hex_prefixed raw)]) = (Returns resp, n')"
    and "rp_error resp = None"
  shows "\<exists>h rec obj. rp_result resp = Some (JStr h) \<and> block_number n' = block_number n + 1
    \<and> eth_getTransactionReceipt e n' rid' (JArr [JStr h]) = (Returns (ok rid' (JObj rec)), n')
    \<and> jget rec ''transactionHash'' = Some (JStr h) \<and> jget rec ''blockNumber'' = Some (quantity (block_number n'))
    \<and> eth_getTransactionByHash e n' rid' (JArr [JStr h]) = (Returns (ok rid' (JObj obj)), n')
    \<and> jget obj ''hash'' = Some (JStr h) \<and> jget obj ''blockNumber'' = Some (quantity (block_number n'))"
proof -
  obtain r m where s: "send_raw_transaction (re_ext e) n raw now = (r, m)"
    by (cases "send_raw_transaction (re_ext e) n raw now")
  have raw: "parse_bytes (re_text e) (JStr (hex_prefixed raw)) = Inr raw"
    using assms(1) by (simp add: parse_bytes_def as_str_def text_ok_def ok_or_def)
  with assms(6,7) s obtain hash where hash: "r = Inr hash" "m = n'"
      "rp_result resp = Some (JStr (to_hash (re_text e) hash))"
    by (cases r) (auto simp: eth_sendRawTransaction_def params_arr_def as_array_def reply_def ok_def node_error_def
        err_def)
  with s assms(5) have "seal_committed (re_ext e) n raw now = (Inr hash, n')"
    by (simp add: send_raw_transaction_def seal_committed_def)
  moreover have "parse_hash (re_text e) (JStr (to_hash (re_text e) hash)) = Inr hash"
    using assms(1) by (simp add: parse_hash_def as_str_def text_ok_def ok_or_def)
  moreover from calculation(1) obtain rec obj where
      v: "receipt_view (x_crypto (re_ext e)) (re_text e) n' hash = Some (JObj rec)"
        "tx_view (x_crypto (re_ext e)) (re_text e) n' hash = Some (JObj obj)"
    and m: "jget rec ''transactionHash'' = Some (JStr (to_hash (re_text e) hash))"
        "jget rec ''blockNumber'' = Some (quantity (block_number n + 1))"
        "jget obj ''hash'' = Some (JStr (to_hash (re_text e) hash))"
        "jget obj ''blockNumber'' = Some (quantity (block_number n + 1))" "block_number n' = block_number n + 1"
    using seal_committed_served [OF assms(2-4), of raw now hash n' "re_text e"] by blast
  ultimately have "eth_getTransactionReceipt e n' rid' (JArr [JStr (to_hash (re_text e) hash)])
        = (Returns (ok rid' (JObj rec)), n')"
      "eth_getTransactionByHash e n' rid' (JArr [JStr (to_hash (re_text e) hash)])
        = (Returns (ok rid' (JObj obj)), n')"
    by (simp_all add: eth_getTransactionReceipt_def eth_getTransactionByHash_def params_arr_def as_array_def
        view_or_null_def)
  with hash(3) m show ?thesis by auto
qed

theorem sent_transaction_is_served_witness:
  "\<exists>resp n' h rec. eth_sendRawTransaction mem_rpc mem_node 100 (JInt 1) (JArr [JStr (hex_prefixed [1])])
         = (Returns resp, n')
     \<and> rp_result resp = Some (JStr h)
     \<and> eth_getTransactionReceipt mem_rpc n' (JInt 2) (JArr [JStr h]) = (Returns (ok (JInt 2) (JObj rec)), n')
     \<and> jget rec ''blockNumber'' = Some (quantity 1)"
proof -
  obtain n' where n': "seal_committed mem_ext mem_node [1] 100 = (Inr 1, n')" using mem_seal by blast
  then have "send_raw_transaction mem_ext mem_node [1] 100 = (Inr 1, n')"
    by (simp add: send_raw_transaction_def seal_committed_def)
  moreover have "parse_bytes mem_text (JStr (hex_prefixed [1])) = Inr [1]"
    using mem_text_ok by (simp add: parse_bytes_def as_str_def text_ok_def ok_or_def)
  ultimately have send: "eth_sendRawTransaction mem_rpc mem_node 100 (JInt 1) (JArr [JStr (hex_prefixed [1])])
      = (Returns (ok (JInt 1) (JStr (to_hash mem_text 1))), n')"
    by (simp add: eth_sendRawTransaction_def params_arr_def as_array_def reply_def)
  have "text_ok (re_text mem_rpc)" "kv_ok (x_kv (re_ext mem_rpc))" "ledger_ok (x_crypto (re_ext mem_rpc)) mem_node"
    "length (n_blocks mem_node) + 1 < 2 ^ 64" "n_dag_sender mem_node = None"
    by (simp_all add: mem_text_ok mem_kv_ok ledger_ok_def receipts_ok_def)
  note served = sent_transaction_is_served [OF this send, of "JInt 2"]
  have "rp_error (ok (JInt 1) (JStr (to_hash mem_text 1))) = None" by (simp add: ok_def)
  from served [OF this] show ?thesis using send by (fastforce simp: block_number_def)
qed

text \<open>
  C20. \<open>eth_getLogs\<close> answers exactly its filter: when the filter parses to a block range, addresses and topics, the
  result lists, in chain order, the logs of the sealed blocks in that range whose address is among those given
  (any, when none were) and whose topics agree position by position (an absent or null position matches anything,
  a filter longer than the log's topics does not match).
\<close>

theorem eth_getLogs_exact:
  assumes "ledger_ok (x_crypto (re_ext e)) n"
    and "log_block_range (re_text e) flt (block_number n) n = Inr (lo, hi)"
    and "log_addresses (re_text e) flt = Inr addresses" and "log_topics (re_text e) flt = Inr topics"
  shows "eth_getLogs e n rid (JArr [JObj flt]) = (Returns (ok rid (JArr (map (render_sealed_log (re_text e))
    (filter (\<lambda>log. (\<forall>addrs. addresses = Some addrs \<longrightarrow> lo_address log \<in> set addrs)
        \<and> (\<forall>i options. i < length topics \<longrightarrow> topics ! i = Some options \<longrightarrow>
             i < length (lo_topics log) \<and> lo_topics log ! i \<in> set options))
      (concat (map (block_logs (x_crypto (re_ext e)) n)
         (filter (\<lambda>b. lo \<le> sb_number b \<and> sb_number b \<le> hi) (n_blocks n)))))))), n)"
proof -
  have "object_or_empty (get_at (params_arr (JArr [JObj flt])) 0) = flt"
    by (simp add: object_or_empty_def get_at_def params_arr_def as_array_def as_object_def)
  with assms(2-4) show ?thesis
    by (simp add: eth_getLogs_def Let_def logs_of_range [OF assms(1)] log_matches_iff)
qed

theorem eth_getLogs_exact_witness:
  "\<exists>n'. seal_committed mem_ext mem_node [1] 100 = (Inr 1, n')
     \<and> eth_getLogs mem_rpc n' JNull (JArr [JObj []]) = (Returns (ok JNull (JArr (map (render_sealed_log mem_text)
         (concat (map (block_logs mem_crypto n') (n_blocks n')))))), n')"
proof -
  obtain n' where n': "seal_committed mem_ext mem_node [1] 100 = (Inr 1, n')" using mem_seal by blast
  then obtain b where b: "n_blocks n' = [b]" "sb_number b = 1"
    using seal_committed_block [OF n'] by (auto simp: block_number_def)
  have "ledger_ok (x_crypto (re_ext mem_rpc)) n'" using mem_seal_ledger [OF n'] by simp
  moreover have "log_block_range (re_text mem_rpc) [] (block_number n') n' = Inr (1, 1)"
    by (simp add: log_block_range_def jget_def range_bounds_def range_bound_def block_number_def b)
  moreover have "log_addresses (re_text mem_rpc) [] = Inr None" "log_topics (re_text mem_rpc) [] = Inr []"
    by (simp_all add: log_addresses_def log_topics_def jget_def)
  ultimately show ?thesis
    using n' b by (intro exI [of _ n'] conjI) (simp_all add: eth_getLogs_exact)
qed

text \<open>
  C39. A batch is answered one for one, in order: if serving it does not panic, the reply is an array of the same
  length and the \<open>i\<close>-th answer carries the id of the \<open>i\<close>-th request (null where the item is no request).
\<close>

theorem batch_answered_in_order:
  assumes "batch \<noteq> []" and "inner_handle_rpc e n clock (JArr batch) = (Returns out, n')"
  shows "\<exists>js. out = JArr js \<and> map (\<lambda>j. jfield j ''id'') js = map (\<lambda>item. Some (request_id item)) batch"
proof -
  from assms obtain js where "run_batch e n clock 0 batch = (Returns js, n')" "out = JArr js"
    by (auto simp: inner_handle_rpc_def Let_def out_bind_def split: prod.splits outcome.splits)
  with run_batch_ids show ?thesis by blast
qed

theorem batch_answered_in_order_witness:
  "\<exists>out n'. inner_handle_rpc mem_rpc mem_node (\<lambda>_. 100)
       (JArr [JObj [(''id'', JInt 7), (''method'', JStr ''eth_chainId'')], JNull]) = (Returns out, n')
     \<and> (\<exists>js. out = JArr js \<and> map (\<lambda>j. jfield j ''id'') js = [Some (JInt 7), Some JNull])"
proof -
  let ?b = "[JObj [(''id'', JInt 7), (''method'', JStr ''eth_chainId'')], JNull]"
  obtain out where r: "inner_handle_rpc mem_rpc mem_node (\<lambda>_. 100) (JArr ?b) = (Returns out, mem_node)"
    by (simp add: inner_handle_rpc_def parse_request_def request_fields_def jget_def version_ok_def as_str_def
        dispatch_inner_def)
  have "map (\<lambda>item. Some (request_id item)) ?b = [Some (JInt 7), Some JNull]"
    by (simp add: request_id_def parse_request_def request_fields_def jget_def version_ok_def as_str_def or_null_def)
  with batch_answered_in_order [OF _ r] r show ?thesis by auto
qed

section \<open>Behaviours that deviate from the documentation\<close>

text \<open>A \<open>gasPrice\<close> that does not fit \<open>u128\<close> is no parameter error: the handler panics.\<close>

theorem large_gas_price_panics:
  assumes "of_u256 tx (trim_0x s) = Some v" and "2 ^ 128 \<le> unat v"
  shows "call_request_from_json tx [(''gasPrice'', JStr s)] = Panics"
  using assms by (simp add: call_request_from_json_def call_data_def take_parsed_def jget_def parse_u256_def
      as_str_def ok_or_def gas_price_of_def to_u128_def)

text \<open>A filter that starts beyond the head, with no end, is answered from the head block.\<close>

theorem logs_beyond_head_return_head:
  assumes "parse_u64 (JStr s) = Inr k" and "latest < k" and "s \<notin> {''latest'', ''pending'', ''earliest''}"
  shows "log_block_range tx [(''fromBlock'', JStr s)] latest n = Inr (latest, latest)"
  using assms by (auto simp: log_block_range_def jget_def range_bounds_def range_bound_def min_def max_def)

text \<open>\<open>topics: null\<close> is an error although null means absent for the other members of a filter.\<close>

theorem null_topics_rejected:
  "log_topics tx [(''topics'', JNull)] = Inl ''topics must be an array''
   \<and> log_addresses tx [(''address'', JNull)] = Inr None"
  by (simp add: log_topics_def log_addresses_def jget_def as_array_def ok_or_def)

text \<open>The fee history of a young chain has as many reward rows as blocks were asked for, not as many as there are.\<close>

theorem fee_history_reward_rows:
  "\<exists>obj rows ratios. eth_feeHistory mem_rpc mem_node JNull (JArr [JStr ''0x4'']) = (Returns (ok JNull (JObj obj)), mem_node)
     \<and> jget obj ''reward'' = Some (JArr rows) \<and> length rows = 4
     \<and> jget obj ''gasUsedRatio'' = Some (JArr ratios) \<and> length ratios = 1"
  by (simp add: eth_feeHistory_def params_arr_def as_array_def Let_def fee_history_count_def parse_u64_def as_str_def
      ok_or_def from_str_radix16_def to_digit16_def block_number_def number_range_def sat_sub_def jget_def min_def max_def ok_def)

text \<open>The drip's amount is decimal: the hexadecimal quantity its error message offers is refused.\<close>

theorem faucet_amount_rejects_hex:
  "eth_amount (Some (JStr ''0x64'')) = Inl ''ethAmount must be a whole-ETH number or 0x quantity''
   \<and> eth_amount (Some (JStr ''100'')) = Inr 100"
  by (simp add: eth_amount_def as_str_def parse_decimal_def as_u64_def)

text \<open>A long parameter list with a multi-byte character across byte 160 makes the log line panic.\<close>

theorem long_text_params_panic:
  assumes "re_to_string e params = s" and "160 < length s" and "128 \<le> s ! 160" "s ! 160 < 192"
  shows "fst (inner_handle_rpc e n clock (JObj [(''method'', JStr m), (''params'', params)])) = Panics"
  using assms by (simp add: inner_handle_rpc_def jget_def or_null_def summarize_panics_def)

end
