(* ===== verification/Reads.thy ===== *)
theory Reads
  imports Rpc
begin

text \<open>
  Reads and the state commitment. \<open>CacheDB\<close>, the in-memory database of revm, keeps in its cache what
  it was asked for: reading a storage slot that was never written adds the slot with value zero to the
  cached account. \<open>rebuild_smt\<close> (\<^verbatim>\<open>crates/move-execution/src/state.rs\<close>) commits to every cached
  slot. The state root of the next block therefore depends on the reads the node has served, which a
  replay does not repeat.
\<close>

section \<open>What a replay recomputes\<close>

text \<open>The replay of one block: the same transaction sealed again at genesis, with another root.\<close>

lemma replay_root_mismatch:
  assumes "sb_txs b = [raw]"
    and "seal_raw_with_fee x m raw (sb_number b) (sb_timestamp b) (sb_base_fee b) = (Inr hash, m')"
    and "sb_hash (last (n_blocks m')) = sb_hash b"
    and "sb_state_root b = Some r" and "sb_state_root (last (n_blocks m')) \<noteq> Some r"
  shows "\<exists>k. replay_blocks x [b] m
    = (Inl (Storage (''state root mismatch at block '' @ decimal (unat (sb_number b)))), k)"
  using assms by (auto simp: Let_def)

text \<open>A successful seal of the first block, with the parts replay compares.\<close>

lemma first_seal_parts:
  assumes "seal_committed x n raw ts = (Inr hash, n')" and "n_blocks n = []"
  obtains b where "n_blocks n' = [b]" "sb_txs b = [raw]" "sb_number b = 1" "sb_timestamp b = ts"
    "sb_base_fee b = ucast (pending_base_fee (x_crypto x) n)" "sb_state_root b \<noteq> None"
    "sb_hash b = block_hash (x_crypto x) (genesis_hash (x_crypto x)) 1 ts"
    "seal_raw_with_fee x n raw 1 ts (ucast (pending_base_fee (x_crypto x) n)) = (Inr hash, n')"
proof -
  have s: "seal_raw_with_fee x n raw 1 ts (ucast (pending_base_fee (x_crypto x) n)) = (Inr hash, n')"
    using assms by (simp add: seal_committed_def seal_raw_def block_number_def)
  from s show thesis
    by (rule seal_success)
      (rule that, use s assms(2) in \<open>auto simp: next_parent_hash_def push_sealed_def sealed_block_def\<close>)
qed

lemma quiet_first_fee:
  "quiet x n m \<Longrightarrow> pending_base_fee cr m = pending_base_fee cr n"
  unfolding quiet_def pending_base_fee_def block_gas_used_def block_by_number_def by (elim conjE) (simp only:)

section \<open>A caching database\<close>

text \<open>The concrete database with the cache rule of \<open>CacheDB::storage\<close>: a slot read for the first time
  is kept, with the value it was read as.\<close>

definition caching_storage :: "mem_db \<Rightarrow> Address \<Rightarrow> U256 \<Rightarrow> (string + U256) \<times> mem_db" where
  "caching_storage db a s =
     (let acc = mem_get db a in
      case map_of (da_storage acc) s of
        Some v \<Rightarrow> (Inr v, db)
      | None \<Rightarrow> (Inr 0, mem_set db a (acc\<lparr>da_storage := (s, 0) # da_storage acc\<rparr>)))"

definition cache_ext :: "(mem_db, mem_db, mem_handle) Ext" where
  "cache_ext = mem_ext\<lparr>x_revm := mem_revm\<lparr>rv_storage := caching_storage\<rparr>\<rparr>"

definition cache_rpc :: "(mem_db, mem_db, mem_handle) RpcEnv" where
  "cache_rpc = mem_rpc\<lparr>re_ext := cache_ext\<rparr>"

lemma cache_env_ok: "env_ok cache_ext leaf_count"
  using mem_env_ok unfolding env_ok_def working_disk_def db_ok_def storage_insert_ok_def rejects_cleanly_def
    balance_in_def
  by (simp add: cache_ext_def lookups_unobserved_def)

lemma cache_sels [simp]:
  "x_kv cache_ext = mem_kv" "x_codec cache_ext = mem_codec" "x_crypto cache_ext = mem_crypto"
  "x_pqc cache_ext = mem_pqc" "rv_storage (x_revm cache_ext) = caching_storage" "re_ext cache_rpc = cache_ext"
  "re_text cache_rpc = mem_text" "rv_default (x_revm cache_ext) = []" "rv_accounts (x_revm cache_ext) db = db"
  "rv_keccak_empty (x_revm cache_ext) = 0" "rv_transact (x_revm cache_ext) = rv_transact mem_revm"
  "rv_commit (x_revm cache_ext) = rv_commit mem_revm" "rv_basic (x_revm cache_ext) = rv_basic mem_revm"
  "rv_insert_account_info (x_revm cache_ext) = rv_insert_account_info mem_revm"
  by (simp_all add: cache_ext_def cache_rpc_def) (simp_all add: mem_revm_def)

text \<open>The database of the only account, with what the cache holds of its storage.\<close>

definition cached_db :: "(U256 \<times> U256) list \<Rightarrow> mem_db" where
  "cached_db st = [(0xabc, (mem_account 1000000000000000000)\<lparr>da_storage := st\<rparr>)]"

lemma cached_seal_db:
  "\<exists>p res ben acc. seal_db cache_ext mem_spec (cached_db st) [1] 1 100 1000000000
     = (Inr (p, res), [(BLOCK_BENEFICIARY, ben), (0xabc, acc)])
   \<and> da_storage ben = [] \<and> da_storage acc = st \<and> ai_balance (da_info ben) \<noteq> 0 \<and> ai_nonce (da_info acc) = 1"
proof -
  obtain p where p: "prepared_decode mem_crypto [1] 19088 = Inr p" "te_caller (pt_inner p) = 0xabc"
    by (simp add: prepared_decode_def mem_crypto_def mem_decode_def mem_tx_def ok_or_def)
  have "evm_basefee (block_evm mem_pqc mem_spec 1 100 1000000000) = 1000000000"
    by (simp add: block_evm_def build_kanari_evm_def)
  then have "transact_raw (x_revm cache_ext) mem_pqc (cached_db st) mem_spec p 1 100 1000000000
      = (Inr (Success 21000 (OutCall []) []), [(0xabc, (mem_account 999979000000000000)
           \<lparr>da_info := (da_info (mem_account 999979000000000000))\<lparr>ai_nonce := 1\<rparr>, da_storage := st\<rparr>)])"
    by (simp add: transact_raw_def mem_charge_def p(2) cached_db_def mem_get_def mem_set_def mem_account_def)
  then show ?thesis
    by (simp add: seal_db_def p(1) pay_db_def base_fee_share_def BLOCK_BENEFICIARY_def Let_def sat_mul_def sat_add_def)
      (simp add: mem_revm_def mem_set_def mem_get_def)
qed

lemma cached_entries:
  assumes "seal_db cache_ext mem_spec (cached_db st) [1] 1 100 1000000000 = (Inr (p, res), db)"
    and "distinct (map fst st)"
  shows "card (set (smt_entries (x_revm cache_ext) mem_crypto db)) = 2 + length st"
proof -
  obtain ben acc where db: "db = [(BLOCK_BENEFICIARY, ben), (0xabc, acc)]" "da_storage ben = []"
      "da_storage acc = st" "ai_balance (da_info ben) \<noteq> 0" "ai_nonce (da_info acc) = 1"
    using cached_seal_db [of st] assms(1) by auto
  have cache: "cache_ok (x_revm cache_ext) db"
    using assms(2) by (simp add: cache_ok_def db BLOCK_BENEFICIARY_def)
  have "length (leaves (x_revm cache_ext) db) = 2 + length st"
    using db by (simp add: leaves_def account_leaves_def empty_account_def)
  moreover have "inj_on (\<lambda>((a, s), v). (proof_key mem_crypto a s, v)) X" for X :: "((Address \<times> U256 option) \<times> bytes) set"
    by (auto simp: inj_on_def proof_key_inject mem_crypto_def inj_def)
  moreover have "distinct (leaves (x_revm cache_ext) db)" using distinct_leaves [OF cache] by (simp add: distinct_map)
  ultimately show ?thesis
    by (simp add: smt_entries_leaves card_image distinct_card)
qed

lemma cached_seal:
  assumes "n_spec n = mem_spec" "n_blocks n = []" "n_db n = cached_db st" "distinct (map fst st)"
  shows "\<exists>n'. seal_committed cache_ext n [1] 100 = (Inr 1, n')
    \<and> sb_state_root (last (n_blocks n')) = Some (of_nat (2 + length st))"
proof -
  obtain p res db where s: "seal_db cache_ext mem_spec (cached_db st) [1] 1 100 1000000000 = (Inr (p, res), db)"
    using cached_seal_db [of st] by metis
  have "kv_reliable (x_kv cache_ext) leaf_count" "codec_ok (x_codec cache_ext)"
    by (simp_all add: mem_kv_reliable mem_codec_ok)
  from seal_reliable [OF this, of n "[1]" 1 100 1000000000] s assms(1,3)
  have "\<exists>n'. seal_raw_with_fee cache_ext n [1] 1 100 1000000000 = (Inr (keccak256 mem_crypto [1]), n')
    \<and> sb_state_root (last (n_blocks n')) = Some (leaf_count (set (smt_entries (x_revm cache_ext) mem_crypto db)))"
    by (auto simp: push_sealed_def sealed_block_def)
  moreover have "keccak256 mem_crypto [1] = 1" by (simp add: mem_crypto_def from_be_bytes_def)
  moreover have "pending_base_fee mem_crypto n = 1000000000"
    using assms(1,2) by (simp add: pending_base_fee_def mem_spec_def gas_consts)
  ultimately show ?thesis
    using assms(2) cached_entries [OF s assms(4)]
    by (simp add: seal_committed_def seal_raw_def block_number_def leaf_count_def)
qed

text \<open>Reading slot 5 of the account, which was never written.\<close>

definition slot_params :: Json where
  "slot_params = JArr [JStr (to_address mem_text 0xabc), JStr ''0x5'']"

lemma cached_read:
  assumes "n_db n = cached_db []"
  shows "\<exists>out. eth_getStorageAt cache_rpc n JNull slot_params = (out, n\<lparr>n_db := cached_db [(5, 0)]\<rparr>)"
proof -
  have "of_address mem_text (to_address mem_text 0xabc) = Some 0xabc"
    using mem_text_ok by (simp add: text_ok_def)
  then have "parse_address mem_text (JStr (to_address mem_text 0xabc)) = Inr 0xabc"
    by (simp add: parse_address_def ok_or_def as_str_def)
  moreover have "parse_u256 mem_text (JStr ''0x5'') = Inr 5"
    by (simp add: parse_u256_def ok_or_def as_str_def mem_text_def from_str_radix16_def to_digit16_def)
  moreover have "storage_of (x_revm cache_ext) n 0xabc 5 = (Inr 0, n\<lparr>n_db := cached_db [(5, 0)]\<rparr>)"
    using assms
    by (simp add: storage_of_def caching_storage_def cached_db_def mem_get_def mem_set_def mem_account_def)
  ultimately show ?thesis
    by (simp add: eth_getStorageAt_def slot_params_def params_arr_def as_array_def reply_def)
qed

section \<open>The property\<close>

text \<open>
  C18. A served storage read can make the node unable to restart. On a node created on an empty store, let
  \<open>eth_getStorageAt\<close> be served and a transaction be sealed after it, with a state root other than the
  one the same transaction gives without the read. Then the stored block cannot be replayed: opening
  the store again ends with the state root mismatch error.
\<close>

theorem read_before_seal_breaks_restart:
  assumes env: "env_ok x root_of" "re_ext e = x"
    and fresh: "fresh_store (x_kv x) h" "lf_journal fs = None"
    and opened: "open_node x fs spec (Inr h) = Returns (Inr n0)"
    and read: "eth_getStorageAt e n0 rid params = (out, m)"
    and after: "seal_committed x m raw ts = (Inr hash, m1)"
    and without: "seal_committed x n0 raw ts = (Inr hash, n1)"
    and differ: "sb_state_root (last (n_blocks m1)) \<noteq> sb_state_root (last (n_blocks n1))"
  shows "open_node x fs' spec (Inr (n_store m1))
    = Returns (Inl (Storage ''state root mismatch at block 1''))"
proof -
  have disk: "working_disk x root_of" and kv: "kv_ok (x_kv x)" and cd: "codec_ok (x_codec x)"
    using env(1) by (simp_all add: env_ok_def working_disk_def)
  have n0: "n_spec n0 = spec" "at_genesis x n0" "node_inv x n0" "n_blocks n0 = []"
    using opened_fresh [OF env(1) fresh opened] by (simp_all add: at_genesis_def)
  have q: "quiet x n0 m" using read_methods_quiet(4) [of x n0 e rid params] read by simp
  then have m: "n_spec m = spec" "n_blocks m = []" using n0 by (simp_all add: quiet_def)
  have inv: "node_inv x m1"
    using seal_committed_inv [OF kv cd quiet_inv [OF q n0(3)] _ after] m(2) by simp
  have spec1: "n_spec m1 = spec"
    using seal_keeps_faucet [OF kv after [unfolded seal_committed_def seal_raw_def]] m(1) by simp
  obtain b where b: "n_blocks m1 = [b]" "sb_txs b = [raw]" "sb_number b = 1" "sb_timestamp b = ts"
      "sb_base_fee b = ucast (pending_base_fee (x_crypto x) m)" "sb_state_root b \<noteq> None"
      "sb_hash b = block_hash (x_crypto x) (genesis_hash (x_crypto x)) 1 ts"
    by (rule first_seal_parts [OF after m(2)])
  obtain c where c: "n_blocks n1 = [c]" "sb_hash c = block_hash (x_crypto x) (genesis_hash (x_crypto x)) 1 ts"
      and sc: "seal_raw_with_fee x n0 raw 1 ts (ucast (pending_base_fee (x_crypto x) n0)) = (Inr hash, n1)"
    by (rule first_seal_parts [OF without n0(4)])
  obtain m0 where m0: "open_existing x (cs_chain_id (n_spec m1)) (fresh_node spec (rv_default (x_revm x)) (n_store m1))
      = Returns (replay_blocks x (n_blocks m1) m0)" "at_genesis x m0" "n_spec m0 = n_spec m1"
    by (rule open_existing_starts [OF env(1) inv, of spec "n_db n0"])
      (use n0(1,2) in \<open>simp_all add: spec1 restart_spec_def at_genesis_def\<close>)
  have "same_replica x True n0 m0" using n0 m0 spec1 by (intro at_genesis_replica) simp_all
  moreover have "same_env x x" by (simp add: same_env_def)
  ultimately obtain k where k: "seal_raw_with_fee x m0 raw 1 ts (ucast (pending_base_fee (x_crypto x) n0)) = (Inr hash, k)"
      "n_blocks k = [c]"
    using seal_with_fee_replica [OF _ disk disk, of True n0 m0 raw 1 ts "ucast (pending_base_fee (x_crypto x) n0)"] sc c(1)
    by (cases "seal_raw_with_fee x m0 raw 1 ts (ucast (pending_base_fee (x_crypto x) n0))") (auto simp: same_replica_def)
  obtain r where "sb_state_root b = Some r" using b(6) by blast
  moreover have "decimal (unat (sb_number b)) = ''1''" by (simp add: b(3) decimal.simps)
  ultimately obtain k' where
      "replay_blocks x (n_blocks m1) m0 = (Inl (Storage ''state root mismatch at block 1''), k')"
    using replay_root_mismatch [of b raw x m0 hash k r] k b c quiet_first_fee [OF q] differ by auto
  moreover have "stored_chain_id (x_kv x) (n_store m1) = Inr (Some (cs_chain_id (n_spec m1)))"
    using inv by (simp add: node_inv_def mirrored_def stored_def)
  ultimately show ?thesis using m0(1) open_node_failing by metis
qed

theorem read_before_seal_breaks_restart_witness:
  "\<exists>n0 m out m1. open_node cache_ext no_legacy mem_spec (Inr mem_empty) = Returns (Inr n0)
     \<and> eth_getStorageAt cache_rpc n0 JNull slot_params = (out, m)
     \<and> seal_committed cache_ext m [1] 100 = (Inr 1, m1)
     \<and> open_node cache_ext no_legacy mem_spec (Inr (n_store m1))
         = Returns (Inl (Storage ''state root mismatch at block 1''))"
proof -
  have fs: "fresh_store (x_kv cache_ext) mem_empty" "lf_journal no_legacy = None"
    by (simp_all add: mem_fresh_store no_legacy_def)
  have gen: "apply_genesis (x_revm cache_ext) mem_spec [] = Returns (cached_db [])"
    by (simp add: apply_genesis_def mem_spec_def genesis_account_def cached_db_def)
      (simp add: mem_revm_def mem_set_def mem_get_def mem_account_def)
  obtain n0 where n0: "open_node cache_ext no_legacy mem_spec (Inr mem_empty) = Returns (Inr n0)"
      "n_spec n0 = mem_spec" "n_blocks n0 = []" "n_db n0 = cached_db []"
    by (rule open_fresh [OF cache_env_ok fs, of mem_spec]) (simp_all add: gen)
  let ?m = "n0\<lparr>n_db := cached_db [(5, 0)]\<rparr>"
  obtain out where r: "eth_getStorageAt cache_rpc n0 JNull slot_params = (out, ?m)"
    using cached_read [OF n0(4)] by blast
  obtain m1 where m1: "seal_committed cache_ext ?m [1] 100 = (Inr 1, m1)" "sb_state_root (last (n_blocks m1)) = Some 3"
    using cached_seal [of ?m "[(5, 0)]"] n0 by auto
  obtain n1 where n1: "seal_committed cache_ext n0 [1] 100 = (Inr 1, n1)" "sb_state_root (last (n_blocks n1)) = Some 2"
    using cached_seal [of n0 "[]"] n0 by auto
  have "sb_state_root (last (n_blocks m1)) \<noteq> sb_state_root (last (n_blocks n1))"
    by (simp add: m1(2) n1(2))
  from read_before_seal_breaks_restart [OF cache_env_ok cache_sels(6) fs n0(1) r m1(1) n1(1) this, of no_legacy]
    n0(1) r m1(1) show ?thesis by blast
qed

end
