(* ===== verification/Contracts.thy ===== *)
theory Contracts
  imports Chain_Types
begin

unbundle bit_operations_syntax

text \<open>
  The demo contract (\<^verbatim>\<open>crates/move-execution/src/contracts.rs\<close>): the hand-assembled bytecode of
  \<open>SimpleStorage\<close>, the init code that deploys a runtime and the ABI encodings of its two calls. The
  bytecode is a program in the EVM's instruction set, so the instructions it uses are given their
  meaning here (the Ethereum definition, without gas metering), and the bytecode is shown to implement a
  single storage cell for every calldata.
\<close>

section \<open>The bytecode\<close>

definition SIMPLE_STORAGE_SET_SELECTOR :: bytes where
  "SIMPLE_STORAGE_SET_SELECTOR = [0x60, 0xfe, 0x47, 0xb1]"

definition SIMPLE_STORAGE_GET_SELECTOR :: bytes where
  "SIMPLE_STORAGE_GET_SELECTOR = [0x6d, 0x4c, 0xe6, 0x3c]"

definition SIMPLE_STORAGE_RUNTIME :: bytes where
  "SIMPLE_STORAGE_RUNTIME =
    [0x60, 0x00,
     0x35,
     0x60, 0xe0,
     0x1c,
     0x80,
     0x63, 0x60, 0xfe, 0x47, 0xb1,
     0x14,
     0x60, 0x2a,
     0x57,
     0x63, 0x6d, 0x4c, 0xe6, 0x3c,
     0x14,
     0x60, 0x33,
     0x57,
     0x60, 0x00,
     0x80,
     0xfd,
     0x00, 0x00, 0x00, 0x00, 0x00, 0x00, 0x00, 0x00, 0x00, 0x00, 0x00, 0x00,
     0x00,
     0x5b,
     0x60, 0x04,
     0x35,
     0x60, 0x00,
     0x55,
     0x00,
     0x00,
     0x5b,
     0x60, 0x00,
     0x54,
     0x60, 0x00,
     0x52,
     0x60, 0x20,
     0x60, 0x00,
     0xf3]"

definition deploy_init :: "bytes \<Rightarrow> bytes outcome" where
  "deploy_init runtime =
     (if runtime \<noteq> [] \<and> length runtime \<le> 242
      then (let len = of_nat (length runtime); off = 13
            in Returns ([0x60, len,
                         0x80,
                         0x60, off,
                         0x60, 0x00,
                         0x39,
                         0x60, len,
                         0x60, 0x00,
                         0xf3] @ runtime))
      else Panics)"

definition encode_set :: "u64 \<Rightarrow> bytes" where
  "encode_set value = SIMPLE_STORAGE_SET_SELECTOR @ (replicate 24 0 @ to_be_bytes 8 value)"

definition encode_get :: bytes where
  "encode_get = SIMPLE_STORAGE_GET_SELECTOR"

section \<open>The instructions the bytecode uses\<close>

record Machine =
  pc :: nat
  stack :: "U256 list"
  memory :: bytes
  slots :: "U256 \<Rightarrow> U256"

datatype Halt = Stopped | Returned bytes | Reverted bytes | Failed

datatype Step = Continue Machine | Halts Halt "U256 \<Rightarrow> U256"

text \<open>Reading past the end gives zeros, for calldata, code and memory alike.\<close>

definition window :: "bytes \<Rightarrow> nat \<Rightarrow> nat \<Rightarrow> bytes" where
  "window bs off len = take len (drop off bs @ replicate len 0)"

text \<open>Memory grows with zeros up to what an instruction touches; \<open>overwrite\<close> is a store there.\<close>

definition overwrite :: "bytes \<Rightarrow> nat \<Rightarrow> bytes \<Rightarrow> bytes" where
  "overwrite m off bs = take off (m @ replicate off 0) @ bs @ drop (off + length bs) m"

text \<open>The length of an instruction: a push of k bytes carries them after its opcode.\<close>

definition instr_size :: "u8 \<Rightarrow> nat" where
  "instr_size op = (if 0x60 \<le> op \<and> op \<le> 0x7f then unat op - 0x5e else 1)"

text \<open>A jump may go to a \<open>JUMPDEST\<close> that starts an instruction, not into the data of a push.\<close>

function jump_targets :: "bytes \<Rightarrow> nat \<Rightarrow> nat list" where
  "jump_targets code i =
     (if i < length code
      then (if code ! i = 0x5b then [i] else []) @ jump_targets code (i + instr_size (code ! i))
      else [])"
  by pat_completeness auto

lemma instr_size_pos: "0 < instr_size op"
proof -
  have "0x60 \<le> unat op" if "0x60 \<le> op" using that by (simp add: word_le_nat_alt)
  then show ?thesis by (auto simp: instr_size_def)
qed

termination jump_targets
  by (relation "measure (\<lambda>(code, i). length code - i)") (use instr_size_pos in \<open>auto intro: diff_less_mono2\<close>)

declare jump_targets.simps [simp del]

text \<open>One instruction; running off the code is \<open>STOP\<close>. \<open>Failed\<close> is an exceptional halt, also given for
  instructions outside this subset.\<close>

definition op_step :: "bytes \<Rightarrow> bytes \<Rightarrow> Machine \<Rightarrow> Step" where
  "op_step code calldata m =
     (let op = (if pc m < length code then code ! pc m else 0);
          fail = Halts Failed (slots m);
          go = (\<lambda>st. if length st \<le> 1024 then Continue (m\<lparr>pc := pc m + instr_size op, stack := st\<rparr>) else fail)
      in if op = 0x00 then Halts Stopped (slots m)
         else if op = 0x60 \<or> op = 0x63
         then go (from_be_bytes (window code (pc m + 1) (instr_size op - 1)) # stack m)
         else if op = 0x5b then go (stack m)
         else if op = 0x80 then (case stack m of a # st \<Rightarrow> go (a # a # st) | _ \<Rightarrow> fail)
         else if op = 0x35 then (case stack m of i # st \<Rightarrow> go (from_be_bytes (window calldata (unat i) 32) # st) | _ \<Rightarrow> fail)
         else if op = 0x1c
         then (case stack m of shift # v # st \<Rightarrow> go (drop_bit (unat shift) v # st) | _ \<Rightarrow> fail)
         else if op = 0x14 then (case stack m of a # b # st \<Rightarrow> go ((if a = b then 1 else 0) # st) | _ \<Rightarrow> fail)
         else if op = 0x57
         then (case stack m of
                 dest # cond # st \<Rightarrow>
                   (if cond = 0 then go st
                    else if unat dest \<in> set (jump_targets code 0) then Continue (m\<lparr>pc := unat dest, stack := st\<rparr>)
                    else fail)
               | _ \<Rightarrow> fail)
         else if op = 0x54 then (case stack m of k # st \<Rightarrow> go (slots m k # st) | _ \<Rightarrow> fail)
         else if op = 0x55
         then (case stack m of
                 k # v # st \<Rightarrow> Continue (m\<lparr>pc := pc m + 1, stack := st, slots := (slots m)(k := v)\<rparr>)
               | _ \<Rightarrow> fail)
         else if op = 0x52
         then (case stack m of
                 off # v # st \<Rightarrow> Continue (m\<lparr>pc := pc m + 1, stack := st,
                                     memory := overwrite (memory m) (unat off) (to_be_bytes 32 v)\<rparr>)
               | _ \<Rightarrow> fail)
         else if op = 0x39
         then (case stack m of
                 dest # off # len # st \<Rightarrow> Continue (m\<lparr>pc := pc m + 1, stack := st,
                     memory := overwrite (memory m) (unat dest) (window code (unat off) (unat len))\<rparr>)
               | _ \<Rightarrow> fail)
         else if op = 0xf3
         then (case stack m of off # len # _ \<Rightarrow> Halts (Returned (window (memory m) (unat off) (unat len))) (slots m) | _ \<Rightarrow> fail)
         else if op = 0xfd
         then (case stack m of off # len # _ \<Rightarrow> Halts (Reverted (window (memory m) (unat off) (unat len))) (slots m) | _ \<Rightarrow> fail)
         else fail)"

text \<open>A call: run from the start for at most \<open>fuel\<close> instructions. A revert and an exceptional halt restore
  the storage the call began with; \<open>None\<close> is not halting in time.\<close>

fun steps :: "nat \<Rightarrow> bytes \<Rightarrow> bytes \<Rightarrow> Machine \<Rightarrow> (Halt \<times> (U256 \<Rightarrow> U256)) option" where
  "steps 0 code calldata m = None"
| "steps (Suc n) code calldata m =
     (case op_step code calldata m of
        Continue m' \<Rightarrow> steps n code calldata m'
      | Halts h st \<Rightarrow> Some (h, st))"

definition run_code :: "nat \<Rightarrow> bytes \<Rightarrow> bytes \<Rightarrow> (U256 \<Rightarrow> U256) \<Rightarrow> (Halt \<times> (U256 \<Rightarrow> U256)) option" where
  "run_code fuel code calldata st =
     map_option (\<lambda>(h, st'). (h, case h of Stopped \<Rightarrow> st' | Returned _ \<Rightarrow> st' | _ \<Rightarrow> st))
       (steps fuel code calldata \<lparr>pc = 0, stack = [], memory = [], slots = st\<rparr>)"

section \<open>The abstract contract\<close>

text \<open>What \<open>SimpleStorage\<close> promises: one cell; calldata shorter than what is read is padded with zeros.\<close>

definition cell_call :: "bytes \<Rightarrow> U256 \<Rightarrow> Halt \<times> U256" where
  "cell_call calldata cell =
     (if window calldata 0 4 = SIMPLE_STORAGE_SET_SELECTOR then (Stopped, from_be_bytes (window calldata 4 32))
      else if window calldata 0 4 = SIMPLE_STORAGE_GET_SELECTOR then (Returned (to_be_bytes 32 cell), cell)
      else (Reverted [], cell))"

section \<open>Symbolic execution\<close>

lemma length_window [simp]: "length (window bs off len) = len"
  by (simp add: window_def)

lemma window_prefix: "m \<le> n \<Longrightarrow> take m (window bs off n) = window bs off m"
  by (simp add: window_def take_append min_def)

lemma from_be_bytes_append:
  "from_be_bytes (xs @ ys) = (of_nat (le_value (rev ys) + 256 ^ length ys * le_value (rev xs)) :: 'a::len word)"
proof -
  have "le_value (as @ bs) = le_value as + 256 ^ length as * le_value bs" for as bs
    by (induction as) (simp_all add: algebra_simps)
  then show ?thesis by (simp add: from_be_bytes_def from_le_bytes_value)
qed

text \<open>The selector: the top four bytes of the first word.\<close>

lemma selector_shift:
  "drop_bit 224 (from_be_bytes (window cd 0 32) :: U256) = from_be_bytes (window cd 0 4)"
proof -
  define xs ys where "xs = window cd 0 4" and "ys = drop 4 (window cd 0 32)"
  have w: "window cd 0 32 = xs @ ys" "length xs = 4" "length ys = 28"
    using append_take_drop_id [of 4 "window cd 0 32"] by (simp_all add: xs_def ys_def window_prefix)
  have b: "le_value (rev ys) < 256 ^ 28" "le_value (rev xs) < 256 ^ 4"
    using le_value_less [of "rev ys"] le_value_less [of "rev xs"] w by simp_all
  then have "le_value (rev ys) + 256 ^ 28 * le_value (rev xs) < 2 ^ 256" by simp
  then have "unat (from_be_bytes (xs @ ys) :: U256) = le_value (rev ys) + 256 ^ 28 * le_value (rev xs)"
    unfolding from_be_bytes_append w(3) unat_of_nat by (subst mod_less) simp_all
  then have "unat (drop_bit 224 (from_be_bytes (xs @ ys) :: U256)) = le_value (rev xs)"
    using b unfolding unat_drop_bit_eq by (simp add: drop_bit_eq_div)
  moreover have "unat (from_be_bytes xs :: U256) = le_value (rev xs)"
    using b(2) by (simp add: from_be_bytes_def from_le_bytes_value unat_of_nat)
  ultimately show ?thesis unfolding w(1) xs_def [symmetric] by (metis word_unat_eq_iff)
qed

lemma from_be_bytes_selector:
  assumes "length xs = 4" "length ys = 4"
  shows "(from_be_bytes xs :: U256) = from_be_bytes ys \<longleftrightarrow> xs = ys"
proof
  assume "(from_be_bytes xs :: U256) = from_be_bytes ys"
  then have "to_be_bytes 4 (from_be_bytes xs :: U256) = to_be_bytes 4 (from_be_bytes ys :: U256)" by simp
  then show "xs = ys" by (simp add: to_from_be_bytes assms)
qed simp

lemma runtime_targets: "set (jump_targets SIMPLE_STORAGE_RUNTIME 0) = {0x2a, 0x33}"
  by code_simp

text \<open>One lemma per instruction, on a machine whose program counter is at it.\<close>

lemma steps_pos:
  "0 < n \<Longrightarrow> steps n code cd m = (case op_step code cd m of Continue m' \<Rightarrow> steps (n - 1) code cd m' | Halts h st \<Rightarrow> Some (h, st))"
  by (cases n) (simp_all split: Step.split)

lemma push1_data: "k < length code \<Longrightarrow> from_be_bytes (window code k 1) = ucast (code ! k)"
  by (simp add: window_def from_be_bytes_def take_Suc_conv_app_nth hd_drop_conv_nth take_Suc hd_append)

lemma steps_instr:
  assumes "0 < n" "k < length code"
  shows
    stop: "code ! k = 0x00 \<Longrightarrow> steps n code cd \<lparr>pc = k, stack = st, memory = mm, slots = s\<rparr> = Some (Stopped, s)"
  and jumpdest: "code ! k = 0x5b \<Longrightarrow> length st \<le> 1024 \<Longrightarrow>
      steps n code cd \<lparr>pc = k, stack = st, memory = mm, slots = s\<rparr>
        = steps (n - 1) code cd \<lparr>pc = k + 1, stack = st, memory = mm, slots = s\<rparr>"
  and push1: "code ! k = 0x60 \<Longrightarrow> length st < 1024 \<Longrightarrow> k + 1 < length code \<Longrightarrow>
      steps n code cd \<lparr>pc = k, stack = st, memory = mm, slots = s\<rparr>
        = steps (n - 1) code cd \<lparr>pc = k + 2, stack = ucast (code ! (k + 1)) # st, memory = mm, slots = s\<rparr>"
  and push4: "code ! k = 0x63 \<Longrightarrow> length st < 1024 \<Longrightarrow>
      steps n code cd \<lparr>pc = k, stack = st, memory = mm, slots = s\<rparr>
        = steps (n - 1) code cd \<lparr>pc = k + 5, stack = from_be_bytes (window code (k + 1) 4) # st, memory = mm, slots = s\<rparr>"
  and dup1: "code ! k = 0x80 \<Longrightarrow> length st < 1023 \<Longrightarrow>
      steps n code cd \<lparr>pc = k, stack = a # st, memory = mm, slots = s\<rparr>
        = steps (n - 1) code cd \<lparr>pc = k + 1, stack = a # a # st, memory = mm, slots = s\<rparr>"
  and calldataload: "code ! k = 0x35 \<Longrightarrow> length st < 1024 \<Longrightarrow>
      steps n code cd \<lparr>pc = k, stack = a # st, memory = mm, slots = s\<rparr>
        = steps (n - 1) code cd \<lparr>pc = k + 1, stack = from_be_bytes (window cd (unat a) 32) # st, memory = mm, slots = s\<rparr>"
  and shr: "code ! k = 0x1c \<Longrightarrow> length st < 1024 \<Longrightarrow>
      steps n code cd \<lparr>pc = k, stack = a # b # st, memory = mm, slots = s\<rparr>
        = steps (n - 1) code cd \<lparr>pc = k + 1, stack = drop_bit (unat a) b # st, memory = mm, slots = s\<rparr>"
  and eq: "code ! k = 0x14 \<Longrightarrow> length st < 1024 \<Longrightarrow>
      steps n code cd \<lparr>pc = k, stack = a # b # st, memory = mm, slots = s\<rparr>
        = steps (n - 1) code cd \<lparr>pc = k + 1, stack = (if a = b then 1 else 0) # st, memory = mm, slots = s\<rparr>"
  and jumpi: "code ! k = 0x57 \<Longrightarrow> length st \<le> 1024 \<Longrightarrow> unat a \<in> set (jump_targets code 0) \<Longrightarrow>
      steps n code cd \<lparr>pc = k, stack = a # b # st, memory = mm, slots = s\<rparr>
        = steps (n - 1) code cd \<lparr>pc = (if b = 0 then k + 1 else unat a), stack = st, memory = mm, slots = s\<rparr>"
  and sload: "code ! k = 0x54 \<Longrightarrow> length st < 1024 \<Longrightarrow>
      steps n code cd \<lparr>pc = k, stack = a # st, memory = mm, slots = s\<rparr>
        = steps (n - 1) code cd \<lparr>pc = k + 1, stack = s a # st, memory = mm, slots = s\<rparr>"
  and sstore: "code ! k = 0x55 \<Longrightarrow>
      steps n code cd \<lparr>pc = k, stack = a # b # st, memory = mm, slots = s\<rparr>
        = steps (n - 1) code cd \<lparr>pc = k + 1, stack = st, memory = mm, slots = s(a := b)\<rparr>"
  and mstore: "code ! k = 0x52 \<Longrightarrow>
      steps n code cd \<lparr>pc = k, stack = a # b # st, memory = mm, slots = s\<rparr>
        = steps (n - 1) code cd \<lparr>pc = k + 1, stack = st, memory = overwrite mm (unat a) (to_be_bytes 32 b), slots = s\<rparr>"
  and codecopy: "code ! k = 0x39 \<Longrightarrow>
      steps n code cd \<lparr>pc = k, stack = a # b # c # st, memory = mm, slots = s\<rparr>
        = steps (n - 1) code cd \<lparr>pc = k + 1, stack = st,
            memory = overwrite mm (unat a) (window code (unat b) (unat c)), slots = s\<rparr>"
  and return: "code ! k = 0xf3 \<Longrightarrow>
      steps n code cd \<lparr>pc = k, stack = a # b # st, memory = mm, slots = s\<rparr>
        = Some (Returned (window mm (unat a) (unat b)), s)"
  and revert: "code ! k = 0xfd \<Longrightarrow>
      steps n code cd \<lparr>pc = k, stack = a # b # st, memory = mm, slots = s\<rparr>
        = Some (Reverted (window mm (unat a) (unat b)), s)"
  using assms by (simp_all add: steps_pos op_step_def instr_size_def push1_data [unfolded One_nat_def])

lemma runtime_fetch [simp]:
  "length SIMPLE_STORAGE_RUNTIME = 63" "SIMPLE_STORAGE_RUNTIME ! 0 = 0x60" "SIMPLE_STORAGE_RUNTIME ! 2 = 0x35"
  "SIMPLE_STORAGE_RUNTIME ! 3 = 0x60" "SIMPLE_STORAGE_RUNTIME ! 5 = 0x1c" "SIMPLE_STORAGE_RUNTIME ! 6 = 0x80"
  "SIMPLE_STORAGE_RUNTIME ! 7 = 0x63" "SIMPLE_STORAGE_RUNTIME ! 12 = 0x14" "SIMPLE_STORAGE_RUNTIME ! 13 = 0x60"
  "SIMPLE_STORAGE_RUNTIME ! 15 = 0x57" "SIMPLE_STORAGE_RUNTIME ! 16 = 0x63" "SIMPLE_STORAGE_RUNTIME ! 21 = 0x14"
  "SIMPLE_STORAGE_RUNTIME ! 22 = 0x60" "SIMPLE_STORAGE_RUNTIME ! 24 = 0x57" "SIMPLE_STORAGE_RUNTIME ! 25 = 0x60"
  "SIMPLE_STORAGE_RUNTIME ! 27 = 0x80" "SIMPLE_STORAGE_RUNTIME ! 28 = 0xfd" "SIMPLE_STORAGE_RUNTIME ! 42 = 0x5b"
  "SIMPLE_STORAGE_RUNTIME ! 43 = 0x60" "SIMPLE_STORAGE_RUNTIME ! 45 = 0x35" "SIMPLE_STORAGE_RUNTIME ! 46 = 0x60"
  "SIMPLE_STORAGE_RUNTIME ! 48 = 0x55" "SIMPLE_STORAGE_RUNTIME ! 49 = 0x00" "SIMPLE_STORAGE_RUNTIME ! 51 = 0x5b"
  "SIMPLE_STORAGE_RUNTIME ! 52 = 0x60" "SIMPLE_STORAGE_RUNTIME ! 54 = 0x54" "SIMPLE_STORAGE_RUNTIME ! 55 = 0x60"
  "SIMPLE_STORAGE_RUNTIME ! 57 = 0x52" "SIMPLE_STORAGE_RUNTIME ! 58 = 0x60" "SIMPLE_STORAGE_RUNTIME ! 60 = 0x60"
  "SIMPLE_STORAGE_RUNTIME ! 62 = 0xf3"
  by (simp_all add: SIMPLE_STORAGE_RUNTIME_def)

lemma runtime_data [simp]:
  "SIMPLE_STORAGE_RUNTIME ! Suc 0 = 0" "SIMPLE_STORAGE_RUNTIME ! 4 = 0xe0" "SIMPLE_STORAGE_RUNTIME ! 14 = 0x2a"
  "SIMPLE_STORAGE_RUNTIME ! 23 = 0x33" "SIMPLE_STORAGE_RUNTIME ! 26 = 0" "SIMPLE_STORAGE_RUNTIME ! 44 = 4"
  "SIMPLE_STORAGE_RUNTIME ! 47 = 0" "SIMPLE_STORAGE_RUNTIME ! 53 = 0" "SIMPLE_STORAGE_RUNTIME ! 56 = 0"
  "SIMPLE_STORAGE_RUNTIME ! 59 = 0x20" "SIMPLE_STORAGE_RUNTIME ! 61 = 0"
  "window SIMPLE_STORAGE_RUNTIME 8 4 = SIMPLE_STORAGE_SET_SELECTOR"
  "window SIMPLE_STORAGE_RUNTIME 17 4 = SIMPLE_STORAGE_GET_SELECTOR"
  by (simp_all add: SIMPLE_STORAGE_RUNTIME_def SIMPLE_STORAGE_SET_SELECTOR_def SIMPLE_STORAGE_GET_SELECTOR_def window_def)

lemma selectors_differ [simp]: "SIMPLE_STORAGE_SET_SELECTOR \<noteq> SIMPLE_STORAGE_GET_SELECTOR"
  "SIMPLE_STORAGE_GET_SELECTOR \<noteq> SIMPLE_STORAGE_SET_SELECTOR"
  by (simp_all add: SIMPLE_STORAGE_SET_SELECTOR_def SIMPLE_STORAGE_GET_SELECTOR_def)

lemma length_selectors [simp]:
  "length SIMPLE_STORAGE_SET_SELECTOR = 4" "length SIMPLE_STORAGE_GET_SELECTOR = 4"
  by (simp_all add: SIMPLE_STORAGE_SET_SELECTOR_def SIMPLE_STORAGE_GET_SELECTOR_def)

lemmas dispatch_simps = run_code_def steps_instr selector_shift runtime_targets from_be_bytes_selector

lemma run_set:
  "window cd 0 4 = SIMPLE_STORAGE_SET_SELECTOR \<Longrightarrow>
   run_code 24 SIMPLE_STORAGE_RUNTIME cd st = Some (Stopped, st(0 := from_be_bytes (window cd 4 32)))"
  by (simp add: dispatch_simps del: add_2_eq_Suc')

lemma run_get:
  "window cd 0 4 = SIMPLE_STORAGE_GET_SELECTOR \<Longrightarrow>
   run_code 24 SIMPLE_STORAGE_RUNTIME cd st = Some (Returned (to_be_bytes 32 (st 0)), st)"
  by (simp add: dispatch_simps overwrite_def window_def [of "to_be_bytes n w" for n w] del: add_2_eq_Suc')

lemma run_other:
  "window cd 0 4 \<noteq> SIMPLE_STORAGE_SET_SELECTOR \<Longrightarrow> window cd 0 4 \<noteq> SIMPLE_STORAGE_GET_SELECTOR \<Longrightarrow>
   run_code 24 SIMPLE_STORAGE_RUNTIME cd st = Some (Reverted [], st)"
  by (simp add: dispatch_simps window_def [of "[]"] del: add_2_eq_Suc')

section \<open>A contract that implements a cell\<close>

text \<open>The interface a client relies on: every call ends, its result and its effect on the cell are those of
  the abstract contract, and nothing but the cell changes.\<close>

locale cell_contract =
  fixes call :: "bytes \<Rightarrow> (U256 \<Rightarrow> U256) \<Rightarrow> (Halt \<times> (U256 \<Rightarrow> U256)) option"
    and slot :: U256
  assumes refines: "call cd st = Some (fst (cell_call cd (st slot)), st(slot := snd (cell_call cd (st slot))))"
begin

lemma get_after_set:
  "call (encode_set v) st = Some (Stopped, st(slot := ucast v))"
  "call encode_get (st(slot := ucast v)) = Some (Returned (to_be_bytes 32 (ucast v :: U256)), st(slot := ucast v))"
proof -
  have "(ucast v :: U256) = from_be_bytes (replicate 24 0 @ to_be_bytes 8 v)"
  proof -
    have "le_value (rev (to_be_bytes 8 v)) = unat v"
      using le_value_to_le_bytes [of 8 v] unsigned_less [of v, where ?'a = nat] by (simp add: to_be_bytes_def)
    moreover have "le_value (replicate n 0) = 0" for n by (induction n) simp_all
    ultimately show ?thesis by (simp add: from_be_bytes_append)
  qed
  then have "cell_call (encode_set v) c = (Stopped, ucast v)" for c
    by (simp add: cell_call_def encode_set_def window_def SIMPLE_STORAGE_SET_SELECTOR_def)
  moreover have "cell_call encode_get c = (Returned (to_be_bytes 32 c), c)" for c
    by (simp add: cell_call_def encode_get_def window_def)
  ultimately show "call (encode_set v) st = Some (Stopped, st(slot := ucast v))"
    "call encode_get (st(slot := ucast v)) = Some (Returned (to_be_bytes 32 (ucast v :: U256)), st(slot := ucast v))"
    using refines [of "encode_set v" st] refines [of encode_get "st(slot := ucast v)"] by simp_all
qed

end

lemma runtime_refines:
  "run_code 24 SIMPLE_STORAGE_RUNTIME cd st
     = Some (fst (cell_call cd (st 0)), st(0 := snd (cell_call cd (st 0))))"
  by (simp add: cell_call_def run_set run_get run_other)

interpretation simple_storage: cell_contract "run_code 24 SIMPLE_STORAGE_RUNTIME" 0
  by unfold_locales (rule runtime_refines)

section \<open>Deployment\<close>

lemma deploy_run:
  assumes "deploy_init runtime = Returns init"
  shows "run_code 9 init cd st = Some (Returned runtime, st)"
proof -
  have init: "init = [0x60, of_nat (length runtime), 0x80, 0x60, 13, 0x60, 0, 0x39, 0x60, of_nat (length runtime),
      0x60, 0, 0xf3] @ runtime" and len: "length runtime \<le> 242"
    using assms by (auto simp: deploy_init_def Let_def split: if_splits)
  have "unat (ucast (of_nat (length runtime) :: u8) :: U256) = length runtime"
    using len by (simp add: unat_ucast_up unat_of_nat)
  moreover have "window init 13 (length runtime) = runtime" by (simp add: init window_def)
  moreover have "length init = 13 + length runtime" "init ! 0 = 0x60" "init ! Suc 0 = of_nat (length runtime)"
    "init ! 2 = 0x80" "init ! 3 = 0x60" "init ! 4 = 13" "init ! 5 = 0x60" "init ! 6 = 0" "init ! 7 = 0x39"
    "init ! 8 = 0x60" "init ! 9 = of_nat (length runtime)" "init ! 10 = 0x60" "init ! 11 = 0" "init ! 12 = 0xf3"
    by (simp_all add: init)
  ultimately show ?thesis
    by (simp add: run_code_def steps_instr overwrite_def window_def [of runtime] del: add_2_eq_Suc')
qed

section \<open>Properties\<close>

text \<open>
  C21. The bytecode implements the abstract contract. For every calldata and every storage the deployed runtime
  halts within 24 instructions, with the result of the abstract cell: \<open>set\<close> stores its argument in slot 0,
  \<open>get\<close> returns the 32 bytes of slot 0 and anything else reverts with no data; no other slot changes.
\<close>

theorem simple_storage_refines_cell:
  "\<exists>h st'. run_code 24 SIMPLE_STORAGE_RUNTIME cd st = Some (h, st')
     \<and> (h, st' 0) = cell_call cd (st 0) \<and> (\<forall>k. k \<noteq> 0 \<longrightarrow> st' k = st k)"
  using simple_storage.refines [of cd st] by simp

theorem simple_storage_refines_cell_witness:
  "\<exists>h st'. run_code 24 SIMPLE_STORAGE_RUNTIME [0x6d, 0x4c, 0xe6, 0x3c] ((\<lambda>_. 7)(0 := 42)) = Some (h, st')
     \<and> h = Returned (to_be_bytes 32 (42 :: U256)) \<and> st' 0 = 42 \<and> st' 1 = 7"
proof -
  have "cell_call [0x6d, 0x4c, 0xe6, 0x3c] 42 = (Returned (to_be_bytes 32 (42 :: U256)), 42)"
    by (simp add: cell_call_def window_def SIMPLE_STORAGE_SET_SELECTOR_def SIMPLE_STORAGE_GET_SELECTOR_def)
  then show ?thesis
    using simple_storage_refines_cell [of "[0x6d, 0x4c, 0xe6, 0x3c]" "(\<lambda>_. 7)(0 := 42)"] by auto
qed

text \<open>
  ABI round trip through the bytecode: after the encoded \<open>set(v)\<close> the encoded \<open>get()\<close> returns v as a
  32-byte big-endian word, whatever the storage was before.
\<close>

theorem set_then_get:
  "\<exists>st'. run_code 24 SIMPLE_STORAGE_RUNTIME (encode_set v) st = Some (Stopped, st')
     \<and> run_code 24 SIMPLE_STORAGE_RUNTIME encode_get st' = Some (Returned (to_be_bytes 32 (ucast v :: U256)), st')"
  using simple_storage.get_after_set by blast

text \<open>
  Deployment: for a runtime of 1 to 242 bytes the init code is 13 bytes longer, and running it returns
  exactly that runtime and leaves the storage alone, in at most 9 instructions; for any other length
  \<open>deploy_init\<close> panics.
\<close>

theorem deploy_init_deploys:
  "if 1 \<le> length runtime \<and> length runtime \<le> 242
   then \<exists>init. deploy_init runtime = Returns init \<and> length init = 13 + length runtime
     \<and> run_code 9 init cd st = Some (Returned runtime, st)
   else deploy_init runtime = Panics"
proof (cases "deploy_init runtime")
  case Panics
  then show ?thesis by (auto simp: deploy_init_def Let_def Suc_le_eq split: if_splits)
next
  case (Returns init)
  then show ?thesis using deploy_run [OF Returns, of cd st]
    by (auto simp: deploy_init_def Let_def Suc_le_eq split: if_splits)
qed

end
