(* ===== verification/Registry.thy ===== *)
theory Registry
  imports Chain_Types
begin

text \<open>
  The process-wide registry of open databases (\<^verbatim>\<open>crates/storage/src/db.rs\<close>). \<open>open_or_get_db\<close> takes
  the registry lock twice, once to look the path up and once to enter a database it has opened in between;
  its three stages are separate operations here, and concurrent callers are interleavings of them with the
  drops of handles.
\<close>

section \<open>State\<close>

text \<open>A path by its components, with whether it is absolute: \<open>PathBuf\<close> compares that way.\<close>

type_synonym path = "bool \<times> string list"

definition is_relative :: "path \<Rightarrow> bool" where "is_relative p \<longleftrightarrow> \<not> fst p"

definition join_path :: "path \<Rightarrow> path \<Rightarrow> path" where
  "join_path a b = (if fst b then b else (fst a, snd a @ snd b))"

definition parent_path :: "path \<Rightarrow> path option" where
  "parent_path p = (if snd p = [] then None else Some (fst p, butlast (snd p)))"

text \<open>A live database with the number of its \<open>Arc\<close> handles; the registry maps a path to a \<open>Weak\<close> handle.\<close>

record OpenDb =
  od_id :: nat
  od_path :: path
  od_strong :: nat

record Registry =
  rg_entries :: "(path \<times> nat) list"
  rg_live :: "OpenDb list"
  rg_next :: nat

text \<open>Third-party code: the working directory, directory creation and \<open>DB::open\<close>, which is told which
  paths this process has open.\<close>

record DbEnv =
  de_cwd :: "string + path"
  de_create_dir_all :: "path \<Rightarrow> string + unit"
  de_open :: "path set \<Rightarrow> path \<Rightarrow> string + unit"

text \<open>RocksDB locks the directory of an open database: a second open of it fails.\<close>

definition dir_lock :: "DbEnv \<Rightarrow> bool" where
  "dir_lock e \<longleftrightarrow> (\<forall>live p. p \<in> live \<longrightarrow> (\<exists>m. de_open e live p = Inl m))"

definition live_db :: "Registry \<Rightarrow> nat \<Rightarrow> OpenDb option" where
  "live_db r h = find (\<lambda>d. od_id d = h) (rg_live r)"

section \<open>The stages of an open\<close>

definition normalize_path :: "DbEnv \<Rightarrow> path \<Rightarrow> StoreError + path" where
  "normalize_path e dir =
     (if is_relative dir
      then (case de_cwd e of
              Inl m \<Rightarrow> Inl (Backend (''failed to resolve cwd for RocksDB: '' @ m))
            | Inr cwd \<Rightarrow> Inr (join_path cwd dir))
      else Inr dir)"

text \<open>The first critical section: drop dead entries, upgrade the entry of the path when there is one.\<close>

definition check_registry :: "Registry \<Rightarrow> path \<Rightarrow> nat option \<times> Registry" where
  "check_registry r p =
     (let kept = filter (\<lambda>(_, h). live_db r h \<noteq> None) (rg_entries r) in
      case map_of kept p of
        Some h \<Rightarrow> (Some h, r\<lparr>rg_entries := kept,
                     rg_live := map (\<lambda>d. if od_id d = h then d\<lparr>od_strong := od_strong d + 1\<rparr> else d) (rg_live r)\<rparr>)
      | None \<Rightarrow> (None, r\<lparr>rg_entries := kept\<rparr>))"

definition open_database :: "DbEnv \<Rightarrow> Registry \<Rightarrow> path \<Rightarrow> (StoreError + nat) \<times> Registry" where
  "open_database e r p =
     (case de_create_dir_all e (case parent_path p of Some q \<Rightarrow> q | None \<Rightarrow> (False, [])) of
        Inl m \<Rightarrow> (Inl (Backend (''failed to create RocksDB parent directory: '' @ m)), r)
      | Inr _ \<Rightarrow>
          (case de_open e (set (map od_path (rg_live r))) p of
             Inl m \<Rightarrow> (Inl (Backend (''Failed to open RocksDB for kanari: '' @ m)), r)
           | Inr _ \<Rightarrow> (Inr (rg_next r),
               r\<lparr>rg_live := \<lparr>od_id = rg_next r, od_path = p, od_strong = 1\<rparr> # rg_live r, rg_next := rg_next r + 1\<rparr>)))"

text \<open>The second critical section.\<close>

definition register_db :: "Registry \<Rightarrow> path \<Rightarrow> nat \<Rightarrow> Registry" where
  "register_db r p h = r\<lparr>rg_entries := (p, h) # filter (\<lambda>(q, _). q \<noteq> p) (rg_entries r)\<rparr>"

text \<open>Without interference the stages run one after the other.\<close>

definition open_or_get_db :: "DbEnv \<Rightarrow> Registry \<Rightarrow> path \<Rightarrow> (StoreError + nat) \<times> Registry" where
  "open_or_get_db e r dir =
     (case normalize_path e dir of
        Inl m \<Rightarrow> (Inl m, r)
      | Inr p \<Rightarrow>
          (case check_registry r p of
             (Some h, r1) \<Rightarrow> (Inr h, r1)
           | (None, r1) \<Rightarrow>
               (case open_database e r1 p of
                  (Inl m, r2) \<Rightarrow> (Inl m, r2)
                | (Inr h, r2) \<Rightarrow> (Inr h, register_db r2 p h))))"

text \<open>A chain store is one handle; the state tree takes another of the same database.\<close>

record ChainStore = ch_db :: nat

definition store_open :: "DbEnv \<Rightarrow> Registry \<Rightarrow> path \<Rightarrow> (StoreError + ChainStore) \<times> Registry" where
  "store_open e r dir = (case open_or_get_db e r dir of (Inl m, r') \<Rightarrow> (Inl m, r') | (Inr h, r') \<Rightarrow> (Inr \<lparr>ch_db = h\<rparr>, r'))"

definition shared_db :: "ChainStore \<Rightarrow> Registry \<Rightarrow> nat \<times> Registry" where
  "shared_db st r = (ch_db st,
     r\<lparr>rg_live := map (\<lambda>d. if od_id d = ch_db st then d\<lparr>od_strong := od_strong d + 1\<rparr> else d) (rg_live r)\<rparr>)"

text \<open>Dropping one handle; the last one closes the database.\<close>

definition drop_handle :: "Registry \<Rightarrow> nat \<Rightarrow> Registry" where
  "drop_handle r h =
     r\<lparr>rg_live := filter (\<lambda>d. 0 < od_strong d)
        (map (\<lambda>d. if od_id d = h then d\<lparr>od_strong := od_strong d - 1\<rparr> else d) (rg_live r))\<rparr>"

section \<open>Concurrent callers\<close>

datatype Pc = Idle | Checked path | Opened path nat | Finished "StoreError + nat"

text \<open>A caller that has opened a database holds a handle until it has registered it; afterwards its owner
  may drop it at any time.\<close>

inductive reg_step :: "DbEnv \<Rightarrow> Registry \<times> (nat \<Rightarrow> Pc) \<Rightarrow> Registry \<times> (nat \<Rightarrow> Pc) \<Rightarrow> bool" for e where
  bad_path: "pcs t = Idle \<Longrightarrow> normalize_path e dir = Inl m \<Longrightarrow> reg_step e (r, pcs) (r, pcs(t := Finished (Inl m)))"
| reuse: "pcs t = Idle \<Longrightarrow> normalize_path e dir = Inr p \<Longrightarrow> check_registry r p = (Some h, r') \<Longrightarrow>
    reg_step e (r, pcs) (r', pcs(t := Finished (Inr h)))"
| miss: "pcs t = Idle \<Longrightarrow> normalize_path e dir = Inr p \<Longrightarrow> check_registry r p = (None, r') \<Longrightarrow>
    reg_step e (r, pcs) (r', pcs(t := Checked p))"
| fail: "pcs t = Checked p \<Longrightarrow> open_database e r p = (Inl m, r') \<Longrightarrow>
    reg_step e (r, pcs) (r', pcs(t := Finished (Inl m)))"
| opened: "pcs t = Checked p \<Longrightarrow> open_database e r p = (Inr h, r') \<Longrightarrow>
    reg_step e (r, pcs) (r', pcs(t := Opened p h))"
| enter: "pcs t = Opened p h \<Longrightarrow> reg_step e (r, pcs) (register_db r p h, pcs(t := Finished (Inr h)))"
| drops: "live_db r h = Some d \<Longrightarrow> (\<And>t p. pcs t = Opened p h \<Longrightarrow> 1 < od_strong d) \<Longrightarrow>
    reg_step e (r, pcs) (drop_handle r h, pcs)"
| again: "pcs t = Finished q \<Longrightarrow> reg_step e (r, pcs) (r, pcs(t := Idle))"

definition empty_registry :: Registry where
  "empty_registry = \<lparr>rg_entries = [], rg_live = [], rg_next = 0\<rparr>"

inductive reg_reachable :: "DbEnv \<Rightarrow> Registry \<times> (nat \<Rightarrow> Pc) \<Rightarrow> bool" for e where
  start: "reg_reachable e (empty_registry, \<lambda>_. Idle)"
| step: "reg_reachable e s \<Longrightarrow> reg_step e s s' \<Longrightarrow> reg_reachable e s'"

section \<open>Invariant\<close>

text \<open>What the invariant sees of the live databases; \<open>held\<close> are those opened but not yet registered.\<close>

definition live_keys :: "Registry \<Rightarrow> (path \<times> nat) list" where
  "live_keys r = map (\<lambda>d. (od_path d, od_id d)) (rg_live r)"

definition db_inv :: "Registry \<Rightarrow> (path \<times> nat) set \<Rightarrow> bool" where
  "db_inv r held \<longleftrightarrow>
     distinct (map fst (live_keys r)) \<and> distinct (map snd (live_keys r))
   \<and> snd ` (set (live_keys r) \<union> set (rg_entries r)) \<subseteq> {..<rg_next r}
   \<and> (\<forall>d\<in>set (rg_live r). 0 < od_strong d)
   \<and> distinct (map fst (rg_entries r))
   \<and> (\<forall>p q h. (p, h) \<in> set (rg_entries r) \<longrightarrow> (q, h) \<in> set (live_keys r) \<longrightarrow> q = p)
   \<and> held \<subseteq> set (live_keys r) \<and> set (live_keys r) \<subseteq> set (rg_entries r) \<union> held"

lemma live_db_Some: "live_db r h = Some d \<Longrightarrow> d \<in> set (rg_live r) \<and> od_id d = h"
  by (auto simp: live_db_def find_Some_iff)

lemma live_db_None: "live_db r h = None \<longleftrightarrow> h \<notin> snd ` set (live_keys r)"
  by (auto simp: live_db_def find_None_iff live_keys_def image_iff)

lemma live_keys_unique:
  assumes "db_inv r held" "(p, h) \<in> set (live_keys r)" "(q, k) \<in> set (live_keys r)"
  shows "p = q \<longleftrightarrow> h = k"
  using assms unfolding db_inv_def by (metis distinct_map fst_conv inj_onD prod.inject snd_conv)

lemma db_invI:
  assumes "distinct (map fst (live_keys r))" "distinct (map snd (live_keys r))"
    and "snd ` (set (live_keys r) \<union> set (rg_entries r)) \<subseteq> {..<rg_next r}"
    and "\<And>d. d \<in> set (rg_live r) \<Longrightarrow> 0 < od_strong d" "distinct (map fst (rg_entries r))"
    and "\<And>p q h. (p, h) \<in> set (rg_entries r) \<Longrightarrow> (q, h) \<in> set (live_keys r) \<Longrightarrow> q = p"
    and "held \<subseteq> set (live_keys r)" "set (live_keys r) \<subseteq> set (rg_entries r) \<union> held"
  shows "db_inv r held"
  unfolding db_inv_def using assms by blast

lemma db_invD:
  assumes "db_inv r held"
  shows "distinct (map fst (live_keys r))" "distinct (map snd (live_keys r))"
    "snd ` (set (live_keys r) \<union> set (rg_entries r)) \<subseteq> {..<rg_next r}"
    "\<And>d. d \<in> set (rg_live r) \<Longrightarrow> 0 < od_strong d" "distinct (map fst (rg_entries r))"
    "held \<subseteq> set (live_keys r)" "set (live_keys r) \<subseteq> set (rg_entries r) \<union> held"
  using assms unfolding db_inv_def by blast+

lemma live_entry:
  "db_inv r held \<Longrightarrow> (p, h) \<in> set (rg_entries r) \<Longrightarrow> (q, h) \<in> set (live_keys r) \<Longrightarrow> q = p"
  by (simp only: db_inv_def)

lemma bump_keys:
  "live_keys (r\<lparr>rg_live := map (\<lambda>d. if od_id d = h then d\<lparr>od_strong := f d\<rparr> else d) (rg_live r)\<rparr>) = live_keys r"
  by (simp add: live_keys_def)

lemma live_keys_updates [simp]:
  "live_keys (r\<lparr>rg_entries := es\<rparr>) = live_keys r" "live_keys (r\<lparr>rg_next := n\<rparr>) = live_keys r"
  by (simp_all add: live_keys_def)

lemma db_inv_bump:
  assumes "db_inv r held"
  shows "db_inv (r\<lparr>rg_live := map (\<lambda>d. if od_id d = h then d\<lparr>od_strong := od_strong d + 1\<rparr> else d) (rg_live r)\<rparr>) held"
  using assms unfolding db_inv_def bump_keys by (elim conjE, intro conjI) auto

lemma db_inv_retain:
  assumes "db_inv r held"
  shows "db_inv (r\<lparr>rg_entries := filter (\<lambda>(_, h). live_db r h \<noteq> None) (rg_entries r)\<rparr>) held"
proof -
  let ?kept = "filter (\<lambda>(_, h). live_db r h \<noteq> None) (rg_entries r)"
  have "set (live_keys r) \<subseteq> set ?kept \<union> held"
  proof
    fix x assume x: "x \<in> set (live_keys r)"
    then have "live_db r (snd x) \<noteq> None" by (simp add: live_db_None)
    moreover have "x \<in> set (rg_entries r) \<union> held" using x assms unfolding db_inv_def by blast
    ultimately show "x \<in> set ?kept \<union> held" by (auto simp: case_prod_unfold)
  qed
  moreover have "distinct (map fst ?kept)" using assms by (simp add: db_inv_def distinct_map_filter)
  moreover have "set ?kept \<subseteq> set (rg_entries r)" by auto
  ultimately show ?thesis using assms unfolding db_inv_def by simp blast
qed

lemma check_registry_inv:
  assumes "db_inv r held" "check_registry r p = (x, r')"
  shows "db_inv r' held"
  using db_inv_retain [OF assms(1)] db_inv_bump [OF db_inv_retain [OF assms(1)]] assms(2)
  by (simp add: check_registry_def Let_def split: option.splits) auto

lemma open_database_Inr:
  assumes "open_database e r p = (Inr h, r')"
  shows "h = rg_next r"
    "r' = r\<lparr>rg_live := \<lparr>od_id = rg_next r, od_path = p, od_strong = 1\<rparr> # rg_live r, rg_next := rg_next r + 1\<rparr>"
    "dir_lock e \<Longrightarrow> p \<notin> fst ` set (live_keys r)"
proof -
  from assms show "h = rg_next r"
    "r' = r\<lparr>rg_live := \<lparr>od_id = rg_next r, od_path = p, od_strong = 1\<rparr> # rg_live r, rg_next := rg_next r + 1\<rparr>"
    by (auto simp: open_database_def split: sum.splits)
  have "fst ` set (live_keys r) = set (map od_path (rg_live r))" by (force simp: live_keys_def)
  moreover obtain u where "de_open e (set (map od_path (rg_live r))) p = Inr u"
    using assms by (auto simp: open_database_def split: sum.splits)
  ultimately show "p \<notin> fst ` set (live_keys r)" if "dir_lock e"
    using that unfolding dir_lock_def by (metis Inl_Inr_False)
qed

lemma open_database_Inl: "open_database e r p = (Inl m, r') \<Longrightarrow> r' = r"
  by (auto simp: open_database_def split: sum.splits)

lemma open_database_inv:
  assumes "dir_lock e" "db_inv r held" "open_database e r p = (Inr h, r')"
  shows "db_inv r' (insert (p, h) held)"
proof -
  note o = open_database_Inr [OF assms(3)]
  have keys: "live_keys r' = (p, rg_next r) # live_keys r" by (simp add: o(2) live_keys_def)
  have new: "rg_next r \<notin> snd ` set (live_keys r)" "rg_next r \<notin> snd ` set (rg_entries r)"
    using assms(2) unfolding db_inv_def by auto
  have "rg_entries r' = rg_entries r" "rg_next r' = Suc (rg_next r)" by (simp_all add: o(2))
  moreover have "\<forall>d\<in>set (rg_live r'). 0 < od_strong d" using assms(2) by (simp add: o(2) db_inv_def)
  ultimately show ?thesis
    using assms(2) new o(3) [OF assms(1)] unfolding db_inv_def keys o(1)
    by (elim conjE, intro conjI) (auto simp: less_Suc_eq image_iff subset_eq)
qed

lemma register_inv:
  assumes "db_inv r held" "(p, h) \<in> held" "held' \<subseteq> held" "held \<subseteq> insert (p, h) held'"
  shows "db_inv (register_db r p h) held'"
proof -
  let ?r = "register_db r p h"
  have in_keys: "(p, h) \<in> set (live_keys r)" using assms(1,2) unfolding db_inv_def by blast
  have keys: "live_keys ?r = live_keys r" "rg_live ?r = rg_live r" "rg_next ?r = rg_next r"
    by (simp_all add: register_db_def)
  have es: "set (rg_entries ?r) = insert (p, h) {x \<in> set (rg_entries r). fst x \<noteq> p}"
    by (auto simp: register_db_def)
  show ?thesis
  proof (rule db_invI, unfold keys)
    show "distinct (map fst (rg_entries ?r))"
      using db_invD(5) [OF assms(1)] by (auto simp: register_db_def distinct_map_filter)
    show "set (live_keys r) \<subseteq> set (rg_entries ?r) \<union> held'"
    proof
      fix x assume x: "x \<in> set (live_keys r)"
      obtain q k where q: "x = (q, k)" by (cases x)
      show "x \<in> set (rg_entries ?r) \<union> held'"
      proof (cases "q = p")
        case True
        with live_keys_unique [OF assms(1) x [unfolded q] in_keys] show ?thesis by (simp add: q es)
      next
        case False
        moreover have "x \<in> set (rg_entries r) \<union> held" using x db_invD(7) [OF assms(1)] by blast
        ultimately show ?thesis using assms(4) by (auto simp: q es)
      qed
    qed
    show "q = p'" if "(p', k) \<in> set (rg_entries ?r)" "(q, k) \<in> set (live_keys r)" for p' q k
    proof (cases "(p', k) = (p, h)")
      case True
      with live_keys_unique [OF assms(1) that(2) in_keys] show ?thesis by simp
    next
      case False
      with that(1) have "(p', k) \<in> set (rg_entries r)" unfolding es by blast
      from live_entry [OF assms(1) this that(2)] show ?thesis .
    qed
    have "h < rg_next r" using db_invD(3) [OF assms(1)] in_keys by force
    then show "snd ` (set (live_keys r) \<union> set (rg_entries ?r)) \<subseteq> {..<rg_next r}"
      using db_invD(3) [OF assms(1)] by (auto simp: es)
    show "held' \<subseteq> set (live_keys r)" using db_invD(6) [OF assms(1)] assms(3) by blast
  qed (rule db_invD [OF assms(1)], assumption?)+
qed

lemma drop_handle_inv:
  assumes "db_inv r held" "live_db r h = Some d" "\<And>p. (p, h) \<in> held \<Longrightarrow> 1 < od_strong d"
  shows "db_inv (drop_handle r h) held"
proof -
  let ?f = "\<lambda>d. if od_id d = h then d\<lparr>od_strong := od_strong d - 1\<rparr> else d"
  let ?g = "\<lambda>d. (od_path d, od_id d)"
  have keys: "live_keys (drop_handle r h) = map ?g (filter (\<lambda>d. 0 < od_strong (?f d)) (rg_live r))"
    by (simp add: live_keys_def drop_handle_def filter_map comp_def)
  have sub: "set (live_keys (drop_handle r h)) \<subseteq> set (live_keys r)"
    by (simp only: keys) (auto simp: live_keys_def)
  have same: "rg_entries (drop_handle r h) = rg_entries r" "rg_next (drop_handle r h) = rg_next r"
    by (simp_all add: drop_handle_def)
  show ?thesis
  proof (rule db_invI, unfold same)
    show "distinct (map fst (live_keys (drop_handle r h)))" "distinct (map snd (live_keys (drop_handle r h)))"
      using db_invD(1,2) [OF assms(1)] unfolding keys map_map comp_def fst_conv snd_conv
      by (simp_all add: live_keys_def comp_def distinct_map_filter)
    show "held \<subseteq> set (live_keys (drop_handle r h))"
    proof
      fix x assume x: "x \<in> held"
      then have "x \<in> set (live_keys r)" using db_invD(6) [OF assms(1)] by blast
      then obtain c where c: "c \<in> set (rg_live r)" "x = ?g c" by (auto simp: live_keys_def)
      have "od_strong c = od_strong d" if "od_id c = h"
      proof -
        have "distinct (map od_id (rg_live r))" using db_invD(2) [OF assms(1)] by (simp add: live_keys_def comp_def)
        with that c(1) live_db_Some [OF assms(2)] show ?thesis by (metis distinct_map inj_onD)
      qed
      with c assms(3) [of "od_path c"] x db_invD(4) [OF assms(1) c(1)] have "0 < od_strong (?f c)" by auto
      with c show "x \<in> set (live_keys (drop_handle r h))" by (auto simp: keys)
    qed
    show "0 < od_strong c" if "c \<in> set (rg_live (drop_handle r h))" for c using that by (simp add: drop_handle_def)
    show "snd ` (set (live_keys (drop_handle r h)) \<union> set (rg_entries r)) \<subseteq> {..<rg_next r}"
      "set (live_keys (drop_handle r h)) \<subseteq> set (rg_entries r) \<union> held"
      using db_invD(3,7) [OF assms(1)] sub by blast+
    show "q = p" if "(p, k) \<in> set (rg_entries r)" "(q, k) \<in> set (live_keys (drop_handle r h))" for p q k
      using live_entry [OF assms(1) that(1)] that(2) sub by blast
  qed (rule db_invD [OF assms(1)])
qed

text \<open>The databases callers hold between opening and registering.\<close>

definition held_by :: "(nat \<Rightarrow> Pc) \<Rightarrow> (path \<times> nat) set" where
  "held_by pcs = {(p, h). \<exists>t. pcs t = Opened p h}"

lemma held_other: "pcs t \<in> {Idle} \<union> range Checked \<union> range Finished \<Longrightarrow>
    held_by (pcs(t := Checked p)) = held_by pcs \<and> held_by (pcs(t := Finished q)) = held_by pcs
    \<and> held_by (pcs(t := Idle)) = held_by pcs \<and> held_by (pcs(t := Opened p h)) = insert (p, h) (held_by pcs)"
  unfolding held_by_def by (auto split: if_splits) (metis Pc.distinct Pc.inject)+

lemma reg_step_inv:
  assumes "dir_lock e" "reg_step e (r, pcs) (r', pcs')" "db_inv r (held_by pcs)"
  shows "db_inv r' (held_by pcs')"
  using assms(2)
proof cases
  case (enter t p h)
  have "held_by pcs' \<subseteq> held_by pcs" "held_by pcs \<subseteq> insert (p, h) (held_by pcs')" "(p, h) \<in> held_by pcs"
    using enter unfolding held_by_def by (auto split: if_splits) (metis Pc.inject(2) prod.inject)+
  with register_inv [OF assms(3)] enter show ?thesis by blast
next
  case (drops h d)
  then show ?thesis using drop_handle_inv [OF assms(3) drops(3)] by (auto simp: held_by_def)
qed (use assms(1,3) held_other [of pcs] in \<open>auto dest: check_registry_inv open_database_inv open_database_Inl\<close>)

lemma reg_reachable_inv: "reg_reachable e s \<Longrightarrow> dir_lock e \<Longrightarrow> db_inv (fst s) (held_by (snd s))"
proof (induction rule: reg_reachable.induct)
  case start
  show ?case by (simp add: db_inv_def empty_registry_def live_keys_def held_by_def)
next
  case (step s s')
  then show ?case using reg_step_inv [of e "fst s" "snd s" "fst s'" "snd s'"] by simp
qed

section \<open>Reuse\<close>

text \<open>A live database that nobody is still registering is found by its path.\<close>

lemma check_finds_live:
  assumes "db_inv r held" "(p, h) \<in> set (live_keys r)" "(p, h) \<notin> held"
  shows "fst (check_registry r p) = Some h"
proof -
  let ?kept = "filter (\<lambda>(_, h). live_db r h \<noteq> None) (rg_entries r)"
  have "(p, h) \<in> set (rg_entries r)" using db_invD(7) [OF assms(1)] assms(2,3) by blast
  moreover have "live_db r h \<noteq> None" using assms(2) unfolding live_db_None by force
  moreover have "distinct (map fst ?kept)" using db_invD(5) [OF assms(1)] by (simp add: distinct_map_filter)
  ultimately have "map_of ?kept p = Some h" by (intro map_of_is_SomeI) auto
  then show ?thesis by (simp add: check_registry_def Let_def)
qed

text \<open>A concrete environment and the registry after one open.\<close>

definition mem_dbs :: DbEnv where
  "mem_dbs = \<lparr>de_cwd = Inr (True, [''work'']), de_create_dir_all = (\<lambda>_. Inr ()),
     de_open = (\<lambda>live p. if p \<in> live then Inl ''LOCK: already held'' else Inr ())\<rparr>"

lemma mem_dbs_lock: "dir_lock mem_dbs"
  by (simp add: dir_lock_def mem_dbs_def)

definition one_open :: "path \<Rightarrow> Registry" where
  "one_open p = \<lparr>rg_entries = [(p, 0)], rg_live = [\<lparr>od_id = 0, od_path = p, od_strong = 1\<rparr>], rg_next = 1\<rparr>"

lemma check_empty: "check_registry empty_registry p = (None, empty_registry)"
  by (simp add: check_registry_def empty_registry_def)

text \<open>Two callers that look the same path up before either has opened it.\<close>

lemma race_reachable:
  assumes "dir_lock e" "normalize_path e dir = Inr p" "\<And>q. de_create_dir_all e q = Inr ()" "de_open e {} p = Inr ()"
  obtains m where "reg_reachable e (one_open p, (\<lambda>_. Idle)(0 := Finished (Inr 0), 1 := Finished (Inl m)))"
proof -
  let ?r = "empty_registry\<lparr>rg_live := [\<lparr>od_id = 0, od_path = p, od_strong = 1\<rparr>], rg_next := 1\<rparr>"
  have "reg_reachable e (empty_registry, (\<lambda>_. Idle)(0 := Checked p))"
    by (rule reg_reachable.step [OF reg_reachable.start reg_step.miss [OF _ assms(2) check_empty]]) simp
  then have "reg_reachable e (empty_registry, (\<lambda>_. Idle)(0 := Checked p, 1 := Checked p))"
    by (rule reg_reachable.step [OF _ reg_step.miss [OF _ assms(2) check_empty]]) simp
  moreover have o: "open_database e empty_registry p = (Inr 0, ?r)"
    using assms(3,4) by (simp add: open_database_def empty_registry_def)
  ultimately have two: "reg_reachable e (?r, (\<lambda>_. Idle)(0 := Checked p, 1 := Checked p, 0 := Opened p 0))"
    by (rule_tac reg_reachable.step [OF _ reg_step.opened [OF _ o]]) simp_all
  obtain k where "de_open e {p} p = Inl k" using assms(1) unfolding dir_lock_def by blast
  then have "open_database e ?r p = (Inl (Backend (''Failed to open RocksDB for kanari: '' @ k)), ?r)"
    using assms(3) by (simp add: open_database_def)
  then obtain m where m: "open_database e ?r p = (Inl m, ?r)" by blast
  have "reg_reachable e (?r, (\<lambda>_. Idle)(0 := Opened p 0, 1 := Finished (Inl m)))"
    using reg_reachable.step [OF two reg_step.fail [where t = 1, OF _ m]] by (simp add: fun_upd_twist)
  then have "reg_reachable e (register_db ?r p 0, (\<lambda>_. Idle)(0 := Opened p 0, 1 := Finished (Inl m), 0 := Finished (Inr 0)))"
    by (rule reg_reachable.step [OF _ reg_step.enter]) simp
  moreover have "register_db ?r p 0 = one_open p" by (simp add: register_db_def one_open_def empty_registry_def)
  ultimately show thesis by (intro that [of m]) (simp add: fun_upd_twist)
qed

text \<open>
  A node holds two handles: its store and its tree. The database it opened stays open when one of them is dropped and is
  closed by the second drop, after which its path can be opened again.
\<close>

lemma node_handles:
  assumes "db_inv r held" "store_open e r dir = (Inr st, r1)" "live_db r (ch_db st) = None" "shared_db st r1 = (h, r2)"
  shows "live_db (drop_handle r2 h) h \<noteq> None \<and> live_db (drop_handle (drop_handle r2 h) h) h = None"
proof -
  from assms(2) obtain k where o: "open_or_get_db e r dir = (Inr k, r1)" and st: "st = \<lparr>ch_db = k\<rparr>"
    by (auto simp: store_open_def split: prod.splits sum.splits)
  from assms(4) st have h: "h = k" by (simp add: shared_db_def)
  from o obtain p where p: "normalize_path e dir = Inr p" by (auto simp: open_or_get_db_def split: sum.splits)
  obtain x r0 where c: "check_registry r p = (x, r0)" by (cases "check_registry r p")
  have "x \<noteq> Some k"
  proof
    assume "x = Some k"
    with c have "(p, k) \<in> set (filter (\<lambda>(_, h). live_db r h \<noteq> None) (rg_entries r))"
      by (auto simp: check_registry_def Let_def dest!: map_of_SomeD split: option.splits)
    with assms(3) st show False by simp
  qed
  with o p c have x: "x = None" by (auto simp: open_or_get_db_def split: option.splits)
  with c have r0: "rg_live r0 = rg_live r" "rg_next r0 = rg_next r"
    by (auto simp: check_registry_def Let_def split: option.splits)
  from o p c x obtain r' where "open_database e r0 p = (Inr k, r')" "r1 = register_db r' p k"
    by (auto simp: open_or_get_db_def split: prod.splits sum.splits)
  with open_database_Inr [of e r0 p k r'] r0
  have k: "k = rg_next r" and live: "rg_live r1 = \<lparr>od_id = k, od_path = p, od_strong = 1\<rparr> # rg_live r"
    by (simp_all add: register_db_def)
  have other: "od_id d \<noteq> k" if "d \<in> set (rg_live r)" for d
    using that db_invD(3) [OF assms(1)] k by (force simp: live_keys_def)
  then have none: "find (\<lambda>d. od_id d = k) (filter P (map (\<lambda>d. if od_id d = k then f d else d) (rg_live r))) = None" for P f
    by (auto simp: find_None_iff)
  have keep: "map (\<lambda>d. if od_id d = k then f d else d) (rg_live r) = rg_live r" for f
    using other by (auto intro: map_idI)
  have "rg_live r2 = \<lparr>od_id = k, od_path = p, od_strong = 2\<rparr> # rg_live r"
    using assms(4) st live keep by (auto simp: shared_db_def)
  then show ?thesis
    using none other by (auto simp: drop_handle_def live_db_def h keep find_None_iff)
qed

section \<open>Properties\<close>

text \<open>
  C22. Reuse, whatever the interleaving: in every state that concurrent opens and drops can reach, an open for the path
  of a live database that no caller is still about to register hands out this database, opens no second one, and
  takes one reference on it and changes no other database, so that it outlives the next drop of a handle.
\<close>

theorem finished_open_is_reused:
  assumes "dir_lock e" "reg_reachable e (r, pcs)" "d \<in> set (rg_live r)"
    and "\<And>t. pcs t \<noteq> Opened (od_path d) (od_id d)"
    and "normalize_path e dir = Inr (od_path d)"
  shows "\<exists>r'. open_or_get_db e r dir = (Inr (od_id d), r') \<and> rg_next r' = rg_next r
    \<and> rg_live r' = map (\<lambda>c. if c = d then c\<lparr>od_strong := od_strong c + 1\<rparr> else c) (rg_live r)
    \<and> live_db (drop_handle r' (od_id d)) (od_id d) = Some d"
proof -
  have inv: "db_inv r (held_by pcs)" using reg_reachable_inv [OF assms(2,1)] by simp
  have ids: "c = d \<longleftrightarrow> od_id c = od_id d" if "c \<in> set (rg_live r)" for c
    using db_invD(2) [OF inv] assms(3) that by (auto simp: live_keys_def comp_def distinct_map inj_on_def)
  let ?up = "\<lambda>c. if od_id c = od_id d then c\<lparr>od_strong := od_strong c + 1\<rparr> else c"
  have "(od_path d, od_id d) \<in> set (live_keys r)" using assms(3) by (simp add: live_keys_def)
  moreover have "(od_path d, od_id d) \<notin> held_by pcs" using assms(4) by (auto simp: held_by_def)
  ultimately have "fst (check_registry r (od_path d)) = Some (od_id d)" by (rule check_finds_live [OF inv])
  then obtain r' where r': "check_registry r (od_path d) = (Some (od_id d), r')"
    by (cases "check_registry r (od_path d)") auto
  then have live: "rg_live r' = map ?up (rg_live r)" "rg_next r' = rg_next r"
    by (auto simp: check_registry_def Let_def split: option.splits)
  have "map (\<lambda>c. if od_id c = od_id d then c\<lparr>od_strong := od_strong c - 1\<rparr> else c) (rg_live r') = rg_live r"
    by (simp add: live comp_def map_idI)
  then have "rg_live (drop_handle r' (od_id d)) = rg_live r"
    using db_invD(4) [OF inv] by (simp add: drop_handle_def)
  moreover have "live_db r (od_id d) = Some d"
  proof (cases "live_db r (od_id d)")
    case None
    then show ?thesis using assms(3) unfolding live_db_None by (force simp: live_keys_def)
  next
    case (Some c)
    with live_db_Some [OF Some] ids [of c] show ?thesis by simp
  qed
  ultimately have "live_db (drop_handle r' (od_id d)) (od_id d) = Some d" by (simp add: live_db_def)
  moreover have "map ?up (rg_live r) = map (\<lambda>c. if c = d then c\<lparr>od_strong := od_strong c + 1\<rparr> else c) (rg_live r)"
    using ids by auto
  ultimately show ?thesis using r' live assms(5) by (simp add: open_or_get_db_def)
qed

theorem finished_open_is_reused_witness:
  "\<exists>r'. open_or_get_db mem_dbs (one_open (True, [''work'', ''db''])) (False, [''db'']) = (Inr 0, r')
     \<and> rg_live r' = [\<lparr>od_id = 0, od_path = (True, [''work'', ''db'']), od_strong = 2\<rparr>]"
proof -
  let ?p = "(True, [''work'', ''db''])" and ?d = "\<lparr>od_id = 0, od_path = (True, [''work'', ''db'']), od_strong = 1\<rparr>"
  have n: "normalize_path mem_dbs (False, [''db'']) = Inr (od_path ?d)"
    by (simp add: normalize_path_def is_relative_def mem_dbs_def join_path_def)
  have np: "normalize_path mem_dbs (False, [''db'']) = Inr ?p" using n by simp
  obtain m where m: "reg_reachable mem_dbs (one_open ?p, (\<lambda>_. Idle)(0 := Finished (Inr 0), 1 := Finished (Inl m)))"
    by (rule race_reachable [OF mem_dbs_lock np]) (simp_all add: mem_dbs_def)
  have d: "?d \<in> set (rg_live (one_open ?p))" by (simp add: one_open_def)
  have "((\<lambda>_. Idle)(0 := Finished (Inr 0), 1 := Finished (Inl m))) t \<noteq> Opened (od_path ?d) (od_id ?d)" for t by simp
  from finished_open_is_reused [OF mem_dbs_lock m d this n] show ?thesis by (auto simp: one_open_def)
qed

text \<open>
  Between the two critical sections the promise of reuse does not hold: two callers can look up the same path,
  both find nothing, and the one that opens second gets an error although the first one's database is open and
  is registered a moment later.
\<close>

theorem concurrent_open_can_fail:
  assumes "dir_lock e" "normalize_path e dir = Inr p" "\<And>q. de_create_dir_all e q = Inr ()" "de_open e {} p = Inr ()"
  shows "\<exists>m r pcs. reg_reachable e (r, pcs) \<and> pcs 0 = Finished (Inr 0) \<and> pcs 1 = Finished (Inl m)
    \<and> (p, 0) \<in> set (rg_entries r)"
proof -
  obtain m where m: "reg_reachable e (one_open p, (\<lambda>_. Idle)(0 := Finished (Inr 0), 1 := Finished (Inl m)))"
    using assms by (rule race_reachable)
  show ?thesis by (intro exI conjI, rule m) (simp_all add: one_open_def)
qed

theorem concurrent_open_can_fail_witness:
  "\<exists>m r pcs. reg_reachable mem_dbs (r, pcs) \<and> pcs 0 = Finished (Inr 0) \<and> pcs 1 = Finished (Inl m)
    \<and> ((True, [''work'', ''db'']), 0) \<in> set (rg_entries r)"
  by (rule concurrent_open_can_fail [OF mem_dbs_lock, of "(False, [''db''])"])
    (simp_all add: mem_dbs_def normalize_path_def is_relative_def join_path_def)

end
