(* ===== verification/Fork.thy ===== *)
theory Fork
  imports Rpc
begin

text \<open>
  The checkpoint fork (\<^verbatim>\<open>crates/kanari-node/src/fork.rs\<close>): parsing of slot references, one JSON-RPC
  call to the remote endpoint and the import of listed balances, code and slots. The endpoint is an argument
  of the model; it sees the requests sent before, so that its answers may change over time.
\<close>

section \<open>Slot references\<close>

record SlotRef =
  sf_address :: Address
  sf_slot :: U256

text \<open>\<open>split_once(':')\<close>: before and after the first colon.\<close>

definition split_once :: "char \<Rightarrow> string \<Rightarrow> (string \<times> string) option" where
  "split_once c s =
     (if c \<in> set s then Some (takeWhile (\<lambda>d. d \<noteq> c) s, tl (dropWhile (\<lambda>d. d \<noteq> c) s)) else None)"

definition parse_slot :: "TextOps \<Rightarrow> string \<Rightarrow> string + SlotRef" where
  "parse_slot tx s =
     (case split_once (CHR '':'') s of
        None \<Rightarrow> Inl (''bad --slot '' @ [CHR 0x27] @ s @ [CHR 0x27] @ '': want 0xaddress:0xslot'')
      | Some (addr, slot) \<Rightarrow>
          res_bind (ok_or (''bad --slot address '' @ [CHR 0x27] @ addr @ [CHR 0x27]) (of_address tx (trim addr))) (\<lambda>address.
          res_bind (ok_or (''bad --slot slot '' @ [CHR 0x27] @ slot @ [CHR 0x27]) (of_u256 tx (trim_0x (trim slot)))) (\<lambda>sl.
            Inr \<lparr>sf_address = address, sf_slot = sl\<rparr>)))"

section \<open>Calls to the remote endpoint\<close>

record ForkedGenesis =
  fg_chain_id :: u64
  fg_alloc :: "(Address \<times> U256) list"
  fg_code :: "(Address \<times> bytes) list"
  fg_storage :: "(Address \<times> U256 \<times> U256) list"

datatype HttpReply = Unreachable string | NotJson string | Body Json

record ForkEnv =
  fe_text :: TextOps
  fe_show :: "Json \<Rightarrow> string"
  fe_remote :: "string \<Rightarrow> Json list \<Rightarrow> Json \<Rightarrow> HttpReply"

definition request_body :: "string \<Rightarrow> Json list \<Rightarrow> Json" where
  "request_body m params =
     JObj [(''jsonrpc'', JStr ''2.0''), (''id'', JInt 1), (''method'', JStr m), (''params'', JArr params)]"

type_synonym 'a fetched = "(string + 'a) \<times> Json list"

definition fetch_bind :: "'a fetched \<Rightarrow> ('a \<Rightarrow> Json list \<Rightarrow> 'b fetched) \<Rightarrow> 'b fetched" where
  "fetch_bind r f = (case r of (Inl e, sent) \<Rightarrow> (Inl e, sent) | (Inr v, sent) \<Rightarrow> f v sent)"

definition rpc_call :: "ForkEnv \<Rightarrow> string \<Rightarrow> string \<Rightarrow> Json list \<Rightarrow> Json list \<Rightarrow> Json fetched" where
  "rpc_call e url m params sent =
     (let body = request_body m params in
      ((case fe_remote e url sent body of
          Unreachable x \<Rightarrow> Inl (url @ '' unreachable: '' @ x)
        | NotJson x \<Rightarrow> Inl (url @ '' returned non-JSON: '' @ x)
        | Body resp \<Rightarrow>
            (case jfield resp ''error'' of
               Some x \<Rightarrow> Inl (''remote '' @ m @ '' failed: '' @ fe_show e x)
             | None \<Rightarrow> ok_or (''remote '' @ m @ '' returned no result'') (jfield resp ''result''))),
       sent @ [body]))"

definition parse_hex_u64 :: "Json \<Rightarrow> string + u64" where
  "parse_hex_u64 v =
     res_bind (ok_or ''want 0x quantity'' (as_str v)) (\<lambda>s.
       ok_or ''invalid 0x quantity'' (map_option of_nat (from_str_radix16 (2 ^ 64 - 1) (trim_0x s))))"

definition parse_hex_u256 :: "TextOps \<Rightarrow> Json \<Rightarrow> string + U256" where
  "parse_hex_u256 tx v =
     res_bind (ok_or ''want 0x quantity'' (as_str v)) (\<lambda>s.
       ok_or ''invalid 0x quantity'' (of_u256 tx (trim_0x s)))"

section \<open>The import\<close>

fun fetch_accounts ::
  "ForkEnv \<Rightarrow> string \<Rightarrow> string \<Rightarrow> Address list \<Rightarrow> (Address \<times> U256) list \<Rightarrow> (Address \<times> bytes) list
     \<Rightarrow> Json list \<Rightarrow> ((Address \<times> U256) list \<times> (Address \<times> bytes) list) fetched" where
  "fetch_accounts e url block [] alloc code sent = (Inr (alloc, code), sent)"
| "fetch_accounts e url block (addr # accounts) alloc code sent =
     (let who = JStr (to_address (fe_text e) addr) in
      fetch_bind (rpc_call e url ''eth_getBalance'' [who, JStr block] sent) (\<lambda>v sent.
      fetch_bind (parse_hex_u256 (fe_text e) v, sent) (\<lambda>balance sent.
      fetch_bind (rpc_call e url ''eth_getCode'' [who, JStr block] sent) (\<lambda>v sent.
      fetch_bind (ok_or ''eth_getCode must return 0x hex'' (as_str v), sent) (\<lambda>code_hex sent.
      fetch_bind (ok_or (''bad code hex for '' @ to_address (fe_text e) addr) (of_bytes (fe_text e) code_hex), sent) (\<lambda>bs sent.
        fetch_accounts e url block accounts (alloc @ [(addr, balance)])
          (if bs = [] then code else code @ [(addr, bs)]) sent))))))"

fun fetch_slots ::
  "ForkEnv \<Rightarrow> string \<Rightarrow> string \<Rightarrow> SlotRef list \<Rightarrow> (Address \<times> U256 \<times> U256) list \<Rightarrow> Json list
     \<Rightarrow> (Address \<times> U256 \<times> U256) list fetched" where
  "fetch_slots e url block [] storage sent = (Inr storage, sent)"
| "fetch_slots e url block (slot # slots) storage sent =
     fetch_bind (rpc_call e url ''eth_getStorageAt'' [JStr (to_address (fe_text e) (sf_address slot)),
         JStr (''0x'' @ lower_hex (unat (sf_slot slot))), JStr block] sent) (\<lambda>v sent.
     fetch_bind (parse_hex_u256 (fe_text e) v, sent) (\<lambda>value sent.
       fetch_slots e url block slots (storage @ [(sf_address slot, sf_slot slot, value)]) sent))"

definition block_arg_ok :: "string \<Rightarrow> bool" where
  "block_arg_ok block \<longleftrightarrow> block = ''latest''
     \<or> (take 2 block = ''0x'' \<and> (case parse_hex_u64 (JStr block) of Inr _ \<Rightarrow> True | Inl _ \<Rightarrow> False))"

definition fetch_fork_genesis ::
  "ForkEnv \<Rightarrow> string \<Rightarrow> string \<Rightarrow> Address list \<Rightarrow> SlotRef list \<Rightarrow> ForkedGenesis fetched" where
  "fetch_fork_genesis e url block accounts slots =
     (if \<not> block_arg_ok block
      then (Inl (''bad --block '' @ [CHR 0x27] @ block @ [CHR 0x27] @ '': want '' @ [CHR 0x27] @ ''latest'' @ [CHR 0x27]
              @ '' or a 0x block number''), [])
      else
        fetch_bind (rpc_call e url ''eth_chainId'' [] []) (\<lambda>v sent.
        fetch_bind (parse_hex_u64 v, sent) (\<lambda>chain_id sent.
        fetch_bind (fetch_accounts e url block accounts [] [] sent) (\<lambda>(alloc, code) sent.
        fetch_bind (fetch_slots e url block slots [] sent) (\<lambda>storage sent.
          (Inr \<lparr>fg_chain_id = chain_id, fg_alloc = alloc, fg_code = code, fg_storage = storage\<rparr>, sent))))))"

section \<open>What the import relies on\<close>

text \<open>\<open>U256::from_str_radix(_, 16)\<close> reads plain and zero-padded lowercase hexadecimal.\<close>

definition u256_text_ok :: "TextOps \<Rightarrow> bool" where
  "u256_text_ok tx \<longleftrightarrow> (\<forall>v. of_u256 tx (lower_hex (unat v)) = Some v)
     \<and> (\<forall>v. of_u256 tx (pad_zero 64 (lower_hex (unat v))) = Some v)"

text \<open>A remote state at the block, and an endpoint that answers from it as the Ethereum JSON-RPC
  specification prescribes, whatever was asked before.\<close>

record RemoteState =
  rs_chain_id :: u64
  rs_balance :: "Address \<Rightarrow> U256"
  rs_code :: "Address \<Rightarrow> bytes"
  rs_storage :: "Address \<Rightarrow> U256 \<Rightarrow> U256"

definition result_body :: "string \<Rightarrow> HttpReply" where
  "result_body s = Body (JObj [(''jsonrpc'', JStr ''2.0''), (''id'', JInt 1), (''result'', JStr s)])"

definition serves :: "ForkEnv \<Rightarrow> string \<Rightarrow> string \<Rightarrow> RemoteState \<Rightarrow> bool" where
  "serves e url block st \<longleftrightarrow>
     (\<forall>sent. fe_remote e url sent (request_body ''eth_chainId'' []) = result_body (quantity_u64 (rs_chain_id st)))
   \<and> (\<forall>sent a. fe_remote e url sent (request_body ''eth_getBalance'' [JStr (to_address (fe_text e) a), JStr block])
         = result_body (quantity_u256 (rs_balance st a)))
   \<and> (\<forall>sent a. fe_remote e url sent (request_body ''eth_getCode'' [JStr (to_address (fe_text e) a), JStr block])
         = result_body (hex_prefixed (rs_code st a)))
   \<and> (\<forall>sent a s. fe_remote e url sent (request_body ''eth_getStorageAt''
           [JStr (to_address (fe_text e) a), JStr (''0x'' @ lower_hex (unat s)), JStr block])
         = result_body (bytes32_hex (rs_storage st a s)))"

section \<open>Lemmas\<close>

lemma fetch_bind_simps [simp]:
  "fetch_bind (Inl e, sent) f = (Inl e, sent)" "fetch_bind (Inr v, sent) f = f v sent"
  by (simp_all add: fetch_bind_def)

lemma rpc_call_result:
  "fe_remote e url sent (request_body m params) = result_body s \<Longrightarrow>
   rpc_call e url m params sent = (Inr (JStr s), sent @ [request_body m params])"
  by (simp add: rpc_call_def result_body_def jfield_def as_object_def jget_def)

lemma trim_0x_prefixed: "CHR ''x'' \<notin> set s \<Longrightarrow> trim_0x (''0x'' @ s) = s"
  by (simp add: trim_0x_id)

lemma pad_zero_no_x: "CHR ''x'' \<notin> set (pad_zero k (lower_hex n))"
  by (simp add: pad_zero_def lower_hex_no_x)

lemma parse_answers:
  assumes "u256_text_ok tx"
  shows "parse_hex_u64 (JStr (quantity_u64 c)) = Inr c"
    "parse_hex_u256 tx (JStr (quantity_u256 v)) = Inr v" "parse_hex_u256 tx (JStr (bytes32_hex v)) = Inr v"
proof -
  have "unat c \<le> 2 ^ 64 - 1" using unsigned_less [of c, where ?'a = nat] by simp
  then have "from_str_radix16 (2 ^ 64 - 1) (lower_hex (unat c)) = Some (unat c)" by (rule from_str_radix16_lower_hex)
  moreover have "trim_0x (quantity_u64 c) = lower_hex (unat c)"
    unfolding quantity_u64_def by (rule trim_0x_prefixed [OF lower_hex_no_x])
  ultimately show "parse_hex_u64 (JStr (quantity_u64 c)) = Inr c" by (simp add: parse_hex_u64_def as_str_def)
  show "parse_hex_u256 tx (JStr (quantity_u256 v)) = Inr v" "parse_hex_u256 tx (JStr (bytes32_hex v)) = Inr v"
    using assms unfolding parse_hex_u256_def quantity_u256_def bytes32_hex_def u256_text_ok_def
    by (simp_all only: trim_0x_prefixed [OF lower_hex_no_x] trim_0x_prefixed [OF pad_zero_no_x] as_str_def
        ok_or_simps res_bind_simps Json.case)
qed

definition account_requests :: "ForkEnv \<Rightarrow> string \<Rightarrow> Address \<Rightarrow> Json list" where
  "account_requests e block a =
     [request_body ''eth_getBalance'' [JStr (to_address (fe_text e) a), JStr block],
      request_body ''eth_getCode'' [JStr (to_address (fe_text e) a), JStr block]]"

definition slot_request :: "ForkEnv \<Rightarrow> string \<Rightarrow> SlotRef \<Rightarrow> Json" where
  "slot_request e block s = request_body ''eth_getStorageAt'' [JStr (to_address (fe_text e) (sf_address s)),
     JStr (''0x'' @ lower_hex (unat (sf_slot s))), JStr block]"

lemma fetch_accounts_serves:
  assumes "serves e url block st" "text_ok (fe_text e)" "u256_text_ok (fe_text e)"
  shows "fetch_accounts e url block accounts alloc code sent =
    (Inr (alloc @ map (\<lambda>a. (a, rs_balance st a)) accounts,
          code @ map (\<lambda>a. (a, rs_code st a)) (filter (\<lambda>a. rs_code st a \<noteq> []) accounts)),
     sent @ concat (map (account_requests e block) accounts))"
proof (induction accounts arbitrary: alloc code sent)
  case (Cons a accounts)
  let ?who = "JStr (to_address (fe_text e) a)"
  have r: "rpc_call e url ''eth_getBalance'' [?who, JStr block] sent
      = (Inr (JStr (quantity_u256 (rs_balance st a))), sent @ [request_body ''eth_getBalance'' [?who, JStr block]])"
    "rpc_call e url ''eth_getCode'' [?who, JStr block] sent
      = (Inr (JStr (hex_prefixed (rs_code st a))), sent @ [request_body ''eth_getCode'' [?who, JStr block]])" for sent
    using assms(1) unfolding serves_def by (simp_all add: rpc_call_result)
  have "of_bytes (fe_text e) (hex_prefixed (rs_code st a)) = Some (rs_code st a)"
    using assms(2) by (simp add: text_ok_def)
  then show ?case by (simp add: Let_def r parse_answers [OF assms(3)] as_str_def Cons.IH account_requests_def)
qed simp

lemma fetch_slots_serves:
  assumes "serves e url block st" "u256_text_ok (fe_text e)"
  shows "fetch_slots e url block slots storage sent =
    (Inr (storage @ map (\<lambda>s. (sf_address s, sf_slot s, rs_storage st (sf_address s) (sf_slot s))) slots),
     sent @ map (slot_request e block) slots)"
proof (induction slots arbitrary: storage sent)
  case (Cons s slots)
  have "rpc_call e url ''eth_getStorageAt'' [JStr (to_address (fe_text e) (sf_address s)),
      JStr (''0x'' @ lower_hex (unat (sf_slot s))), JStr block] sent
    = (Inr (JStr (bytes32_hex (rs_storage st (sf_address s) (sf_slot s)))), sent @ [slot_request e block s])"
    using assms(1) unfolding serves_def slot_request_def by (intro rpc_call_result) blast
  then show ?case unfolding fetch_slots.simps by (simp add: parse_answers [OF assms(2)] Cons.IH)
qed simp

section \<open>A concrete endpoint\<close>

lemma radix16_zeros: "radix16_digits maxv 0 (replicate n (CHR ''0'') @ s) = radix16_digits maxv 0 s"
  by (induction n) (simp_all add: to_digit16_def)

lemma mem_u256_text_ok: "u256_text_ok mem_text"
proof -
  have le: "unat v \<le> 2 ^ 256 - 1" for v :: U256 using unsigned_less [of v, where ?'a = nat] by simp
  have "from_str_radix16 (2 ^ 256 - 1) (pad_zero 64 (lower_hex (unat v))) = Some (unat v)" for v :: U256
  proof (cases "64 - length (lower_hex (unat v))")
    case 0
    then show ?thesis by (simp only: pad_zero_def replicate_0 append_Nil from_str_radix16_lower_hex [OF le])
  next
    case (Suc k)
    then have "pad_zero 64 (lower_hex (unat v)) = CHR ''0'' # replicate k (CHR ''0'') @ lower_hex (unat v)"
      by (simp add: pad_zero_def)
    moreover obtain d ds where "replicate k (CHR ''0'') @ lower_hex (unat v) = d # ds"
      using lower_hex_nonempty by (cases "replicate k (CHR ''0'') @ lower_hex (unat v)") auto
    moreover have "radix16_digits (2 ^ 256 - 1) 0 (replicate (Suc k) (CHR ''0'') @ lower_hex (unat v)) = Some (unat v)"
      unfolding radix16_zeros by (rule radix16_lower_hex [OF le])
    ultimately show ?thesis unfolding from_str_radix16_def by simp
  qed
  then show ?thesis
    unfolding u256_text_ok_def mem_text_def using from_str_radix16_lower_hex [OF le] by simp
qed

definition sample_remote :: RemoteState where
  "sample_remote = \<lparr>rs_chain_id = 1, rs_balance = (\<lambda>a. if a = 7 then 1000 else 0),
     rs_code = (\<lambda>a. if a = 8 then [0x60, 0x00] else []), rs_storage = (\<lambda>a s. if a = 8 then s + 1 else 0)\<rparr>"

text \<open>The endpoint reads the method and the parameters of a request back.\<close>

definition sample_answer :: "RemoteState \<Rightarrow> Json \<Rightarrow> HttpReply" where
  "sample_answer st body =
     (case (Option.bind (jfield body ''method'') as_str, map_option params_arr (jfield body ''params'')) of
        (Some m, Some ps) \<Rightarrow>
          (if m = ''eth_chainId'' then result_body (quantity_u64 (rs_chain_id st))
           else case Option.bind (get_at ps 0) as_str of None \<Rightarrow> Unreachable ''bad request'' | Some who \<Rightarrow>
             (case of_address mem_text who of None \<Rightarrow> Unreachable ''bad request'' | Some a \<Rightarrow>
                (if m = ''eth_getBalance'' then result_body (quantity_u256 (rs_balance st a))
                 else if m = ''eth_getCode'' then result_body (hex_prefixed (rs_code st a))
                 else case Option.bind (get_at ps 1) as_str of None \<Rightarrow> Unreachable ''bad request'' | Some s \<Rightarrow>
                   (case of_u256 mem_text (trim_0x s) of None \<Rightarrow> Unreachable ''bad request''
                    | Some k \<Rightarrow> result_body (bytes32_hex (rs_storage st a k))))))
      | _ \<Rightarrow> Unreachable ''bad request'')"

definition sample_fork :: ForkEnv where
  "sample_fork = \<lparr>fe_text = mem_text, fe_show = (\<lambda>_. []), fe_remote = (\<lambda>_ _. sample_answer sample_remote)\<rparr>"

lemma sample_serves: "serves sample_fork url block sample_remote"
proof -
  have "of_address mem_text (to_address mem_text a) = Some a" for a using mem_text_ok by (simp add: text_ok_def)
  moreover have "of_u256 mem_text (trim_0x (''0x'' @ lower_hex (unat s))) = Some s" for s
    using mem_u256_text_ok unfolding trim_0x_prefixed [OF lower_hex_no_x] u256_text_ok_def by blast
  ultimately show ?thesis
    by (simp add: serves_def sample_fork_def sample_answer_def request_body_def jfield_def as_object_def jget_def
        as_str_def params_arr_def as_array_def get_at_def)
qed

section \<open>Properties\<close>

text \<open>
  C25. The import is exact: from an endpoint that answers from one state of the remote chain, the fork gets its
  chain id, the balance of every listed account in the order listed, the code of exactly those listed accounts
  that have code, and the value of every listed slot; and it sends exactly one request for the chain id, two
  per account and one per slot, in that order.
\<close>

theorem fork_import_exact:
  assumes "serves e url block st" "text_ok (fe_text e)" "u256_text_ok (fe_text e)" "block_arg_ok block"
  shows "fetch_fork_genesis e url block accounts slots =
    (Inr \<lparr>fg_chain_id = rs_chain_id st, fg_alloc = map (\<lambda>a. (a, rs_balance st a)) accounts,
          fg_code = map (\<lambda>a. (a, rs_code st a)) (filter (\<lambda>a. rs_code st a \<noteq> []) accounts),
          fg_storage = map (\<lambda>s. (sf_address s, sf_slot s, rs_storage st (sf_address s) (sf_slot s))) slots\<rparr>,
     request_body ''eth_chainId'' [] # concat (map (account_requests e block) accounts) @ map (slot_request e block) slots)"
proof -
  have "rpc_call e url ''eth_chainId'' [] [] = (Inr (JStr (quantity_u64 (rs_chain_id st))), [request_body ''eth_chainId'' []])"
    using assms(1) unfolding serves_def by (simp add: rpc_call_result)
  then show ?thesis
    by (simp add: fetch_fork_genesis_def assms(4) parse_answers [OF assms(3)] fetch_accounts_serves [OF assms(1-3)]
        fetch_slots_serves [OF assms(1,3)])
qed

theorem fork_import_exact_witness:
  "\<exists>g sent. fetch_fork_genesis sample_fork ''http://localhost'' ''latest'' [7, 8] [\<lparr>sf_address = 8, sf_slot = 2\<rparr>] = (Inr g, sent)
     \<and> fg_alloc g = [(7, 1000), (8, 0)] \<and> fg_code g = [(8, [0x60, 0x00])] \<and> fg_storage g = [(8, 2, 3)]
     \<and> length sent = 6"
proof -
  have ok: "text_ok (fe_text sample_fork)" "u256_text_ok (fe_text sample_fork)" "block_arg_ok ''latest''"
    by (simp_all add: sample_fork_def mem_text_ok mem_u256_text_ok block_arg_ok_def)
  show ?thesis
    by (simp add: fork_import_exact [OF sample_serves ok]) (simp add: sample_remote_def account_requests_def)
qed

end
