(* ===== verification/Validator.thy ===== *)
theory Validator
  imports Node "HOL-Library.Multiset" "HOL-Library.Sublist"
begin

text \<open>
  Consensus ordering and the commit-execution loop (\<^verbatim>\<open>crates/consensus/src/ordering.rs\<close> and
  \<^verbatim>\<open>validator.rs\<close>): flattening of committed sub-DAGs, the deterministic commit timestamp, the capped
  queue of pending payloads and its sweep to fixation over \<open>seal_committed\<close>. The DAG itself is a third-party
  crate; a committed sub-DAG is what the loop reads of it.
\<close>

section \<open>Committed sub-DAGs\<close>

record 'r DagBlock =
  dg_reference :: 'r
  dg_timestamp :: u64
  dg_transactions :: "bytes list"

record 'r CommittedSubDag =
  sd_anchor :: 'r
  sd_blocks :: "'r DagBlock list"

definition ordered_payloads :: "'r CommittedSubDag list \<Rightarrow> bytes list" where
  "ordered_payloads commits = concat (map dg_transactions (concat (map sd_blocks commits)))"

definition commit_timestamp :: "'r CommittedSubDag \<Rightarrow> u64" where
  "commit_timestamp commit =
     (case find (\<lambda>b. dg_reference b = sd_anchor commit) (sd_blocks commit) of
        Some anchor \<Rightarrow> dg_timestamp anchor
      | None \<Rightarrow> (if sd_blocks commit = [] then 0 else Max (set (map dg_timestamp (sd_blocks commit)))))"

text \<open>
  The in-process driver: one round drains every core's mempool, collects at most one proposal each,
  then hands all proposals to every core and collects its commits. The three operations of a core are
  arguments.
\<close>

record ('core, 'r) CoreOps =
  co_drain :: "'core \<Rightarrow> 'core"
  co_try_new_block :: "'core \<Rightarrow> 'r DagBlock option \<times> 'core"
  co_commit :: "'r DagBlock list \<Rightarrow> 'core \<Rightarrow> 'r CommittedSubDag list \<times> 'core"

fun propose :: "('core, 'r) CoreOps \<Rightarrow> 'core list \<Rightarrow> 'r DagBlock list \<times> 'core list" where
  "propose ops [] = ([], [])"
| "propose ops (c # cs) =
     (let (b, c') = co_try_new_block ops (co_drain ops c);
          (bs, cs') = propose ops cs
      in ((case b of Some blk \<Rightarrow> blk # bs | None \<Rightarrow> bs), c' # cs'))"

fun run_rounds ::
  "('core, 'r) CoreOps \<Rightarrow> nat \<Rightarrow> 'core list \<Rightarrow> 'r CommittedSubDag list list \<Rightarrow>
     'core list \<times> 'r CommittedSubDag list list" where
  "run_rounds ops 0 cores outs = (cores, outs)"
| "run_rounds ops (Suc k) cores outs =
     (let (new_blocks, cores1) = propose ops cores;
          results = map (co_commit ops new_blocks) cores1
      in run_rounds ops k (map snd results) (map2 (\<lambda>out r. out @ fst r) outs results))"

section \<open>The commit loop\<close>

definition MAX_PENDING_PAYLOADS :: nat where "MAX_PENDING_PAYLOADS = 4096"

text \<open>
  One pass over the queue: progress flag, number sealed (a \<open>u64\<close> counter), payloads still pending, node.
  The sealing operation is an argument of the loop, \<open>seal_committed\<close> in the validator.
\<close>

fun seal_pass ::
  "('n \<Rightarrow> bytes \<Rightarrow> u64 \<Rightarrow> ('e + 'a) \<times> 'n) \<Rightarrow> u64 \<Rightarrow> bytes list \<Rightarrow> 'n \<Rightarrow> bool \<times> u64 \<times> bytes list \<times> 'n" where
  "seal_pass sl ts [] n = (False, 0, [], n)"
| "seal_pass sl ts (raw # raws) n =
     (case sl n raw ts of
        (Inr _, n1) \<Rightarrow> (let (p, k, still, n2) = seal_pass sl ts raws n1 in (True, k + 1, still, n2))
      | (Inl _, n1) \<Rightarrow> (let (p, k, still, n2) = seal_pass sl ts raws n1 in (p, k, raw # still, n2)))"

lemma seal_pass_length:
  "seal_pass sl ts raws n = (p, k, still, n') \<Longrightarrow>
     length still \<le> length raws \<and> (p \<longrightarrow> length still < length raws)"
proof (induction raws arbitrary: n p k still n')
  case (Cons raw raws)
  obtain r n1 where s: "sl n raw ts = (r, n1)" by (cases "sl n raw ts")
  obtain p' k' still' n2 where rest: "seal_pass sl ts raws n1 = (p', k', still', n2)"
    by (cases "seal_pass sl ts raws n1") auto
  from Cons.IH [OF rest] Cons.prems s rest show ?case by (cases r) auto
qed simp

text \<open>The loop until no progress or an empty queue.\<close>

function sweep ::
  "('n \<Rightarrow> bytes \<Rightarrow> u64 \<Rightarrow> ('e + 'a) \<times> 'n) \<Rightarrow> u64 \<Rightarrow> bytes list \<Rightarrow> 'n \<Rightarrow> u64 \<times> bytes list \<times> 'n" where
  "sweep sl ts pending n =
     (case seal_pass sl ts pending n of
        (progress, k, still, n') \<Rightarrow>
          (if \<not> progress \<or> still = [] then (k, still, n')
           else case sweep sl ts still n' of (k2, rest, n2) \<Rightarrow> (k + k2, rest, n2)))"
  by pat_completeness auto
termination
  by (relation "measure (\<lambda>(sl, ts, pending, n). length pending)") (auto dest!: seal_pass_length [OF sym])

declare sweep.simps [simp del]

record ('db, 'h) ValidatorState =
  vs_node :: "('db, 'h) KanariNode"
  vs_last_ts :: u64
  vs_pending :: "bytes list"

text \<open>Payloads in, oldest dropped beyond the cap.\<close>

definition enqueue :: "bytes list \<Rightarrow> bytes list \<Rightarrow> bytes list" where
  "enqueue pending payloads =
     (let q = pending @ payloads
      in if length q > MAX_PENDING_PAYLOADS then drop (length q - MAX_PENDING_PAYLOADS) q else q)"

definition execute_commit ::
  "('db, 'st, 'h) Ext \<Rightarrow> 'r CommittedSubDag \<Rightarrow> ('db, 'h) ValidatorState \<Rightarrow> ('db, 'h) ValidatorState" where
  "execute_commit x commit v =
     (let ts = max (commit_timestamp commit) (vs_last_ts v);
          queue = enqueue (vs_pending v) (ordered_payloads [commit]);
          (sealed, pending, n) = sweep (seal_committed x) ts queue (note_commit (vs_node v))
      in \<lparr>vs_node = n, vs_last_ts = ts, vs_pending = pending\<rparr>)"

definition start_validator :: "('db, 'h) KanariNode \<Rightarrow> ('db, 'h) ValidatorState" where
  "start_validator n = \<lparr>vs_node = set_dag_sender n, vs_last_ts = 0, vs_pending = []\<rparr>"

definition execute_commits ::
  "('db, 'st, 'h) Ext \<Rightarrow> 'r CommittedSubDag list \<Rightarrow> ('db, 'h) ValidatorState \<Rightarrow> ('db, 'h) ValidatorState" where
  "execute_commits x commits v = fold (execute_commit x) commits v"

section \<open>What the loop relies on\<close>

text \<open>
  A sealing operation with a log of what it sealed: a success appends the payload with its timestamp,
  a failure appends nothing. The sweep then neither loses nor duplicates payloads.
\<close>

locale sealer =
  fixes ok :: "'env \<Rightarrow> bool"
    and sl :: "'env \<Rightarrow> 'n \<Rightarrow> bytes \<Rightarrow> u64 \<Rightarrow> ('e + 'a) \<times> 'n"
    and log :: "'n \<Rightarrow> (bytes \<times> u64) list"
  assumes sealed_log: "ok x \<Longrightarrow> sl x n raw ts = (Inr h, n') \<Longrightarrow> log n' = log n @ [(raw, ts)]"
    and failed_log: "ok x \<Longrightarrow> sl x n raw ts = (Inl e, n') \<Longrightarrow> log n' = log n"
begin

lemma seal_pass_log:
  assumes "ok x"
  shows "seal_pass (sl x) ts raws n = (p, k, still, n') \<Longrightarrow>
    \<exists>dn. log n' = log n @ map (\<lambda>r. (r, ts)) dn \<and> mset dn + mset still = mset raws
      \<and> k = of_nat (length dn) \<and> (p \<longleftrightarrow> dn \<noteq> []) \<and> subseq still raws"
proof (induction raws arbitrary: n p k still n')
  case Nil
  then show ?case by auto
next
  case (Cons raw raws)
  obtain r n1 where s: "sl x n raw ts = (r, n1)" by (cases "sl x n raw ts")
  obtain p' k' still' n2 where rest: "seal_pass (sl x) ts raws n1 = (p', k', still', n2)"
    by (cases "seal_pass (sl x) ts raws n1") auto
  from Cons.IH [OF rest] obtain dn where d: "log n2 = log n1 @ map (\<lambda>r. (r, ts)) dn"
      "mset dn + mset still' = mset raws" "k' = of_nat (length dn)" "p' \<longleftrightarrow> dn \<noteq> []" "subseq still' raws"
    by blast
  show ?case
  proof (cases r)
    case (Inl e)
    with Cons.prems s rest have "p = p'" "k = k'" "still = raw # still'" "n' = n2" by simp_all
    with d failed_log [OF assms s [unfolded Inl]] show ?thesis by (intro exI [of _ dn]) auto
  next
    case (Inr h)
    with Cons.prems s rest have "p" "k = k' + 1" "still = still'" "n' = n2" by simp_all
    with d sealed_log [OF assms s [unfolded Inr]] show ?thesis by (intro exI [of _ "raw # dn"]) auto
  qed
qed

lemma sweep_log:
  assumes "ok x"
  shows "sweep (sl x) ts raws n = (k, rest, n') \<Longrightarrow>
    \<exists>dn. log n' = log n @ map (\<lambda>r. (r, ts)) dn \<and> mset dn + mset rest = mset raws
      \<and> k = of_nat (length dn) \<and> subseq rest raws"
proof (induction "length raws" arbitrary: raws n k rest n' rule: less_induct)
  case less
  obtain p k1 still n1 where pass: "seal_pass (sl x) ts raws n = (p, k1, still, n1)"
    by (cases "seal_pass (sl x) ts raws n") auto
  from seal_pass_log [OF assms pass] obtain d where d: "log n1 = log n @ map (\<lambda>r. (r, ts)) d"
      "mset d + mset still = mset raws" "k1 = of_nat (length d)" "subseq still raws" by blast
  show ?case
  proof (cases "\<not> p \<or> still = []")
    case True
    with less.prems pass d show ?thesis by (auto simp: sweep.simps [of "sl x" ts raws])
  next
    case False
    obtain k2 rest2 n2 where sw: "sweep (sl x) ts still n1 = (k2, rest2, n2)"
      by (cases "sweep (sl x) ts still n1") auto
    from False seal_pass_length [OF pass] have "length still < length raws" by simp
    from less.hyps [OF this sw] obtain d2 where d2: "log n2 = log n1 @ map (\<lambda>r. (r, ts)) d2"
        "mset d2 + mset rest2 = mset still" "k2 = of_nat (length d2)" "subseq rest2 still" by blast
    from less.prems pass False sw have "k = k1 + k2" "rest = rest2" "n' = n2"
      by (simp_all add: sweep.simps [of "sl x" ts raws])
    with d d2 show ?thesis
      by (intro exI [of _ "d @ d2"]) (auto simp: union_assoc intro: subseq_order.trans)
  qed
qed

end

text \<open>
  When a failed attempt changes nothing that matters for later attempts, the sweep stops at a fixed point.
\<close>

locale clean_sealer = sealer +
  fixes same :: "'env \<Rightarrow> 'n \<Rightarrow> 'n \<Rightarrow> bool"
  assumes same_refl: "same x n n"
    and same_sym: "same x n m \<Longrightarrow> same x m n"
    and same_trans: "same x n m \<Longrightarrow> same x m k \<Longrightarrow> same x n k"
    and failed_same: "ok x \<Longrightarrow> sl x n raw ts = (Inl e, n') \<Longrightarrow> same x n' n"
    and same_result: "ok x \<Longrightarrow> same x n m \<Longrightarrow> fst (sl x n raw ts) = fst (sl x m raw ts)"
begin

lemma idle_pass:
  assumes "ok x"
  shows "seal_pass (sl x) ts raws n = (False, k, still, n') \<Longrightarrow>
    still = raws \<and> same x n' n \<and> (\<forall>raw\<in>set raws. \<exists>e. fst (sl x n raw ts) = Inl e)"
proof (induction raws arbitrary: n k still n')
  case Nil
  then show ?case by (simp add: same_refl)
next
  case (Cons raw raws)
  obtain r n1 where s: "sl x n raw ts = (r, n1)" by (cases "sl x n raw ts")
  obtain p' k' still' n2 where rest: "seal_pass (sl x) ts raws n1 = (p', k', still', n2)"
    by (cases "seal_pass (sl x) ts raws n1") auto
  from Cons.prems s rest obtain e where r: "r = Inl e" "\<not> p'" "still = raw # still'" "n' = n2"
    by (cases r) auto
  from failed_same [OF assms s [unfolded r(1)]] have n1: "same x n1 n" .
  have "still' = raws" "same x n2 n1" "\<forall>raw\<in>set raws. \<exists>e. fst (sl x n1 raw ts) = Inl e"
    using Cons.IH [of n1 k' still' n2] rest r(2) by simp_all
  with same_trans [OF _ n1] same_result [OF assms n1] r s show ?case by auto
qed

lemma sweep_fixation:
  assumes "ok x"
  shows "sweep (sl x) ts raws n = (k, rest, n') \<Longrightarrow>
    \<forall>raw\<in>set rest. \<exists>e m. sl x n' raw ts = (Inl e, m) \<and> same x m n'"
proof (induction "length raws" arbitrary: raws n k rest n' rule: less_induct)
  case less
  obtain p k1 still n1 where pass: "seal_pass (sl x) ts raws n = (p, k1, still, n1)"
    by (cases "seal_pass (sl x) ts raws n") auto
  consider (idle) "\<not> p" | (empty) "p" "still = []" | (again) "p" "still \<noteq> []" by blast
  then show ?case
  proof cases
    case idle
    with less.prems pass have "rest = still" "n' = n1" by (simp_all add: sweep.simps [of "sl x" ts raws])
    moreover have "\<exists>e m. sl x n1 raw ts = (Inl e, m) \<and> same x m n1" if "raw \<in> set still" for raw
    proof -
      from idle_pass [OF assms, of ts raws n k1 still n1] pass idle that obtain e where
        "same x n1 n" "fst (sl x n raw ts) = Inl e" by auto
      with same_result [OF assms, of n1 n raw ts] have "fst (sl x n1 raw ts) = Inl e" by simp
      then obtain m where "sl x n1 raw ts = (Inl e, m)" by (cases "sl x n1 raw ts") simp
      with failed_same [OF assms this] show ?thesis by blast
    qed
    ultimately show ?thesis by blast
  next
    case empty
    with less.prems pass show ?thesis by (auto simp: sweep.simps [of "sl x" ts raws])
  next
    case again
    obtain k2 rest2 n2 where sw: "sweep (sl x) ts still n1 = (k2, rest2, n2)"
      by (cases "sweep (sl x) ts still n1") auto
    from again seal_pass_length [OF pass] have "length still < length raws" by simp
    from less.hyps [OF this sw] less.prems pass again sw show ?thesis
      by (simp add: sweep.simps [of "sl x" ts raws])
  qed
qed

end

section \<open>The node as a sealer\<close>

definition tx_log :: "('db, 'h) KanariNode \<Rightarrow> (bytes \<times> u64) list" where
  "tx_log n = concat (map (\<lambda>b. map (\<lambda>raw. (raw, sb_timestamp b)) (sb_txs b)) (n_blocks n))"

interpretation committing: sealer
  "\<lambda>x :: ('db, 'st, 'h) Ext. kv_ok (x_kv x)" seal_committed tx_log
proof (unfold_locales, goal_cases)
  case (1 x n raw ts h n')
  from 1(2) [unfolded seal_committed_def seal_raw_def] show ?case
    by (rule seal_success) (simp add: tx_log_def)
next
  case (2 x n raw ts e n')
  from 2(2) [unfolded seal_committed_def seal_raw_def] show ?case
    by (rule seal_failed [OF 2(1)]) (simp add: tx_log_def)
qed

definition clean_env :: "('db, 'st, 'h) Ext \<times> ((bytes \<times> bytes) set \<Rightarrow> B256) \<Rightarrow> bool" where
  "clean_env e \<longleftrightarrow> env_ok (fst e) (snd e)"

interpretation clean_committing: clean_sealer
  "clean_env :: ('db, 'st, 'h) Ext \<times> _ \<Rightarrow> bool" "\<lambda>e. seal_committed (fst e)" tx_log
  "\<lambda>e. same_replica (fst e) True"
proof (unfold_locales, goal_cases)
  case (1 x n raw ts h n')
  then show ?case by (intro committing.sealed_log) (simp_all add: clean_env_def env_ok_def working_disk_def)
next
  case (2 x n raw ts e n')
  then show ?case by (intro committing.failed_log) (simp_all add: clean_env_def env_ok_def working_disk_def)
next
  case (3 x n)
  show ?case by simp
next
  case (4 x n m)
  from same_replica_sym [OF this] show ?case by (simp add: same_env_def)
next
  case (5 x n m k)
  from same_replica_trans [OF 5(1) _ 5(2)] show ?case by (simp add: same_env_def)
next
  case (6 x n raw ts e n')
  then have "db_ok (x_revm (fst x))" "rejects_cleanly (x_revm (fst x)) (x_crypto (fst x))" "working_disk (fst x) (snd x)"
    by (simp_all add: clean_env_def env_ok_def)
  from seal_failed_same [OF this 6(2)] show ?case .
next
  case (7 x n m raw ts)
  then have disk: "working_disk (fst x) (snd x)" by (simp add: clean_env_def env_ok_def)
  have "same_env (fst x) (fst x)" by (simp add: same_env_def)
  from seal_committed_replica [OF this disk disk 7(2)] show ?case by simp
qed

section \<open>Lemmas on the loop\<close>

lemma length_enqueue: "length (enqueue pending payloads) \<le> MAX_PENDING_PAYLOADS"
  by (auto simp: enqueue_def Let_def)

lemma enqueue_suffix:
  "\<exists>dropped. pending @ payloads = dropped @ enqueue pending payloads
     \<and> (dropped = [] \<or> length (enqueue pending payloads) = MAX_PENDING_PAYLOADS)"
proof (cases "length (pending @ payloads) > MAX_PENDING_PAYLOADS")
  case True
  then show ?thesis
    by (intro exI [of _ "take (length (pending @ payloads) - MAX_PENDING_PAYLOADS) (pending @ payloads)"])
      (simp add: enqueue_def Let_def del: take_append drop_append)
next
  case False
  then show ?thesis by (intro exI [of _ "[]"]) (simp add: enqueue_def)
qed

lemma tx_log_note_commit [simp]: "tx_log (note_commit n) = tx_log n"
  by (simp add: tx_log_def note_commit_def)

lemma execute_commit_log:
  assumes "kv_ok (x_kv x)"
  shows "\<exists>dn. tx_log (vs_node (execute_commit x c v))
      = tx_log (vs_node v) @ map (\<lambda>r. (r, max (commit_timestamp c) (vs_last_ts v))) dn
    \<and> mset dn + mset (vs_pending (execute_commit x c v)) = mset (enqueue (vs_pending v) (ordered_payloads [c]))
    \<and> subseq (vs_pending (execute_commit x c v)) (enqueue (vs_pending v) (ordered_payloads [c]))"
proof -
  obtain k rest n' where sw: "sweep (seal_committed x) (max (commit_timestamp c) (vs_last_ts v))
      (enqueue (vs_pending v) (ordered_payloads [c])) (note_commit (vs_node v)) = (k, rest, n')"
    by (cases "sweep (seal_committed x) (max (commit_timestamp c) (vs_last_ts v))
      (enqueue (vs_pending v) (ordered_payloads [c])) (note_commit (vs_node v))") auto
  from committing.sweep_log [OF assms sw] sw show ?thesis by (auto simp: execute_commit_def Let_def)
qed

lemma execute_commit_last_ts [simp]:
  "vs_last_ts (execute_commit x c v) = max (commit_timestamp c) (vs_last_ts v)"
  by (simp add: execute_commit_def Let_def split: prod.splits)

text \<open>Two validators in step.\<close>

definition in_step ::
  "('db, 'st, 'h) Ext \<Rightarrow> bool \<Rightarrow> ('db, 'h) ValidatorState \<Rightarrow> ('db, 'g) ValidatorState \<Rightarrow> bool" where
  "in_step x roots v w \<longleftrightarrow> same_replica x roots (vs_node v) (vs_node w) \<and> vs_last_ts v = vs_last_ts w \<and> vs_pending v = vs_pending w"

lemma seal_pass_replica:
  assumes "same_env x y" "working_disk x root_of" "working_disk y root_of"
  shows "same_replica x roots n m \<Longrightarrow> seal_pass (seal_committed x) ts raws n = (p, k, still, n') \<Longrightarrow>
    \<exists>m'. seal_pass (seal_committed y) ts raws m = (p, k, still, m') \<and> same_replica x roots n' m'"
proof (induction raws arbitrary: n m p k still n')
  case (Cons raw raws)
  obtain r n1 where s: "seal_committed x n raw ts = (r, n1)" by (cases "seal_committed x n raw ts")
  with seal_committed_replica [OF assms Cons.prems(1), of raw ts] obtain m1 where
    m1: "seal_committed y m raw ts = (r, m1)" "same_replica x roots n1 m1" by (cases "seal_committed y m raw ts") auto
  obtain p' k' still' n2 where rest: "seal_pass (seal_committed x) ts raws n1 = (p', k', still', n2)"
    by (cases "seal_pass (seal_committed x) ts raws n1") auto
  from Cons.IH [OF m1(2) rest] Cons.prems(2) s m1(1) rest show ?case by (cases r) auto
qed simp

lemma sweep_replica:
  assumes "same_env x y" "working_disk x root_of" "working_disk y root_of"
  shows "same_replica x roots n m \<Longrightarrow> sweep (seal_committed x) ts raws n = (k, rest, n') \<Longrightarrow>
    \<exists>m'. sweep (seal_committed y) ts raws m = (k, rest, m') \<and> same_replica x roots n' m'"
proof (induction "length raws" arbitrary: raws n m k rest n' rule: less_induct)
  case less
  obtain p k1 still n1 where pass: "seal_pass (seal_committed x) ts raws n = (p, k1, still, n1)"
    by (cases "seal_pass (seal_committed x) ts raws n") auto
  from seal_pass_replica [OF assms less.prems(1) pass] obtain m1 where
    m1: "seal_pass (seal_committed y) ts raws m = (p, k1, still, m1)" "same_replica x roots n1 m1" by blast
  show ?case
  proof (cases "\<not> p \<or> still = []")
    case True
    with less.prems(2) pass m1 show ?thesis
      by (auto simp: sweep.simps [of "seal_committed x" ts raws] sweep.simps [of "seal_committed y" ts raws])
  next
    case False
    obtain k2 rest2 n2 where sw: "sweep (seal_committed x) ts still n1 = (k2, rest2, n2)"
      by (cases "sweep (seal_committed x) ts still n1") auto
    from False seal_pass_length [OF pass] have "length still < length raws" by simp
    from less.hyps [OF this m1(2) sw] less.prems(2) pass m1(1) False sw show ?thesis
      by (auto simp: sweep.simps [of "seal_committed x" ts raws] sweep.simps [of "seal_committed y" ts raws])
  qed
qed

lemma same_replica_note_commit: "same_replica x roots n m \<Longrightarrow> same_replica x roots (note_commit n) (note_commit m)"
  by (simp add: same_replica_def note_commit_def)

lemma tx_log_replica: "same_replica x roots n m \<Longrightarrow> tx_log n = tx_log m"
proof -
  assume "same_replica x roots n m"
  then have "map (\<lambda>b. map (\<lambda>raw. (raw, sb_timestamp b)) (sb_txs b)) (map drop_root (n_blocks n))
      = map (\<lambda>b. map (\<lambda>raw. (raw, sb_timestamp b)) (sb_txs b)) (map drop_root (n_blocks m))"
    by (simp only: same_replica_def)
  then show ?thesis by (simp add: tx_log_def comp_def)
qed

lemma execute_commit_in_step:
  assumes "same_env x y" "working_disk x root_of" "working_disk y root_of" "in_step x roots v w"
  shows "in_step x roots (execute_commit x c v) (execute_commit y c w)"
proof -
  let ?ts = "max (commit_timestamp c) (vs_last_ts v)"
  let ?q = "enqueue (vs_pending v) (ordered_payloads [c])"
  have vw: "same_replica x roots (note_commit (vs_node v)) (note_commit (vs_node w))"
      "vs_last_ts w = vs_last_ts v" "vs_pending w = vs_pending v"
    using assms(4) by (simp_all add: in_step_def same_replica_note_commit)
  obtain k rest n' where sw: "sweep (seal_committed x) ?ts ?q (note_commit (vs_node v)) = (k, rest, n')"
    by (cases "sweep (seal_committed x) ?ts ?q (note_commit (vs_node v))") auto
  from sweep_replica [OF assms(1-3) vw(1) sw] obtain m' where
    "sweep (seal_committed y) ?ts ?q (note_commit (vs_node w)) = (k, rest, m')" "same_replica x roots n' m'" by blast
  with sw show ?thesis by (simp add: execute_commit_def vw(2,3) in_step_def Let_def)
qed

lemma execute_commits_in_step:
  assumes "same_env x y" "working_disk x root_of" "working_disk y root_of"
  shows "in_step x roots v w \<Longrightarrow> in_step x roots (execute_commits x cs v) (execute_commits y cs w)"
  by (induction cs arbitrary: v w) (simp_all add: execute_commits_def execute_commit_in_step [OF assms])

text \<open>Chains only grow.\<close>

lemma execute_commits_prefix:
  assumes "kv_ok (x_kv x)"
  shows "prefix (tx_log (vs_node v)) (tx_log (vs_node (execute_commits x cs v)))"
proof (induction cs arbitrary: v)
  case (Cons c cs)
  have "prefix (tx_log (vs_node v)) (tx_log (vs_node (execute_commit x c v)))"
    using execute_commit_log [OF assms, of c v] by (auto simp: prefix_def)
  with Cons [of "execute_commit x c v"] show ?case
    by (auto simp: execute_commits_def intro: prefix_order.trans)
qed (simp add: execute_commits_def)

text \<open>Timestamps never go back.\<close>

definition clock_ok :: "('db, 'h) ValidatorState \<Rightarrow> bool" where
  "clock_ok v \<longleftrightarrow> sorted (map snd (tx_log (vs_node v))) \<and> (\<forall>p\<in>set (tx_log (vs_node v)). snd p \<le> vs_last_ts v)"

lemma execute_commit_clock:
  assumes "kv_ok (x_kv x)" and "clock_ok v"
  shows "clock_ok (execute_commit x c v)"
proof -
  obtain dn where "tx_log (vs_node (execute_commit x c v))
      = tx_log (vs_node v) @ map (\<lambda>r. (r, max (commit_timestamp c) (vs_last_ts v))) dn"
    using execute_commit_log [OF assms(1)] by blast
  moreover have "snd p \<le> max (commit_timestamp c) (vs_last_ts v)" if "p \<in> set (tx_log (vs_node v))" for p
    using that assms(2) by (auto simp: clock_ok_def le_max_iff_disj)
  ultimately show ?thesis using assms(2) by (auto simp: clock_ok_def sorted_append comp_def sorted_map)
qed

lemma execute_commits_clock:
  assumes "kv_ok (x_kv x)"
  shows "clock_ok v \<Longrightarrow> clock_ok (execute_commits x cs v)"
  by (induction cs arbitrary: v) (simp_all add: execute_commits_def execute_commit_clock [OF assms])

section \<open>Properties\<close>

text \<open>A validator with one pending payload and a commit that carries another.\<close>

definition sample_commit :: "nat CommittedSubDag" where
  "sample_commit = \<lparr>sd_anchor = 1, sd_blocks = [\<lparr>dg_reference = 1, dg_timestamp = 100, dg_transactions = [[1]]\<rparr>]\<rparr>"

definition sample_validator :: "(mem_db, mem_handle) ValidatorState" where
  "sample_validator = \<lparr>vs_node = mem_node, vs_last_ts = 0, vs_pending = [[0xff]]\<rparr>"

lemma sample_commit_facts [simp]:
  "commit_timestamp sample_commit = 100" "ordered_payloads [sample_commit] = [[1]]"
  by (simp_all add: sample_commit_def commit_timestamp_def ordered_payloads_def)

lemma bad_payload_stays: "seal_committed mem_ext n [0xff] ts = (Inl (InvalidTransaction ''bad''), n)"
  by (simp add: seal_committed_def seal_raw_def seal_raw_with_fee_def prepared_decode_def
      mem_crypto_def mem_decode_def)

lemma mem_seal_replica:
  assumes "same_replica mem_ext True mem_node n"
  obtains n1 where "seal_committed mem_ext n [1] ts = (Inr 1, n1)"
proof -
  have env: "same_env mem_ext mem_ext" by (simp add: same_env_def)
  from seal_committed_replica [OF env mem_working_disk mem_working_disk assms, of "[1]" ts] mem_seal [of ts]
  show thesis by (cases "seal_committed mem_ext n [1] ts") (auto intro: that)
qed

lemma sample_run:
  obtains n1 where "execute_commit mem_ext sample_commit sample_validator
    = \<lparr>vs_node = n1, vs_last_ts = 100, vs_pending = [[0xff]]\<rparr>"
proof -
  have "same_replica mem_ext True mem_node (note_commit mem_node)" by (simp add: same_replica_def note_commit_def)
  then obtain n1 where n1: "seal_committed mem_ext (note_commit mem_node) [1] 100 = (Inr 1, n1)"
    by (rule mem_seal_replica)
  have "enqueue [[0xff]] [[1]] = [[0xff], [1]]" by (simp add: enqueue_def MAX_PENDING_PAYLOADS_def)
  then have "execute_commit mem_ext sample_commit sample_validator
    = \<lparr>vs_node = n1, vs_last_ts = 100, vs_pending = [[0xff]]\<rparr>"
    by (simp add: execute_commit_def sample_validator_def sweep.simps n1 bad_payload_stays)
  then show thesis by (rule that)
qed

text \<open>
  C10. The commit loop loses and duplicates nothing. Executing a commit appends the payloads it seals,
  each with the commit's timestamp; together with what stays pending they are exactly the queue: the
  old pending payloads followed by the commit's, less the oldest ones beyond the cap of 4096. Pending
  payloads keep their order and never exceed the cap.
\<close>

theorem commit_conserves_payloads:
  assumes "kv_ok (x_kv x)"
  shows "\<exists>dn dropped. tx_log (vs_node (execute_commit x c v))
      = tx_log (vs_node v) @ map (\<lambda>r. (r, vs_last_ts (execute_commit x c v))) dn
    \<and> mset dropped + mset dn + mset (vs_pending (execute_commit x c v))
        = mset (vs_pending v @ ordered_payloads [c])
    \<and> prefix dropped (vs_pending v @ ordered_payloads [c])
    \<and> length dropped = length (vs_pending v @ ordered_payloads [c]) - 4096
    \<and> subseq (vs_pending (execute_commit x c v)) (vs_pending v @ ordered_payloads [c])
    \<and> length (vs_pending (execute_commit x c v)) \<le> 4096"
proof -
  let ?q = "enqueue (vs_pending v) (ordered_payloads [c])"
  let ?all = "vs_pending v @ ordered_payloads [c]"
  obtain dn where dn: "tx_log (vs_node (execute_commit x c v))
        = tx_log (vs_node v) @ map (\<lambda>r. (r, max (commit_timestamp c) (vs_last_ts v))) dn"
      "mset dn + mset (vs_pending (execute_commit x c v)) = mset ?q"
      "subseq (vs_pending (execute_commit x c v)) ?q"
    using execute_commit_log [OF assms] by blast
  let ?d = "take (length ?all - 4096) ?all"
  have q: "?q = drop (length ?all - 4096) ?all"
    by (simp add: enqueue_def MAX_PENDING_PAYLOADS_def Let_def)
  have split: "mset ?d + mset ?q = mset ?all" unfolding q by (metis append_take_drop_id mset_append)
  have "subseq (vs_pending (execute_commit x c v)) ?all"
    using dn(3) unfolding q by (metis append_take_drop_id list_emb_append2)
  moreover have "length (vs_pending (execute_commit x c v)) \<le> 4096"
    using list_emb_length [OF dn(3)] length_enqueue [of "vs_pending v" "ordered_payloads [c]"]
    by (simp add: MAX_PENDING_PAYLOADS_def)
  moreover have "mset ?d + mset dn + mset (vs_pending (execute_commit x c v)) = mset ?all"
    using split dn(2) by (simp add: union_assoc)
  moreover have "length ?d = length ?all - 4096" by simp
  ultimately show ?thesis using dn(1) take_is_prefix [of _ ?all]
    by (intro exI [of _ dn] exI [of _ ?d] conjI) (simp_all del: take_append mset_append length_append)
qed

theorem commit_conserves_payloads_witness:
  "\<exists>dn. tx_log (vs_node (execute_commit mem_ext sample_commit sample_validator)) = map (\<lambda>r. (r, 100)) dn
     \<and> mset dn + mset (vs_pending (execute_commit mem_ext sample_commit sample_validator)) = {#[0xff], [1]#}"
proof -
  have kv: "kv_ok (x_kv mem_ext)" by (simp add: mem_kv_ok)
  have nil: "tx_log (vs_node sample_validator) = []" by (simp add: tx_log_def sample_validator_def)
  from commit_conserves_payloads [OF kv, of sample_commit sample_validator] obtain dn dropped where
    "tx_log (vs_node (execute_commit mem_ext sample_commit sample_validator)) = map (\<lambda>r. (r, 100)) dn"
    "mset dropped + mset dn + mset (vs_pending (execute_commit mem_ext sample_commit sample_validator))
       = {#[0xff], [1]#}" "length dropped = 0"
    by (auto simp: nil) (simp add: sample_validator_def)
  then show ?thesis by (intro exI [of _ dn]) simp
qed

text \<open>
  C11. The sweep reaches a fixed point: after a commit was executed, sealing any payload still pending,
  at the commit's timestamp, fails and leaves a node that the program cannot tell from the one before. So a payload waits only as
  long as it is not executable.
\<close>

theorem commit_sweeps_to_fixation:
  assumes "env_ok x root_of" and "raw \<in> set (vs_pending (execute_commit x c v))"
  shows "\<exists>e m. seal_committed x (vs_node (execute_commit x c v)) raw (vs_last_ts (execute_commit x c v)) = (Inl e, m)
    \<and> same_replica x True m (vs_node (execute_commit x c v))"
proof -
  have ok: "clean_env (x, root_of)" using assms(1) by (simp add: clean_env_def)
  obtain k rest n' where sw: "sweep (seal_committed (fst (x, root_of))) (max (commit_timestamp c) (vs_last_ts v))
      (enqueue (vs_pending v) (ordered_payloads [c])) (note_commit (vs_node v)) = (k, rest, n')"
    by (cases "sweep (seal_committed (fst (x, root_of))) (max (commit_timestamp c) (vs_last_ts v))
      (enqueue (vs_pending v) (ordered_payloads [c])) (note_commit (vs_node v))") auto
  then have "vs_pending (execute_commit x c v) = rest" "vs_node (execute_commit x c v) = n'"
    by (simp_all add: execute_commit_def Let_def)
  with clean_committing.sweep_fixation [OF ok sw] assms(2) show ?thesis by simp
qed

theorem commit_sweeps_to_fixation_witness:
  "[0xff] \<in> set (vs_pending (execute_commit mem_ext sample_commit sample_validator))
   \<and> (\<exists>e m. seal_committed mem_ext (vs_node (execute_commit mem_ext sample_commit sample_validator)) [0xff]
         (vs_last_ts (execute_commit mem_ext sample_commit sample_validator)) = (Inl e, m)
       \<and> same_replica mem_ext True m (vs_node (execute_commit mem_ext sample_commit sample_validator)))"
proof -
  have p: "[0xff] \<in> set (vs_pending (execute_commit mem_ext sample_commit sample_validator))"
    by (rule sample_run) simp
  from p commit_sweeps_to_fixation [OF mem_env_ok p] show ?thesis by (rule conjI)
qed

text \<open>
  C3. Validators converge on the commit stream: two validators that agree on the chain, the last
  timestamp and the pending queue, each on its own working disk, agree on all of them after any
  sequence of commits: same blocks, hashes, state roots, receipts and pending payloads. Validators whose chains
  differ in state roots only keep agreeing on everything else.
\<close>

theorem validators_converge:
  assumes "same_env x y" "working_disk x root_of" "working_disk y root_of" "in_step x roots v w"
  shows "in_step x roots (execute_commits x cs v) (execute_commits y cs w)"
  using execute_commits_in_step [OF assms(1-3) assms(4)] .

theorem validators_converge_witness:
  "in_step mem_ext True (execute_commits mem_ext [sample_commit, sample_commit] sample_validator)
     (execute_commits mem_ext [sample_commit, sample_commit]
        (sample_validator\<lparr>vs_node := mem_node\<lparr>n_faucet_key := Some 3\<rparr>\<rparr>))"
proof (rule validators_converge [OF _ mem_working_disk mem_working_disk])
  show "same_env mem_ext mem_ext" by (simp add: same_env_def)
  show "in_step mem_ext True sample_validator (sample_validator\<lparr>vs_node := mem_node\<lparr>n_faucet_key := Some 3\<rparr>\<rparr>)"
    by (simp add: in_step_def same_replica_def sample_validator_def)
qed

text \<open>
  A validator that is behind holds a prefix: if one validator executed commits \<open>cs\<close> and another, in
  step with it at the start, executed \<open>cs\<close> and then more, the transactions sealed by the first, with
  their timestamps, are a prefix of those sealed by the second.
\<close>

theorem lagging_validator_is_prefix:
  assumes "same_env x y" "working_disk x root_of" "working_disk y root_of" "in_step x roots v w"
  shows "prefix (tx_log (vs_node (execute_commits x cs v))) (tx_log (vs_node (execute_commits y (cs @ ds) w)))"
proof -
  have "tx_log (vs_node (execute_commits x cs v)) = tx_log (vs_node (execute_commits y cs w))"
    using execute_commits_in_step [OF assms(1-4), of cs] by (auto simp: in_step_def dest: tx_log_replica)
  moreover have "kv_ok (x_kv y)" using assms(3) by (simp add: working_disk_def)
  ultimately show ?thesis
    using execute_commits_prefix [of y "execute_commits y cs w" ds] by (simp add: execute_commits_def)
qed

theorem lagging_validator_is_prefix_witness:
  "prefix (tx_log (vs_node (execute_commits mem_ext ([] :: nat CommittedSubDag list) sample_validator)))
     (tx_log (vs_node (execute_commits mem_ext ([] @ [sample_commit]) sample_validator)))"
  by (rule lagging_validator_is_prefix [where roots = True, OF _ mem_working_disk mem_working_disk])
    (simp_all add: same_env_def in_step_def)

text \<open>
  Block timestamps never decrease: a validator that started on an empty chain has, after any
  sequence of commits, sealed its transactions with non-decreasing timestamps, whatever timestamps the
  anchors carry.
\<close>

theorem commit_timestamps_monotone:
  assumes "kv_ok (x_kv x)" and "n_blocks n = []"
  shows "sorted (map snd (tx_log (vs_node (execute_commits x cs (start_validator n)))))"
proof -
  have "clock_ok (start_validator n)"
    using assms(2) by (simp add: clock_ok_def start_validator_def tx_log_def set_dag_sender_def)
  from execute_commits_clock [OF assms(1) this, of cs] show ?thesis by (simp add: clock_ok_def)
qed

theorem commit_timestamps_monotone_witness:
  "sorted (map snd (tx_log (vs_node (execute_commits mem_ext [sample_commit] (start_validator mem_node)))))"
  by (rule commit_timestamps_monotone) (simp_all add: mem_kv_ok)

text \<open>
  The clamp and the queue do not survive a restart: the loop keeps its last timestamp in memory
  only. For a commit whose anchor is older than the last timestamp, a validator that kept running seals
  the payload at the last timestamp, and one that restarted on the same chain seals it at the anchor's,
  so their blocks differ.
\<close>

theorem restart_forgets_clamp:
  assumes "kv_ok (x_kv x)" and "ordered_payloads [c] = [raw]" and "commit_timestamp c < last_ts"
    and "\<And>ts. \<exists>h m. seal_committed x (note_commit (set_dag_sender n)) raw ts = (Inr h, m)"
  shows "tx_log (vs_node (execute_commit x c \<lparr>vs_node = set_dag_sender n, vs_last_ts = last_ts, vs_pending = []\<rparr>))
      = tx_log n @ [(raw, last_ts)]
    \<and> tx_log (vs_node (execute_commit x c (start_validator n))) = tx_log n @ [(raw, commit_timestamp c)]"
proof -
  have run: "tx_log (vs_node (execute_commit x c \<lparr>vs_node = set_dag_sender n, vs_last_ts = t, vs_pending = []\<rparr>))
      = tx_log n @ [(raw, max (commit_timestamp c) t)]" for t
  proof -
    obtain h m where m: "seal_committed x (note_commit (set_dag_sender n)) raw (max (commit_timestamp c) t) = (Inr h, m)"
      using assms(4) by blast
    have "enqueue [] [raw] = [raw]" by (simp add: enqueue_def MAX_PENDING_PAYLOADS_def)
    then have "vs_node (execute_commit x c \<lparr>vs_node = set_dag_sender n, vs_last_ts = t, vs_pending = []\<rparr>) = m"
      by (simp add: execute_commit_def assms(2) sweep.simps m)
    moreover have "tx_log (note_commit (set_dag_sender n)) = tx_log n"
      by (simp add: tx_log_def set_dag_sender_def note_commit_def)
    ultimately show ?thesis using committing.sealed_log [OF assms(1) m] by simp
  qed
  from run [of last_ts] run [of 0] less_imp_le [OF assms(3)] show ?thesis by (simp add: start_validator_def max_def)
qed

theorem restart_forgets_clamp_witness:
  "tx_log (vs_node (execute_commit mem_ext sample_commit
      \<lparr>vs_node = set_dag_sender mem_node, vs_last_ts = 200, vs_pending = []\<rparr>)) = [([1], 200)]
   \<and> tx_log (vs_node (execute_commit mem_ext sample_commit (start_validator mem_node))) = [([1], 100)]"
proof -
  have "same_replica mem_ext True mem_node (note_commit (set_dag_sender mem_node))"
    by (simp add: same_replica_def note_commit_def set_dag_sender_def)
  then have seal: "\<exists>h m. seal_committed mem_ext (note_commit (set_dag_sender mem_node)) [1] ts = (Inr h, m)" for ts
    by (rule mem_seal_replica [of _ ts]) blast
  have kv: "kv_ok (x_kv mem_ext)" by (simp add: mem_kv_ok)
  have lt: "commit_timestamp sample_commit < 200" by simp
  from restart_forgets_clamp [OF kv sample_commit_facts(2) lt seal] show ?thesis by (simp add: tx_log_def)
qed

end
