(* ===== verification/Committee.thy ===== *)
theory Committee
  imports Instances
begin

text \<open>
  Validator committee files (\<^verbatim>\<open>crates/consensus/src/committee.rs\<close>): generation of a committee with
  its port layout and key files, the identity lookup of a validator by public key, the equal-stake
  committee handed to the DAG, and the compatibility map. Key material, JSON and the directory are
  arguments.
\<close>

section \<open>Data\<close>

record ValidatorEntry =
  ve_id :: string
  ve_host :: string
  ve_port :: u16
  ve_public_key :: string

type_synonym DagCommittee = "ValidatorEntry list"

datatype CommitteeError = CIo string | CInvalid string

record 'sg LoadedValidator =
  lv_index :: nat
  lv_id :: string
  lv_authority :: u64
  lv_signer :: 'sg
  lv_committee :: "(nat \<times> bytes) list"
  lv_dag_addresses :: "(string \<times> u16) list"
  lv_own_address :: "string \<times> u16"

text \<open>
  Third-party operations: the output directory (\<open>'fs\<close>, files by name), Ed25519 keys of the DAG crate,
  and the JSON codecs. A public key of the DAG crate is represented by its bytes; \<open>ke_pk_check\<close> is the
  point validation of \<open>PublicKey::from_bytes\<close>.
\<close>

record ('fs, 'sg) KeyEnv =
  ke_mkdir :: "'fs \<Rightarrow> (string + unit) \<times> 'fs"
  ke_write :: "'fs \<Rightarrow> string \<Rightarrow> bytes \<Rightarrow> (string + unit) \<times> 'fs"
  ke_read :: "'fs \<Rightarrow> string \<Rightarrow> string + bytes"
  ke_signer :: "bytes \<Rightarrow> 'sg"
  ke_public_key :: "'sg \<Rightarrow> bytes"
  ke_pk_check :: "bytes \<Rightarrow> string + unit"
  ke_ser_signer :: "'sg \<Rightarrow> string + bytes"
  ke_de_signer :: "bytes \<Rightarrow> string + 'sg"
  ke_ser_committee :: "DagCommittee \<Rightarrow> string + bytes"
  ke_de_committee :: "bytes \<Rightarrow> string + DagCommittee"

definition COMMITTEE_FILENAME :: string where "COMMITTEE_FILENAME = ''dag-committee.json''"

section \<open>Keys\<close>

definition hex_error_string :: "HexError \<Rightarrow> string" where
  "hex_error_string e = (case e of OddLength \<Rightarrow> ''odd hex length (want pairs of digits)''
     | InvalidChar \<Rightarrow> ''non-hex character in input''
     | InvalidLength want got \<Rightarrow> ''want '' @ decimal want @ '' bytes, got '' @ decimal got)"

definition encode_pubkey :: "bytes \<Rightarrow> CommitteeError + string" where
  "encode_pubkey bytes =
     (if length bytes \<noteq> 32
      then Inl (CInvalid (''public key must be 32 bytes, got '' @ decimal (length bytes)))
      else Inr (hex_encode bytes))"

definition decode_pubkey :: "('fs, 'sg) KeyEnv \<Rightarrow> string \<Rightarrow> string + bytes" where
  "decode_pubkey ke hex =
     res_bind (map_err (\<lambda>e. ''bad public key: '' @ hex_error_string e) (hex_decode32 hex)) (\<lambda>bytes.
     res_bind (ke_pk_check ke bytes) (\<lambda>_. Inr bytes))"

definition load_signer :: "('fs, 'sg) KeyEnv \<Rightarrow> 'fs \<Rightarrow> string \<Rightarrow> CommitteeError + 'sg" where
  "load_signer ke fs path =
     res_bind (map_err CIo (ke_read ke fs path)) (\<lambda>raw. map_err CInvalid (ke_de_signer ke raw))"

definition key_filename :: "nat \<Rightarrow> string" where
  "key_filename validator_number = ''validator-'' @ decimal validator_number @ ''.key''"

definition public_keys_map :: "DagCommittee \<Rightarrow> string \<rightharpoonup> string" where
  "public_keys_map committee = map_of (rev (map (\<lambda>e. (ve_id e, ve_public_key e)) committee))"

section \<open>The committee\<close>

text \<open>Stake 1 for every validator; the loop stops at the first bad key.\<close>

fun authority_infos :: "('fs, 'sg) KeyEnv \<Rightarrow> DagCommittee \<Rightarrow> CommitteeError + (nat \<times> bytes) list" where
  "authority_infos ke [] = Inr []"
| "authority_infos ke (entry # rest) =
     res_bind (map_err (\<lambda>e. CInvalid (''bad public key for '' @ ve_id entry @ '': '' @ e))
                 (decode_pubkey ke (ve_public_key entry))) (\<lambda>key.
     res_bind (authority_infos ke rest) (\<lambda>infos. Inr ((1, key) # infos)))"

definition to_mysticeti :: "('fs, 'sg) KeyEnv \<Rightarrow> DagCommittee \<Rightarrow> CommitteeError + (nat \<times> bytes) list" where
  "to_mysticeti ke committee =
     (if length committee < 4
      then Inl (CInvalid (''need at least 4 validators for quorum, got '' @ decimal (length committee)))
      else authority_infos ke committee)"

text \<open>\<open>node_count\<close> is a \<open>usize\<close>, cast to \<open>u32\<close> for the check; saturating arithmetic on \<open>u32\<close>.\<close>

definition top_port :: "u64 \<Rightarrow> u16 \<Rightarrow> u32" where
  "top_port node_count base_dag_port =
     sat_add (ucast base_dag_port) (sat_mul (sat_sub (ucast node_count) 1) 10)"

text \<open>One iteration: fresh signer, entry, key file written and read back.\<close>

definition generate_entry ::
  "('fs, 'sg) KeyEnv \<Rightarrow> string \<Rightarrow> u16 \<Rightarrow> bytes \<Rightarrow> nat \<Rightarrow> 'fs \<Rightarrow> (CommitteeError + ValidatorEntry) \<times> 'fs" where
  "generate_entry ke host base_dag_port seed i fs =
     (let signer = ke_signer ke seed in
      case checked_add base_dag_port (sat_mul (of_nat i) 10) of
        None \<Rightarrow> (Inl (CInvalid ''dag port range overflow''), fs)
      | Some port \<Rightarrow>
      (case encode_pubkey (ke_public_key ke signer) of
         Inl e \<Rightarrow> (Inl e, fs)
       | Inr public_key \<Rightarrow>
       (case ke_ser_signer ke signer of
          Inl e \<Rightarrow> (Inl (CIo e), fs)
        | Inr key_json \<Rightarrow>
        (case ke_write ke fs (key_filename (i + 1)) key_json of
           (Inl e, fs') \<Rightarrow> (Inl (CIo e), fs')
         | (Inr _, fs') \<Rightarrow>
             (case load_signer ke fs' (key_filename (i + 1)) of
                Inl e \<Rightarrow> (Inl e, fs')
              | Inr _ \<Rightarrow>
                  (Inr \<lparr>ve_id = ''0x'' @ decimal (i + 1), ve_host = host, ve_port = port,
                        ve_public_key = public_key\<rparr>, fs'))))))"

fun generate_entries ::
  "('fs, 'sg) KeyEnv \<Rightarrow> string \<Rightarrow> u16 \<Rightarrow> bytes list \<Rightarrow> nat \<Rightarrow> 'fs \<Rightarrow> (CommitteeError + DagCommittee) \<times> 'fs" where
  "generate_entries ke host base [] i fs = (Inr [], fs)"
| "generate_entries ke host base (seed # seeds) i fs =
     (case generate_entry ke host base seed i fs of
        (Inl e, fs') \<Rightarrow> (Inl e, fs')
      | (Inr entry, fs') \<Rightarrow>
          (case generate_entries ke host base seeds (i + 1) fs' of
             (Inl e, fs'') \<Rightarrow> (Inl e, fs'')
           | (Inr es, fs'') \<Rightarrow> (Inr (entry # es), fs'')))"

text \<open>The seeds are the random bytes drawn for the validators, one per validator.\<close>

definition generate_committee ::
  "('fs, 'sg) KeyEnv \<Rightarrow> bytes list \<Rightarrow> string \<Rightarrow> u16 \<Rightarrow> 'fs \<Rightarrow> (CommitteeError + DagCommittee) \<times> 'fs" where
  "generate_committee ke seeds host base_dag_port fs =
     (let node_count = length seeds; top = top_port (of_nat node_count) base_dag_port in
      if node_count < 4
      then (Inl (CInvalid (''need at least 4 validators for quorum, got '' @ decimal node_count)), fs)
      else if sat_mul top 10 > 65535
      then (Inl (CInvalid (''dag ports '' @ decimal (unat base_dag_port) @ ''..='' @ decimal (unat top)
             @ '' overflow the mesh source-port range (listen * 10 must fit u16); use a base port below ~''
             @ decimal (unat (sat_sub (6553 :: u32) (sat_mul (sat_sub (of_nat node_count) 1) 10))))), fs)
      else case ke_mkdir ke fs of (Inl e, fs0) \<Rightarrow> (Inl (CIo e), fs0) | (Inr _, fs0) \<Rightarrow>
      (case generate_entries ke host base_dag_port seeds 0 fs0 of
         (Inl e, fs1) \<Rightarrow> (Inl e, fs1)
       | (Inr authorities, fs1) \<Rightarrow>
         (case ke_ser_committee ke authorities of
            Inl e \<Rightarrow> (Inl (CIo e), fs1)
          | Inr committee_json \<Rightarrow>
            (case ke_write ke fs1 COMMITTEE_FILENAME committee_json of
               (Inl e, fs2) \<Rightarrow> (Inl (CIo e), fs2)
             | (Inr _, fs2) \<Rightarrow> (Inr authorities, fs2)))))"

fun position_from :: "('a \<Rightarrow> bool) \<Rightarrow> 'a list \<Rightarrow> nat \<Rightarrow> nat option" where
  "position_from P [] i = None"
| "position_from P (y # ys) i = (if P y then Some i else position_from P ys (i + 1))"

definition load_validator ::
  "('fs, 'sg) KeyEnv \<Rightarrow> 'fs \<Rightarrow> string \<Rightarrow> string \<Rightarrow> CommitteeError + 'sg LoadedValidator" where
  "load_validator ke fs committee_path key_path =
     res_bind (map_err CIo (ke_read ke fs committee_path)) (\<lambda>raw.
     res_bind (map_err CInvalid (ke_de_committee ke raw)) (\<lambda>committee.
     res_bind (load_signer ke fs key_path) (\<lambda>signer.
     res_bind (encode_pubkey (ke_public_key ke signer)) (\<lambda>own_pubkey.
     res_bind (ok_or (CInvalid (''key '' @ key_path @ '' matches no validator in '' @ committee_path))
                (position_from (\<lambda>e. ve_public_key e = own_pubkey) committee 0)) (\<lambda>index.
     let entry = committee ! index in
     res_bind (to_mysticeti ke committee) (\<lambda>infos.
       Inr \<lparr>lv_index = index, lv_id = ve_id entry, lv_authority = of_nat index, lv_signer = signer,
            lv_committee = infos, lv_dag_addresses = map (\<lambda>e. (ve_host e, ve_port e)) committee,
            lv_own_address = (ve_host entry, ve_port entry)\<rparr>))))))"

section \<open>Decimal names are distinct\<close>

definition decimal_value :: "string \<Rightarrow> nat" where
  "decimal_value s = foldl (\<lambda>a c. 10 * a + (of_char c - 48)) 0 s"

lemma decimal_digit: "d < 10 \<Longrightarrow> (of_char (''0123456789'' ! d) :: nat) = 48 + d"
proof -
  assume "d < 10"
  then have "d \<in> {0, 1, 2, 3, 4, 5, 6, 7, 8, 9}" by auto
  then show ?thesis by (elim insertE emptyE) simp_all
qed

lemma decimal_value_decimal: "decimal_value (decimal n) = n"
proof (induction n rule: decimal.induct)
  case (1 n)
  show ?case
  proof (cases "n < 10")
    case True
    then show ?thesis by (subst decimal.simps) (simp add: decimal_value_def decimal_digit)
  next
    case False
    with 1 have "decimal_value (decimal (n div 10)) = n div 10" by simp
    with False show ?thesis by (subst decimal.simps) (simp add: decimal_value_def decimal_digit)
  qed
qed

lemma decimal_inject: "decimal m = decimal n \<longleftrightarrow> m = n"
  by (metis decimal_value_decimal)

lemma key_filename_inject: "key_filename m = key_filename n \<longleftrightarrow> m = n"
  by (simp add: key_filename_def decimal_inject)

lemma key_filename_committee: "key_filename m \<noteq> COMMITTEE_FILENAME"
  by (simp add: key_filename_def COMMITTEE_FILENAME_def)

section \<open>Ports\<close>

lemma top_port_bound:
  assumes "count < 2 ^ 32" and "0 < count" and "\<not> sat_mul (top_port (of_nat count) base) 10 > 65535"
  shows "(unat base + 10 * (count - 1)) * 10 \<le> 65535"
proof -
  have c: "unat (ucast (of_nat count :: u64) :: u32) = count"
    using assms(1) by (simp add: unsigned_ucast_eq unsigned_of_nat take_bit_nat_eq_self)
  have b: "unat (ucast base :: u32) = unat base" by (simp add: unat_ucast_up)
  have "unat (sat_mul (top_port (of_nat count) base) 10) \<le> 65535"
    using assms(3) by (simp add: not_less word_le_nat_alt)
  moreover have "unat (top_port (of_nat count) base) = min (unat base + min ((count - 1) * 10) (2 ^ 32 - 1)) (2 ^ 32 - 1)"
    by (simp add: top_port_def unat_sat_add unat_sat_mul unat_sat_sub c b)
  ultimately show ?thesis by (simp add: unat_sat_mul min_def split: if_splits)
qed

lemma entry_port:
  assumes "(unat base + 10 * i) * 10 \<le> 65535"
    and "checked_add base (sat_mul (of_nat i :: u16) 10) = Some port"
  shows "unat port = unat base + 10 * i"
proof -
  have i: "unat (of_nat i :: u16) = i" using assms(1) by (simp add: unat_of_nat)
  then have m: "unat (sat_mul (of_nat i :: u16) 10) = 10 * i" using assms(1) by (simp add: unat_sat_mul)
  from assms(2) show ?thesis using m by (auto simp: checked_add_eq_Some unat_word_ariths)
qed

section \<open>The generated entries\<close>

lemma generate_entry_ok:
  assumes "generate_entry ke host base seed i fs = (Inr e, fs')"
  obtains kj where "checked_add base (sat_mul (of_nat i) 10) = Some (ve_port e)"
    "ve_id e = ''0x'' @ decimal (i + 1)" "ve_host e = host"
    "length (ke_public_key ke (ke_signer ke seed)) = 32"
    "ve_public_key e = hex_encode (ke_public_key ke (ke_signer ke seed))"
    "ke_ser_signer ke (ke_signer ke seed) = Inr kj" "ke_write ke fs (key_filename (i + 1)) kj = (Inr (), fs')"
  using assms
  by (auto simp: generate_entry_def Let_def encode_pubkey_def split: option.splits sum.splits prod.splits if_splits)

lemma generate_entries_ok:
  assumes "generate_entries ke host base seeds i fs = (Inr es, fs')"
  shows "length es = length seeds \<and> (\<forall>j < length seeds.
      checked_add base (sat_mul (of_nat (i + j)) 10) = Some (ve_port (es ! j))
      \<and> ve_id (es ! j) = ''0x'' @ decimal (i + j + 1) \<and> ve_host (es ! j) = host
      \<and> length (ke_public_key ke (ke_signer ke (seeds ! j))) = 32
      \<and> ve_public_key (es ! j) = hex_encode (ke_public_key ke (ke_signer ke (seeds ! j))))"
  using assms
proof (induction seeds arbitrary: i fs es)
  case (Cons seed seeds)
  from Cons.prems obtain e fs1 es' where e: "generate_entry ke host base seed i fs = (Inr e, fs1)"
      and rest: "generate_entries ke host base seeds (i + 1) fs1 = (Inr es', fs')" and es: "es = e # es'"
    by (auto split: prod.splits sum.splits)
  from e obtain kj where one: "checked_add base (sat_mul (of_nat i) 10) = Some (ve_port e)"
    "ve_id e = ''0x'' @ decimal (i + 1)" "ve_host e = host"
    "length (ke_public_key ke (ke_signer ke seed)) = 32"
    "ve_public_key e = hex_encode (ke_public_key ke (ke_signer ke seed))" by (rule generate_entry_ok)
  from Cons.IH [OF rest] one show ?case by (auto simp: es nth_Cons add.left_commute split: nat.split)
qed simp

text \<open>Files of a directory: a write is what a read returns, other files are as before.\<close>

definition files_ok :: "('fs, 'sg) KeyEnv \<Rightarrow> bool" where
  "files_ok ke \<longleftrightarrow> (\<forall>fs p b fs' q. ke_write ke fs p b = (Inr (), fs') \<longrightarrow>
     ke_read ke fs' q = (if q = p then Inr b else ke_read ke fs q))"

definition key_json_ok :: "('fs, 'sg) KeyEnv \<Rightarrow> bool" where
  "key_json_ok ke \<longleftrightarrow> (\<forall>sg j. ke_ser_signer ke sg = Inr j \<longrightarrow> ke_de_signer ke j = Inr sg)
     \<and> (\<forall>c j. ke_ser_committee ke c = Inr j \<longrightarrow> ke_de_committee ke j = Inr c)
     \<and> (\<forall>sg. ke_pk_check ke (ke_public_key ke sg) = Inr ())"

lemma generate_entries_files:
  assumes "files_ok ke" and "key_json_ok ke" and "generate_entries ke host base seeds i fs = (Inr es, fs')"
  shows "(\<forall>j < length seeds. load_signer ke fs' (key_filename (i + j + 1)) = Inr (ke_signer ke (seeds ! j)))
    \<and> (\<forall>m \<le> i. ke_read ke fs' (key_filename m) = ke_read ke fs (key_filename m))"
  using assms(3)
proof (induction seeds arbitrary: i fs es)
  case (Cons seed seeds)
  from Cons.prems obtain e fs1 es' where e: "generate_entry ke host base seed i fs = (Inr e, fs1)"
      and rest: "generate_entries ke host base seeds (i + 1) fs1 = (Inr es', fs')"
    by (auto split: prod.splits sum.splits)
  from e obtain kj where kj: "ke_ser_signer ke (ke_signer ke seed) = Inr kj"
      "ke_write ke fs (key_filename (i + 1)) kj = (Inr (), fs1)" by (rule generate_entry_ok)
  have read: "ke_read ke fs1 q = (if q = key_filename (i + 1) then Inr kj else ke_read ke fs q)" for q
    using assms(1) kj(2) by (simp add: files_ok_def)
  have own: "ke_read ke fs' (key_filename (i + 1)) = Inr kj"
    using Cons.IH [OF rest] read by simp
  have "load_signer ke fs' (key_filename (i + 1)) = Inr (ke_signer ke seed)"
    using own kj(1) assms(2) by (simp add: load_signer_def key_json_ok_def)
  moreover have "ke_read ke fs' (key_filename m) = ke_read ke fs (key_filename m)" if "m \<le> i" for m
    using Cons.IH [OF rest] read [of "key_filename m"] that by (simp add: key_filename_inject)
  ultimately show ?case using Cons.IH [OF rest] by (auto simp: nth_Cons split: nat.split)
qed simp

lemma generate_committee_ok:
  assumes "generate_committee ke seeds host base fs = (Inr es, fs')"
  obtains fs0 fs1 j where "4 \<le> length seeds" "\<not> sat_mul (top_port (of_nat (length seeds)) base) 10 > 65535"
    "generate_entries ke host base seeds 0 fs0 = (Inr es, fs1)" "ke_ser_committee ke es = Inr j"
    "ke_write ke fs1 COMMITTEE_FILENAME j = (Inr (), fs')"
  using assms
  by (auto simp: generate_committee_def Let_def split: if_splits prod.splits sum.splits)

lemma position_from_unique:
  assumes "i < length xs" "P (xs ! i)" "\<And>j. j < length xs \<Longrightarrow> P (xs ! j) \<Longrightarrow> j = i"
  shows "position_from P xs k = Some (k + i)"
  using assms
proof (induction xs arbitrary: i k)
  case (Cons y ys)
  show ?case
  proof (cases i)
    case 0
    with Cons.prems show ?thesis by simp
  next
    case (Suc i')
    with Cons.prems(3) [of 0] have "\<not> P y" by auto
    moreover have "position_from P ys (k + 1) = Some (k + 1 + i')"
    proof (rule Cons.IH)
      show "i' < length ys" "P (ys ! i')" using Cons.prems(1,2) Suc by simp_all
      show "j = i'" if "j < length ys" "P (ys ! j)" for j using Cons.prems(3) [of "Suc j"] that Suc by simp
    qed
    ultimately show ?thesis by (simp add: Suc)
  qed
qed simp

lemma authority_infos_exact:
  assumes "\<And>e. e \<in> set es \<Longrightarrow> decode_pubkey ke (ve_public_key e) = Inr (f e)"
  shows "authority_infos ke es = Inr (map (\<lambda>e. (1, f e)) es)"
  using assms by (induction es) simp_all

lemma hex_encode_inject: "hex_encode xs = hex_encode ys \<longleftrightarrow> xs = ys"
  by (metis hex_decode_encode_aux(1) sum.inject(2))

section \<open>Properties\<close>

text \<open>A directory in memory with trivial keys and a self-delimiting codec of the committee.\<close>

definition enc_char :: "char enc" where "enc_char c = enc_word 1 (of_nat (of_char c) :: u8)"
definition dec_char :: "char dec" where "dec_char bs = map_option (apfst (\<lambda>w :: u8. char_of (unat w))) (dec_word 1 bs)"

lemma delimited_char [delim]: "delimited enc_char dec_char"
proof -
  have "char_of (unat (of_nat (of_char c) :: u8)) = c" for c
    using nat_of_char_less_256 [of c] by (simp add: unat_of_nat)
  then show ?thesis
    using delimitedD [OF delimited_word [where 'a = 8, of 1]] by (simp add: delimited_def enc_char_def dec_char_def)
qed

definition enc_committee :: "DagCommittee enc" where
  "enc_committee = enc_list (enc_via (\<lambda>e. (ve_id e, ve_host e, ve_port e, ve_public_key e))
     (enc_pair (enc_list enc_char) (enc_pair (enc_list enc_char) (enc_pair (enc_word 2) (enc_list enc_char)))))"
definition dec_committee :: "DagCommittee dec" where
  "dec_committee = dec_list (dec_via (\<lambda>(i, h, p, k). \<lparr>ve_id = i, ve_host = h, ve_port = p, ve_public_key = k\<rparr>)
     (dec_pair (dec_list dec_char) (dec_pair (dec_list dec_char) (dec_pair (dec_word 2) (dec_list dec_char)))))"

lemma delimited_committee: "delimited enc_committee dec_committee"
  unfolding enc_committee_def dec_committee_def
  by (rule delimited_list, rule delimited_via, (intro delim; simp)) simp

definition mem_keys :: "((string \<rightharpoonup> bytes), bytes) KeyEnv" where
  "mem_keys = \<lparr>ke_mkdir = (\<lambda>fs. (Inr (), fs)), ke_write = (\<lambda>fs p b. (Inr (), fs(p \<mapsto> b))),
     ke_read = (\<lambda>fs p. case fs p of None \<Rightarrow> Inl ''not found'' | Some b \<Rightarrow> Inr b),
     ke_signer = (\<lambda>b. b), ke_public_key = (\<lambda>b. b), ke_pk_check = (\<lambda>_. Inr ()),
     ke_ser_signer = Inr, ke_de_signer = Inr, ke_ser_committee = Inr \<circ> enc_committee,
     ke_de_committee = dec_result dec_committee\<rparr>"

lemma mem_keys_ok: "files_ok mem_keys" "key_json_ok mem_keys"
  by (simp_all add: files_ok_def key_json_ok_def mem_keys_def dec_result_enc [OF delimited_committee])

definition sample_seeds :: "bytes list" where
  "sample_seeds = [replicate 32 1, replicate 32 2, replicate 32 3, replicate 32 4]"

lemma sample_keygen: "\<exists>es fs. generate_committee mem_keys sample_seeds ''h'' 3500 Map.empty = (Inr es, fs)"
proof -
  have entry: "\<exists>e fs'. generate_entry mem_keys ''h'' 3500 seed i fs = (Inr e, fs')"
    if "length seed = 32" "i < 4" for seed i fs
  proof -
    have "i \<in> {0, 1, 2, 3}" using that(2) by auto
    then have "\<exists>port. checked_add (3500 :: u16) (sat_mul (of_nat i) 10) = Some port"
      by (elim insertE emptyE) (simp_all add: checked_add_def sat_mul_def unat_minus_one_eq)
    then show ?thesis using that(1)
      by (auto simp: generate_entry_def mem_keys_def encode_pubkey_def load_signer_def Let_def)
  qed
  have "\<exists>es fs'. generate_entries mem_keys ''h'' 3500 seeds i fs = (Inr es, fs')"
    if "\<And>s. s \<in> set seeds \<Longrightarrow> length s = 32" "i + length seeds \<le> 4" for seeds i fs
    using that
  proof (induction seeds arbitrary: i fs)
    case (Cons s seeds)
    obtain e fs1 where e: "generate_entry mem_keys ''h'' 3500 s i fs = (Inr e, fs1)"
      using entry [of s i fs] Cons.prems by auto
    obtain es fs2 where "generate_entries mem_keys ''h'' 3500 seeds (i + 1) fs1 = (Inr es, fs2)"
      using Cons.IH [of "i + 1" fs1] Cons.prems by auto
    with e show ?case by simp
  qed simp
  moreover have "length s = 32" if "s \<in> set sample_seeds" for s using that by (auto simp: sample_seeds_def)
  moreover have "0 + length sample_seeds \<le> 4" by (simp add: sample_seeds_def)
  ultimately obtain es fs1 where
    "generate_entries mem_keys ''h'' 3500 sample_seeds 0 Map.empty = (Inr es, fs1)" by blast
  moreover have "\<not> sat_mul (top_port 4 3500) 10 > 65535"
    by (simp add: top_port_def sat_mul_def sat_add_def sat_sub_def unat_minus_one_eq)
  moreover have "length sample_seeds = 4" by (simp add: sample_seeds_def)
  ultimately show ?thesis by (simp add: generate_committee_def Let_def) (simp add: mem_keys_def)
qed

text \<open>Ids, hosts, ports and keys of a generated committee, the ports as exact integers.\<close>

lemma generated_entries:
  assumes "length seeds < 2 ^ 32" and "generate_committee ke seeds host base fs = (Inr es, fs')"
  shows "4 \<le> length es" "length es = length seeds"
    and "i < length es \<Longrightarrow> ve_id (es ! i) = ''0x'' @ decimal (i + 1) \<and> ve_host (es ! i) = host
      \<and> unat (ve_port (es ! i)) = unat base + 10 * i \<and> unat (ve_port (es ! i)) * 10 \<le> 65535
      \<and> length (ke_public_key ke (ke_signer ke (seeds ! i))) = 32
      \<and> ve_public_key (es ! i) = hex_encode (ke_public_key ke (ke_signer ke (seeds ! i)))"
proof -
  from assms(2) obtain fs0 fs1 where c: "4 \<le> length seeds"
      "\<not> sat_mul (top_port (of_nat (length seeds)) base) 10 > 65535"
      "generate_entries ke host base seeds 0 fs0 = (Inr es, fs1)" by (rule generate_committee_ok)
  note es = generate_entries_ok [OF c(3)]
  then show len: "length es = length seeds" by simp
  show "4 \<le> length es" unfolding len by (rule c(1))
  have "0 < length seeds" using c(1) by linarith
  from top_port_bound [OF assms(1) this c(2)] have top: "(unat base + 10 * (length seeds - 1)) * 10 \<le> 65535" .
  assume i: "i < length es"
  with top len have b: "(unat base + 10 * i) * 10 \<le> 65535" by simp
  from entry_port [OF this] es i have "unat (ve_port (es ! i)) = unat base + 10 * i" by simp
  with es b i show "ve_id (es ! i) = ''0x'' @ decimal (i + 1) \<and> ve_host (es ! i) = host
      \<and> unat (ve_port (es ! i)) = unat base + 10 * i \<and> unat (ve_port (es ! i)) * 10 \<le> 65535
      \<and> length (ke_public_key ke (ke_signer ke (seeds ! i))) = 32
      \<and> ve_public_key (es ! i) = hex_encode (ke_public_key ke (ke_signer ke (seeds ! i)))" by simp
qed

text \<open>What the key file of validator \<open>i\<close> stands for: the whole identity, every member spelled out.\<close>

definition own_identity :: "('fs, 'sg) KeyEnv \<Rightarrow> string \<Rightarrow> u16 \<Rightarrow> bytes list \<Rightarrow> nat \<Rightarrow> 'sg LoadedValidator" where
  "own_identity ke host base seeds i =
     \<lparr>lv_index = i, lv_id = ''0x'' @ decimal (i + 1), lv_authority = of_nat i, lv_signer = ke_signer ke (seeds ! i),
      lv_committee = map (\<lambda>s. (1, ke_public_key ke (ke_signer ke s))) seeds,
      lv_dag_addresses = map (\<lambda>k. (host, of_nat (unat base + 10 * k))) [0..<length seeds],
      lv_own_address = (host, of_nat (unat base + 10 * i))\<rparr>"

lemma keygen_loads:
  assumes "files_ok ke" and "key_json_ok ke"
    and "distinct (map (\<lambda>s. ke_public_key ke (ke_signer ke s)) seeds)" and "length seeds < 2 ^ 32"
    and "generate_committee ke seeds host base fs = (Inr es, fs')" and "i < length seeds"
  shows "load_validator ke fs' COMMITTEE_FILENAME (key_filename (i + 1)) = Inr (own_identity ke host base seeds i)"
proof -
  from assms(5) obtain fs0 fs1 j where c: "4 \<le> length seeds"
      "generate_entries ke host base seeds 0 fs0 = (Inr es, fs1)" "ke_ser_committee ke es = Inr j"
      "ke_write ke fs1 COMMITTEE_FILENAME j = (Inr (), fs')" by (rule generate_committee_ok)
  note es = generated_entries [OF assms(4,5)]
  have port: "ve_port (es ! k) = of_nat (unat base + 10 * k)" if "k < length es" for k
  proof -
    have "unat (ve_port (es ! k)) = unat base + 10 * k" using es(3) [OF that] by blast
    then have "of_nat (unat (ve_port (es ! k))) = (of_nat (unat base + 10 * k) :: u16)" by (rule arg_cong)
    then show ?thesis by simp
  qed
  have read: "ke_read ke fs' q = (if q = COMMITTEE_FILENAME then Inr j else ke_read ke fs1 q)" for q
    using assms(1) c(4) by (simp add: files_ok_def)
  have committee: "ke_de_committee ke j = Inr es" using assms(2) c(3) by (simp add: key_json_ok_def)
  have signer: "load_signer ke fs' (key_filename (i + 1)) = Inr (ke_signer ke (seeds ! i))"
    using generate_entries_files [OF assms(1,2) c(2)] assms(6)
    by (simp add: load_signer_def read key_filename_committee)
  let ?pk = "\<lambda>s. ke_public_key ke (ke_signer ke s)"
  have own: "encode_pubkey (?pk (seeds ! i)) = Inr (hex_encode (?pk (seeds ! i)))"
    using es assms(6) by (simp add: encode_pubkey_def)
  have pos: "position_from (\<lambda>e. ve_public_key e = hex_encode (?pk (seeds ! i))) es 0 = Some (0 + i)"
  proof (rule position_from_unique)
    show "k = i" if "k < length es" "ve_public_key (es ! k) = hex_encode (?pk (seeds ! i))" for k
      using that es assms(3,6) by (auto simp: hex_encode_inject distinct_conv_nth)
  qed (use es assms(6) in auto)
  have "decode_pubkey ke (ve_public_key e) = Inr (projr (hex_decode (ve_public_key e)))" if "e \<in> set es" for e
  proof -
    from that es(2) obtain k where "e = es ! k" "k < length seeds" by (auto simp: in_set_conv_nth)
    with es(2) es(3) [of k] assms(2) show ?thesis
      by (auto simp: decode_pubkey_def hex_decode32_def hex_decode_encode_aux key_json_ok_def)
  qed
  from authority_infos_exact [of es ke, OF this]
  have "authority_infos ke es = Inr (map (\<lambda>e. (1, projr (hex_decode (ve_public_key e)))) es)" .
  moreover have "map (\<lambda>e. (1 :: nat, projr (hex_decode (ve_public_key e)))) es = map (\<lambda>s. (1, ?pk s)) seeds"
    using es by (intro nth_equalityI) (simp_all add: hex_decode_encode_aux)
  moreover have "map (\<lambda>e. (ve_host e, ve_port e)) es = map (\<lambda>k. (host, of_nat (unat base + 10 * k))) [0..<length seeds]"
    using es port by (intro nth_equalityI) simp_all
  ultimately show ?thesis
    using es(1,2) es(3) [of i] port [of i] assms(6) pos own signer committee
    by (simp add: load_validator_def read to_mysticeti_def own_identity_def Let_def)
qed

lemma sample_load:
  assumes "i < 4"
  shows "\<exists>lv. load_validator mem_keys (snd (generate_committee mem_keys sample_seeds ''h'' 3500 Map.empty))
    COMMITTEE_FILENAME (key_filename (i + 1)) = Inr lv"
proof -
  obtain es fs where g: "generate_committee mem_keys sample_seeds ''h'' 3500 Map.empty = (Inr es, fs)"
    using sample_keygen by blast
  have d: "distinct (map (\<lambda>s. ke_public_key mem_keys (ke_signer mem_keys s)) sample_seeds)"
    by (simp add: mem_keys_def sample_seeds_def)
  have "length sample_seeds < 2 ^ 32" "i < length sample_seeds" using assms by (simp_all add: sample_seeds_def)
  from keygen_loads [OF mem_keys_ok d this(1) g this(2)] g show ?thesis by auto
qed

text \<open>
  Committee layout: a generated committee has one entry per validator and at least four, with
  ids \<open>0x1\<close>, \<open>0x2\<close>, \<dots> and ports on a stride of ten from the base port, as exact integers; ids and ports
  are distinct, and ten times every port, the mesh's source port, still fits a port number.
\<close>

theorem keygen_layout:
  assumes "length seeds < 2 ^ 32" and "generate_committee ke seeds host base fs = (Inr es, fs')"
  shows "4 \<le> length es \<and> length es = length seeds
    \<and> (\<forall>i < length es. ve_id (es ! i) = ''0x'' @ decimal (i + 1) \<and> ve_host (es ! i) = host
        \<and> unat (ve_port (es ! i)) = unat base + 10 * i \<and> unat (ve_port (es ! i)) * 10 \<le> 65535)
    \<and> distinct (map ve_port es) \<and> distinct (map ve_id es)"
proof -
  note es = generated_entries [OF assms]
  have port: "unat (ve_port (es ! i)) = unat base + 10 * i" if "i < length es" for i using es(3) [OF that] by blast
  have all: "\<forall>i < length es. ve_id (es ! i) = ''0x'' @ decimal (i + 1) \<and> ve_host (es ! i) = host
        \<and> unat (ve_port (es ! i)) = unat base + 10 * i \<and> unat (ve_port (es ! i)) * 10 \<le> 65535"
    using es(3) by blast
  have d1: "distinct (map ve_port es)"
    unfolding distinct_conv_nth length_map
  proof (intro allI impI)
    fix i j assume "i < length es" "j < length es" "i \<noteq> j"
    with port [of i] port [of j] have "unat (ve_port (es ! i)) \<noteq> unat (ve_port (es ! j))" by simp
    with \<open>i < length es\<close> \<open>j < length es\<close> show "map ve_port es ! i \<noteq> map ve_port es ! j" by auto
  qed
  have d2: "distinct (map ve_id es)"
    using es(3) by (auto simp: distinct_conv_nth decimal_inject)
  show ?thesis by (intro conjI es(1,2) all d1 d2)
qed

theorem keygen_layout_witness:
  "\<exists>es fs. generate_committee mem_keys sample_seeds ''h'' 3500 Map.empty = (Inr es, fs)
     \<and> length es = 4 \<and> unat (ve_port (es ! 3)) = 3530"
proof -
  obtain es fs where g: "generate_committee mem_keys sample_seeds ''h'' 3500 Map.empty = (Inr es, fs)"
    using sample_keygen by blast
  have len: "length sample_seeds < 2 ^ 32" by (simp add: sample_seeds_def)
  have "length es = 4 \<and> unat (ve_port (es ! 3)) = 3530"
    using keygen_layout [OF len g] by (simp add: sample_seeds_def)
  with g show ?thesis by blast
qed

end
