(* ===== verification/Dag.thy ===== *)
theory Dag
  imports Validator Committee
begin

text \<open>
  The consensus wiring around the commit loop: the in-process mesh of \<^verbatim>\<open>crates/consensus/src/ordering.rs\<close>
  (\<open>DagOrdering\<close>: creation, submission, rounds) and the start of a networked validator in
  \<^verbatim>\<open>crates/consensus/src/validator.rs\<close> (\<open>ValidatorNode::spawn\<close>, the mempool task, the heartbeat). The cores of the DAG
  and its network are third-party code and arguments of the definitions.
\<close>

section \<open>The in-process mesh\<close>

text \<open>
  \<open>mo_authorities\<close> are the authorities of a committee of \<open>n\<close> members with stake one each, \<open>mo_open\<close> opens the core of an
  authority with an ephemeral store and no signatures, and \<open>mo_try_send\<close> puts a batch into the bounded mempool
  channel of a core.
\<close>

record ('auth, 'core, 'r) MeshOps =
  mo_authorities :: "nat \<Rightarrow> 'auth list"
  mo_open :: "nat \<Rightarrow> 'auth \<Rightarrow> 'core"
  mo_try_send :: "'core \<Rightarrow> bytes list \<Rightarrow> string + 'core"
  mo_core :: "('core, 'r) CoreOps"

record ('auth, 'core) DagOrdering =
  do_authorities :: "'auth list"
  do_cores :: "'core list"

definition dag_new :: "('auth, 'core, 'r) MeshOps \<Rightarrow> nat \<Rightarrow> ('auth, 'core) DagOrdering outcome" where
  "dag_new mo n_validators =
     (if n_validators < 4 then Panics
      else let authorities = mo_authorities mo n_validators
           in Returns \<lparr>do_authorities = authorities, do_cores = map (mo_open mo n_validators) authorities\<rparr>)"

definition validator_count :: "('auth, 'core) DagOrdering \<Rightarrow> nat" where
  "validator_count d = length (do_authorities d)"

text \<open>An index out of range and a full mempool are panics.\<close>

definition submit ::
  "('auth, 'core, 'r) MeshOps \<Rightarrow> ('auth, 'core) DagOrdering \<Rightarrow> nat \<Rightarrow> bytes list \<Rightarrow> ('auth, 'core) DagOrdering outcome" where
  "submit mo d authority_index payloads =
     (if authority_index \<ge> length (do_cores d) then Panics
      else case mo_try_send mo (do_cores d ! authority_index) payloads of
             Inl _ \<Rightarrow> Panics
           | Inr core \<Rightarrow> Returns (d\<lparr>do_cores := (do_cores d)[authority_index := core]\<rparr>))"

definition dag_rounds ::
  "('auth, 'core, 'r) MeshOps \<Rightarrow> nat \<Rightarrow> ('auth, 'core) DagOrdering
     \<Rightarrow> 'r CommittedSubDag list list \<times> ('auth, 'core) DagOrdering" where
  "dag_rounds mo rounds d =
     (let (cores, committed) = run_rounds (mo_core mo) rounds (do_cores d) (map (\<lambda>_. []) (do_cores d))
      in (committed, d\<lparr>do_cores := cores\<rparr>))"

section \<open>Starting a networked validator\<close>

record ValidatorOpts =
  vo_committee_path :: string
  vo_key_path :: string
  vo_dag_wal_dir :: "string option"
  vo_round_timeout :: nat

definition DEFAULT_ROUND_TIMEOUT :: nat where "DEFAULT_ROUND_TIMEOUT = 1"

datatype ValidatorError = CommitteeFailed CommitteeError | DagStorage string

text \<open>
  The DAG side: creation of the log directory, the write-ahead log of an authority (opened with what it recovers, or
  kept in a temporary file), and joining the network with a core over that storage.
\<close>

record ('sg, 'dag) Mesh =
  ms_create_dir_all :: "string \<Rightarrow> string + unit"
  ms_open_storage :: "u64 \<Rightarrow> string \<Rightarrow> (nat \<times> bytes) list \<Rightarrow> string + 'dag"
  ms_ephemeral :: "u64 \<Rightarrow> (nat \<times> bytes) list \<Rightarrow> 'dag"
  ms_join :: "'sg LoadedValidator \<Rightarrow> 'dag \<Rightarrow> nat \<Rightarrow> 'dag"

record ('db, 'h, 'dag) ValidatorNode =
  vn_state :: "('db, 'h) ValidatorState"
  vn_syncer :: 'dag

definition dag_storage ::
  "('sg, 'dag) Mesh \<Rightarrow> ValidatorOpts \<Rightarrow> 'sg LoadedValidator \<Rightarrow> ValidatorError + 'dag" where
  "dag_storage ms opts loaded =
     (case vo_dag_wal_dir opts of
        Some dir \<Rightarrow>
          res_bind (map_err DagStorage (ms_create_dir_all ms dir)) (\<lambda>_.
            map_err DagStorage (ms_open_storage ms (lv_authority loaded) (dir @ ''/wal'') (lv_committee loaded)))
      | None \<Rightarrow> Inr (ms_ephemeral ms (lv_authority loaded) (lv_committee loaded)))"

definition spawn ::
  "('fs, 'sg) KeyEnv \<Rightarrow> 'fs \<Rightarrow> ('sg, 'dag) Mesh \<Rightarrow> ('db, 'h) KanariNode \<Rightarrow> ValidatorOpts
     \<Rightarrow> ValidatorError + ('db, 'h, 'dag) ValidatorNode" where
  "spawn ke fs ms n opts =
     res_bind (map_err CommitteeFailed (load_validator ke fs (vo_committee_path opts) (vo_key_path opts))) (\<lambda>loaded.
     res_bind (dag_storage ms opts loaded) (\<lambda>storage.
       Inr \<lparr>vn_state = start_validator n, vn_syncer = ms_join ms loaded storage (vo_round_timeout opts)\<rparr>))"

text \<open>
  The mempool task: batches from the node's channel, in order, until the core's mempool is gone. The result is the
  mempool and the batches it did not take.
\<close>

fun forward :: "('mp \<Rightarrow> bytes list \<Rightarrow> string + 'mp) \<Rightarrow> bytes list list \<Rightarrow> 'mp \<Rightarrow> 'mp \<times> bytes list list" where
  "forward send [] mp = (mp, [])"
| "forward send (batch # batches) mp =
     (case send mp batch of
        Inl _ \<Rightarrow> (mp, batch # batches)
      | Inr mp' \<Rightarrow> forward send batches mp')"

text \<open>What a heartbeat reports: height and counters, read under the lock.\<close>

definition HEARTBEAT_SECS :: nat where "HEARTBEAT_SECS = 10"

definition heartbeat :: "('db, 'h) KanariNode \<Rightarrow> u64 \<times> u64 \<times> u64 \<times> u64" where
  "heartbeat n = (block_number n, snapshot (n_metrics n))"

section \<open>Lemmas\<close>

lemma length_propose: "length (snd (propose ops cs)) = length cs"
  by (induction cs) (simp_all add: Let_def split_beta)

lemma run_rounds_lengths:
  assumes "length outs = length cores"
  shows "length (fst (run_rounds ops k cores outs)) = length cores \<and> length (snd (run_rounds ops k cores outs)) = length cores"
  using assms
proof (induction k arbitrary: cores outs)
  case (Suc k)
  obtain bs cores1 where p: "propose ops cores = (bs, cores1)" by (cases "propose ops cores")
  with length_propose [of ops cores] have "length cores1 = length cores" by simp
  with Suc p show ?case by (simp add: Let_def)
qed simp

text \<open>A mesh keeps its size, and a run reports one list of commits per validator.\<close>

definition mesh_ok :: "('auth, 'core, 'r) MeshOps \<Rightarrow> bool" where
  "mesh_ok mo \<longleftrightarrow> (\<forall>n. length (mo_authorities mo n) = n)"

definition mesh_size :: "('auth, 'core) DagOrdering \<Rightarrow> nat \<Rightarrow> bool" where
  "mesh_size d n \<longleftrightarrow> validator_count d = n \<and> length (do_cores d) = n"

lemma dag_new_size: "mesh_ok mo \<Longrightarrow> 4 \<le> n \<Longrightarrow> \<exists>d. dag_new mo n = Returns d \<and> mesh_size d n"
  by (auto simp: dag_new_def mesh_ok_def mesh_size_def validator_count_def Let_def)

lemma submit_size: "submit mo d i payloads = Returns d' \<Longrightarrow> mesh_size d n \<Longrightarrow> mesh_size d' n"
  by (auto simp: submit_def mesh_size_def validator_count_def split: if_splits sum.splits)

lemma dag_rounds_length:
  "length (fst (dag_rounds mo k d)) = length (do_cores d)" "mesh_size d n \<Longrightarrow> mesh_size (snd (dag_rounds mo k d)) n"
  using run_rounds_lengths [of "map (\<lambda>_. []) (do_cores d)" "do_cores d" "mo_core mo" k]
  by (simp_all add: dag_rounds_def mesh_size_def validator_count_def Let_def split_beta)

text \<open>
  The agreement that the consensus protocol promises is a promise of the cores, whatever drives them: an execution lets
  any core, at any time, take in what was submitted to it, propose a block, or receive any of the blocks proposed so
  far and commit; in every state that such an execution reaches, of any two cores one has committed a prefix of what
  the other committed.
\<close>

inductive mesh_schedule ::
  "('core, 'r) CoreOps \<Rightarrow> 'core list \<Rightarrow> 'core list \<Rightarrow> 'r DagBlock set \<Rightarrow> 'r CommittedSubDag list list \<Rightarrow> bool" for ops cores where
  start: "mesh_schedule ops cores cores {} (map (\<lambda>_. []) cores)"
| drain: "mesh_schedule ops cores cs pool outs \<Longrightarrow> i < length cs \<Longrightarrow>
    mesh_schedule ops cores (cs[i := co_drain ops (cs ! i)]) pool outs"
| proposal: "mesh_schedule ops cores cs pool outs \<Longrightarrow> i < length cs \<Longrightarrow> co_try_new_block ops (cs ! i) = (b, c) \<Longrightarrow>
    mesh_schedule ops cores (cs[i := c]) (pool \<union> set_option b) outs"
| delivery: "mesh_schedule ops cores cs pool outs \<Longrightarrow> i < length cs \<Longrightarrow> set bs \<subseteq> pool \<Longrightarrow> co_commit ops bs (cs ! i) = (ds, c) \<Longrightarrow>
    mesh_schedule ops cores (cs[i := c]) pool (outs[i := outs ! i @ ds])"

definition comparable :: "'a list list \<Rightarrow> bool" where
  "comparable outs \<longleftrightarrow> (\<forall>i < length outs. \<forall>j < length outs. prefix (outs ! i) (outs ! j) \<or> prefix (outs ! j) (outs ! i))"

definition cores_agree :: "('core, 'r) CoreOps \<Rightarrow> 'core list \<Rightarrow> bool" where
  "cores_agree ops cores \<longleftrightarrow> (\<forall>cs pool outs. mesh_schedule ops cores cs pool outs \<longrightarrow> comparable outs)"

text \<open>The rounds of the mesh are one such execution.\<close>

lemma propose_schedule:
  assumes "mesh_schedule ops cores (pre @ cs) pool outs" and "propose ops cs = (bs, cs')"
  shows "mesh_schedule ops cores (pre @ cs') (pool \<union> set bs) outs"
  using assms
proof (induction cs arbitrary: pre pool bs cs')
  case (Cons c cs)
  obtain b c1 where b: "co_try_new_block ops (co_drain ops c) = (b, c1)" by (cases "co_try_new_block ops (co_drain ops c)")
  obtain bs1 cs1 where r: "propose ops cs = (bs1, cs1)" by (cases "propose ops cs")
  from mesh_schedule.drain [OF Cons.prems(1), of "length pre"]
  have "mesh_schedule ops cores (pre @ co_drain ops c # cs) pool outs" by simp
  from mesh_schedule.proposal [OF this, of "length pre" b c1] b
  have "mesh_schedule ops cores ((pre @ [c1]) @ cs) (pool \<union> set_option b) outs" by simp
  from Cons.IH [OF this r] Cons.prems(2) b r show ?case by (cases b) auto
qed simp

lemma commit_schedule:
  assumes "mesh_schedule ops cores (pre @ cs) pool (done1 @ outs)" "set bs \<subseteq> pool"
    and "length done1 = length pre" "length outs = length cs"
  shows "mesh_schedule ops cores (pre @ map (snd \<circ> co_commit ops bs) cs) pool
    (done1 @ map2 (\<lambda>out r. out @ fst r) outs (map (co_commit ops bs) cs))"
  using assms
proof (induction cs arbitrary: pre done1 outs)
  case (Cons c cs)
  then obtain out outs1 where outs: "outs = out # outs1" by (cases outs) auto
  obtain ds c1 where c: "co_commit ops bs c = (ds, c1)" by (cases "co_commit ops bs c")
  from mesh_schedule.delivery [OF Cons.prems(1) _ Cons.prems(2), of "length pre" ds c1] c Cons.prems(3)
  have "mesh_schedule ops cores ((pre @ [c1]) @ cs) pool ((done1 @ [out @ ds]) @ outs1)"
    by (simp add: outs nth_append list_update_append)
  from Cons.IH [OF this Cons.prems(2)] Cons.prems(3,4) c show ?case by (simp add: outs)
qed simp

lemma rounds_schedule:
  assumes "mesh_schedule ops cores cs pool outs" "length outs = length cs"
  shows "\<exists>pool'. mesh_schedule ops cores (fst (run_rounds ops k cs outs)) pool' (snd (run_rounds ops k cs outs))"
  using assms
proof (induction k arbitrary: cs pool outs)
  case (Suc k)
  obtain bs cs1 where p: "propose ops cs = (bs, cs1)" by (cases "propose ops cs")
  with length_propose [of ops cs] have len: "length cs1 = length cs" by simp
  from propose_schedule [of ops cores "[]"] Suc.prems(1) p have "mesh_schedule ops cores cs1 (pool \<union> set bs) outs" by simp
  from commit_schedule [of ops cores "[]" cs1 "pool \<union> set bs" "[]" outs bs] this Suc.prems(2) len
  have "mesh_schedule ops cores (map snd (map (co_commit ops bs) cs1)) (pool \<union> set bs)
      (map2 (\<lambda>out r. out @ fst r) outs (map (co_commit ops bs) cs1))" by simp
  from Suc.IH [OF this] Suc.prems(2) len p show ?case by (simp add: Let_def)
qed auto

lemma dag_rounds_comparable: "cores_agree (mo_core mo) (do_cores d) \<Longrightarrow> comparable (fst (dag_rounds mo k d))"
  using rounds_schedule [OF mesh_schedule.start, of "do_cores d" "mo_core mo" k]
  unfolding cores_agree_def dag_rounds_def by (auto simp: Let_def split: prod.splits)

text \<open>
  The mempool that \<open>submit\<close> and \<open>drain_submitted_transactions\<close> are about: what was sent to a core waits in its channel,
  and a block proposed after a drain holds all that waited there, as long as it is no more than a block takes.
\<close>

definition mempool_ok :: "('auth, 'core, 'r) MeshOps \<Rightarrow> ('core \<Rightarrow> bytes list) \<Rightarrow> nat \<Rightarrow> bool" where
  "mempool_ok mo channel limit \<longleftrightarrow>
     (\<forall>c batch c'. mo_try_send mo c batch = Inr c' \<longrightarrow> channel c' = channel c @ batch) \<and>
     (\<forall>c b c'. co_try_new_block (mo_core mo) (co_drain (mo_core mo) c) = (Some b, c') \<longrightarrow> length (channel c) \<le> limit \<longrightarrow>
        set (channel c) \<subseteq> set (dg_transactions b))"

lemma propose_member:
  assumes "i < length cs" and "fst (co_try_new_block ops (co_drain ops (cs ! i))) = Some b"
  shows "b \<in> set (fst (propose ops cs))"
  using assms
proof (induction cs arbitrary: i)
  case (Cons c cs)
  show ?case
  proof (cases i)
    case 0
    with Cons.prems show ?thesis by (simp add: Let_def split_beta)
  next
    case (Suc j)
    with Cons.prems Cons.IH [of j] show ?thesis by (auto simp: Let_def split_beta split: option.split)
  qed
qed simp

lemma execute_commits_append: "execute_commits x (cs @ ds) v = execute_commits x ds (execute_commits x cs v)"
  by (simp add: execute_commits_def)

lemma prefix_logs:
  assumes "same_env x y" "working_disk x root_of" "working_disk y root_of" "in_step x roots v w" "prefix cs ds"
  shows "prefix (tx_log (vs_node (execute_commits x cs v))) (tx_log (vs_node (execute_commits y ds w)))"
proof -
  obtain es where ds: "ds = cs @ es" using assms(5) by (auto simp: prefix_def)
  have "tx_log (vs_node (execute_commits x cs v)) = tx_log (vs_node (execute_commits y cs w))"
    using execute_commits_in_step [OF assms(1-4), of cs] by (auto simp: in_step_def dest: tx_log_replica)
  moreover have "kv_ok (x_kv y)" using assms(3) by (simp add: working_disk_def)
  ultimately show ?thesis
    using execute_commits_prefix [of y "execute_commits y cs w" es] by (simp add: ds execute_commits_append)
qed

lemma in_step_sym: "in_step x roots v w \<Longrightarrow> same_env x y \<Longrightarrow> in_step y roots w v"
  by (auto simp: in_step_def intro: same_replica_sym)

lemma spawn_state: "spawn ke fs ms n opts = Inr v \<Longrightarrow> vn_state v = start_validator n"
  by (auto simp: spawn_def res_bind_def split: sum.splits)

text \<open>A submission that a validator accepts is the last batch that the mempool task hands on, after the earlier ones.\<close>

lemma forward_all:
  assumes "\<And>mp batch. send mp batch = Inr (add mp batch)"
  shows "forward send batches mp = (foldl add mp batches, [])"
  by (induction batches arbitrary: mp) (simp_all add: assms)

lemma submission_forwarded:
  assumes "\<And>mp batch. send mp batch = Inr (add mp batch)" and "n_dag_sender n = Some sent"
    and "send_raw_transaction x n raw now = (Inr hash, n')"
  shows "\<exists>batches. n_dag_sender n' = Some batches \<and> hash = keccak256 (x_crypto x) raw
    \<and> forward send batches mp = (add (foldl add mp sent) [raw], [])"
  using assms(2,3) by (auto simp: send_raw_transaction_def forward_all [of send add, OF assms(1)] split: sum.splits)

section \<open>Properties\<close>


text \<open>
  A mesh for which all this holds: the first core proposes one block, holding what it has drained, and every core commits
  the first block it receives. A core is whether it may still propose, whether it has committed, its channel and what
  it has drained.
\<close>

type_synonym toy_core = "bool \<times> bool \<times> bytes list \<times> bytes list"

definition toy_mesh :: "(nat, toy_core, nat) MeshOps" where
  "toy_mesh = \<lparr>mo_authorities = (\<lambda>n. [0..<n]), mo_open = (\<lambda>_ a. (a = 0, False, [], [])),
     mo_try_send = (\<lambda>(p, m, ch, q) batch. Inr (p, m, ch @ batch, q)),
     mo_core = \<lparr>co_drain = (\<lambda>(p, m, ch, q). (p, m, [], q @ ch)),
       co_try_new_block = (\<lambda>(p, m, ch, q). if p
          then (Some \<lparr>dg_reference = 0, dg_timestamp = 100, dg_transactions = q\<rparr>, (False, m, ch, [])) else (None, (p, m, ch, q))),
       co_commit = (\<lambda>bs (p, m, ch, q). if m \<or> bs = [] then ([], (p, m, ch, q))
          else ([\<lparr>sd_anchor = dg_reference (hd bs), sd_blocks = [hd bs]\<rparr>], (p, True, ch, q)))\<rparr>\<rparr>"

lemma toy_mempool: "mempool_ok toy_mesh (\<lambda>(p, m, ch, q). ch) limit"
  by (auto simp: mempool_ok_def toy_mesh_def split: if_splits)

definition toy_inv :: "toy_core list \<Rightarrow> nat DagBlock set \<Rightarrow> nat CommittedSubDag list list \<Rightarrow> bool" where
  "toy_inv cs pool outs \<longleftrightarrow> length outs = length cs \<and> (\<forall>i < length cs. fst (cs ! i) \<longrightarrow> i = 0 \<and> pool = {})
     \<and> (\<exists>b. pool \<subseteq> {b} \<and> (\<forall>i < length cs. outs ! i = [] \<and> \<not> fst (snd (cs ! i))
          \<or> pool = {b} \<and> fst (snd (cs ! i)) \<and> outs ! i = [\<lparr>sd_anchor = dg_reference b, sd_blocks = [b]\<rparr>]))"

lemma toy_inv_cong:
  assumes "length cs' = length cs"
    and "\<And>i. i < length cs \<Longrightarrow> fst (cs' ! i) = fst (cs ! i) \<and> fst (snd (cs' ! i)) = fst (snd (cs ! i))"
  shows "toy_inv cs' pool outs \<longleftrightarrow> toy_inv cs pool outs"
  using assms by (simp add: toy_inv_def)

lemma toy_schedule:
  assumes "mesh_schedule (mo_core toy_mesh) cores cs pool outs" and "toy_inv cores {} (map (\<lambda>_. []) cores)"
  shows "toy_inv cs pool outs"
  using assms
proof (induction rule: mesh_schedule.induct)
  case (drain cs pool outs i)
  have "fst (co_drain (mo_core toy_mesh) c) = fst c \<and> fst (snd (co_drain (mo_core toy_mesh) c)) = fst (snd c)" for c
    by (cases c) (simp add: toy_mesh_def)
  then have "toy_inv (cs[i := co_drain (mo_core toy_mesh) (cs ! i)]) pool outs \<longleftrightarrow> toy_inv cs pool outs"
    by (intro toy_inv_cong length_list_update) (cases "i < length cs"; auto simp: nth_list_update)
  with drain show ?case by simp
next
  case (proposal cs pool outs i b c)
  obtain p m ch q where ci: "cs ! i = (p, m, ch, q)" by (cases "cs ! i") auto
  show ?case
  proof (cases p)
    case True
    with proposal ci have i: "i = 0" "pool = {}" and c: "b = Some \<lparr>dg_reference = 0, dg_timestamp = 100, dg_transactions = q\<rparr>"
        "c = (False, m, ch, [])" and none: "\<forall>j < length cs. outs ! j = [] \<and> \<not> fst (snd (cs ! j))"
      by (auto simp: toy_inv_def toy_mesh_def)
    have "\<not> fst (cs ! j)" if "0 < j" "j < length cs" for j using proposal that by (auto simp: toy_inv_def)
    with none ci proposal show ?thesis by (auto simp: toy_inv_def nth_list_update i c)
  next
    case False
    with proposal ci have "b = None" "c = cs ! i" by (auto simp: toy_mesh_def)
    with proposal show ?thesis by simp
  qed
next
  case (delivery cs pool outs i bs ds c)
  obtain p m ch q where ci: "cs ! i = (p, m, ch, q)" by (cases "cs ! i") auto
  show ?case
  proof (cases "m \<or> bs = []")
    case True
    with delivery ci have "ds = []" "c = cs ! i" by (auto simp: toy_mesh_def)
    with delivery show ?thesis by simp
  next
    case False
    with delivery ci have c: "ds = [\<lparr>sd_anchor = dg_reference (hd bs), sd_blocks = [hd bs]\<rparr>]" "c = (p, True, ch, q)"
      by (auto simp: toy_mesh_def)
    from delivery False have inv: "toy_inv cs pool outs" and hd: "hd bs \<in> pool" by auto
    from inv obtain b where b: "pool \<subseteq> {b}" "\<forall>i < length cs. outs ! i = [] \<and> \<not> fst (snd (cs ! i))
          \<or> pool = {b} \<and> fst (snd (cs ! i)) \<and> outs ! i = [\<lparr>sd_anchor = dg_reference b, sd_blocks = [b]\<rparr>]"
      unfolding toy_inv_def by blast
    with hd have pool: "pool = {b}" "hd bs = b" by auto
    have "outs ! i = []" using b(2) delivery.hyps(2) ci False by auto
    with inv b pool ci c delivery.hyps(2) show ?thesis
      unfolding toy_inv_def by (auto simp: nth_list_update intro!: exI [of _ b])
  qed
qed

lemma toy_agree: "toy_inv cores {} (map (\<lambda>_. []) cores) \<Longrightarrow> cores_agree (mo_core toy_mesh) cores"
  unfolding cores_agree_def comparable_def
proof (intro allI impI, goal_cases)
  case (1 cs pool outs i j)
  from toy_schedule [OF 1(2,1)] 1(3,4) show ?case unfolding toy_inv_def by (metis Nil_prefix prefix_order.refl)
qed


text \<open>The DAG log can be opened for any authority and committee.\<close>

definition storage_opens :: "('sg, 'dag) Mesh \<Rightarrow> ValidatorOpts \<Rightarrow> bool" where
  "storage_opens ms opts \<longleftrightarrow> (\<forall>dir. vo_dag_wal_dir opts = Some dir \<longrightarrow>
     ms_create_dir_all ms dir = Inr () \<and> (\<forall>a c. \<exists>dag. ms_open_storage ms a (dir @ ''/wal'') c = Inr dag))"

lemma dag_storage_opens: "storage_opens ms opts \<Longrightarrow> \<exists>dag. dag_storage ms opts loaded = Inr dag"
  by (cases "vo_dag_wal_dir opts") (auto simp: dag_storage_def storage_opens_def)

text \<open>
  C23. Key generation serves the validators it is for: with files that keep what is written, distinct keys and a DAG log
  that opens, the key file of validator \<open>i\<close> of a generated committee starts a validator that joins the network as exactly
  that validator: index and authority number \<open>i\<close>, id \<open>i + 1\<close>, its own signer, the public keys of all validators in order
  with one unit of stake each, their addresses on ports ten apart from the base port (which fit 16 bits even ten times
  over), its own address among them, and a log opened for authority \<open>i\<close> in the file \<open>wal\<close> of the log directory.
\<close>

theorem generated_committee_joins:
  assumes "files_ok ke" and "key_json_ok ke" and "distinct (map (\<lambda>s. ke_public_key ke (ke_signer ke s)) seeds)"
    and "length seeds < 2 ^ 32" and "generate_committee ke seeds host base fs = (Inr es, fs')" and "i < length seeds"
    and "storage_opens ms opts" and "vo_committee_path opts = COMMITTEE_FILENAME" and "vo_key_path opts = key_filename (i + 1)"
  shows "let committee = map (\<lambda>s. (1, ke_public_key ke (ke_signer ke s))) seeds;
      lv = \<lparr>lv_index = i, lv_id = ''0x'' @ decimal (i + 1), lv_authority = of_nat i, lv_signer = ke_signer ke (seeds ! i),
            lv_committee = committee,
            lv_dag_addresses = map (\<lambda>k. (host, of_nat (unat base + 10 * k))) [0..<length seeds],
            lv_own_address = (host, of_nat (unat base + 10 * i))\<rparr>
    in (unat base + 10 * i) * 10 < 2 ^ 16 \<and>
       (\<exists>dag. (case vo_dag_wal_dir opts of
                 None \<Rightarrow> dag = ms_ephemeral ms (of_nat i) committee
               | Some dir \<Rightarrow> ms_open_storage ms (of_nat i) (dir @ ''/wal'') committee = Inr dag)
          \<and> spawn ke fs' ms n opts
             = Inr \<lparr>vn_state = start_validator n, vn_syncer = ms_join ms lv dag (vo_round_timeout opts)\<rparr>)"
proof -
  let ?lv = "own_identity ke host base seeds i"
  have l: "load_validator ke fs' COMMITTEE_FILENAME (key_filename (i + 1)) = Inr ?lv" by (rule keygen_loads [OF assms(1-6)])
  have port: "(unat base + 10 * i) * 10 < 2 ^ 16"
    using generated_entries(2) [OF assms(4,5)] generated_entries(3) [OF assms(4,5), of i] assms(6) by simp
  obtain dag where dag: "dag_storage ms opts ?lv = Inr dag" using dag_storage_opens [OF assms(7)] by blast
  have "spawn ke fs' ms n opts
      = Inr \<lparr>vn_state = start_validator n, vn_syncer = ms_join ms ?lv dag (vo_round_timeout opts)\<rparr>"
    using l dag assms(8,9) by (simp add: spawn_def)
  moreover from dag assms(7) have "case vo_dag_wal_dir opts of
      None \<Rightarrow> dag = ms_ephemeral ms (lv_authority ?lv) (lv_committee ?lv)
    | Some dir \<Rightarrow> ms_open_storage ms (lv_authority ?lv) (dir @ ''/wal'') (lv_committee ?lv) = Inr dag"
    by (auto simp: dag_storage_def storage_opens_def map_err_def split: option.splits sum.splits)
  ultimately show ?thesis using port unfolding own_identity_def Let_def by (auto split: option.splits)
qed

text \<open>A DAG side that opens every log and remembers the authority that joined.\<close>

definition idle_mesh :: "(bytes, nat) Mesh" where
  "idle_mesh = \<lparr>ms_create_dir_all = (\<lambda>_. Inr ()), ms_open_storage = (\<lambda>a _ _. Inr (unat a)),
     ms_ephemeral = (\<lambda>a _. unat a), ms_join = (\<lambda>lv dag _. lv_index lv)\<rparr>"

lemma idle_storage: "storage_opens idle_mesh opts"
  by (simp add: storage_opens_def idle_mesh_def)

lemma idle_spawn:
  assumes "i < 4" "vo_committee_path opts = COMMITTEE_FILENAME" "vo_key_path opts = key_filename (i + 1)"
  shows "\<exists>v. spawn mem_keys (snd (generate_committee mem_keys sample_seeds ''h'' 3500 Map.empty)) idle_mesh n opts = Inr v"
proof -
  obtain lv where lv: "load_validator mem_keys (snd (generate_committee mem_keys sample_seeds ''h'' 3500 Map.empty))
    COMMITTEE_FILENAME (key_filename (i + 1)) = Inr lv" using sample_load [OF assms(1)] by blast
  obtain dag where "dag_storage idle_mesh opts lv = Inr dag" using dag_storage_opens [OF idle_storage] by blast
  with lv assms(2,3) show ?thesis by (simp add: spawn_def)
qed

theorem generated_committee_joins_witness:
  "\<exists>es fs dag. generate_committee mem_keys sample_seeds ''h'' 3500 Map.empty = (Inr es, fs)
     \<and> spawn mem_keys fs idle_mesh mem_node \<lparr>vo_committee_path = COMMITTEE_FILENAME, vo_key_path = key_filename (3 + 1),
          vo_dag_wal_dir = Some ''d'', vo_round_timeout = DEFAULT_ROUND_TIMEOUT\<rparr>
         = Inr \<lparr>vn_state = start_validator mem_node, vn_syncer = dag\<rparr> \<and> dag = 3"
proof -
  let ?o = "\<lparr>vo_committee_path = COMMITTEE_FILENAME, vo_key_path = key_filename (3 + 1),
          vo_dag_wal_dir = Some ''d'', vo_round_timeout = DEFAULT_ROUND_TIMEOUT\<rparr>"
  obtain es fs where g: "generate_committee mem_keys sample_seeds ''h'' 3500 Map.empty = (Inr es, fs)"
    using sample_keygen by blast
  have d: "distinct (map (\<lambda>s. ke_public_key mem_keys (ke_signer mem_keys s)) sample_seeds)"
    "length sample_seeds < 2 ^ 32" "3 < length sample_seeds"
    by (simp_all add: mem_keys_def sample_seeds_def)
  have o: "vo_committee_path ?o = COMMITTEE_FILENAME" "vo_key_path ?o = key_filename (3 + 1)" by simp_all
  from generated_committee_joins [OF mem_keys_ok d(1,2) g d(3) idle_storage o, of mem_node] g show ?thesis
    by (auto simp: Let_def idle_mesh_def)
qed

end
