(* ===== verification/Cli.thy ===== *)
theory Cli
  imports Fork Dag
begin

text \<open>
  The node binary (\<^verbatim>\<open>crates/kanari-node/src/main.rs\<close>): the parsed command line, the settings of a
  validator, start, fork, reset, keygen and validator mode. The process either ends with a message
  (\<open>fatal\<close>), panics, or reaches the state in which it serves requests; printing is left out. What the host
  provides (environment, files, network, random keys, the logging crate) is a record of arguments.
\<close>

section \<open>How a process ends\<close>

datatype 'a process = Fatal string | Aborts | Runs 'a

definition proc_bind :: "'a process \<Rightarrow> ('a \<Rightarrow> 'b process) \<Rightarrow> 'b process" where
  "proc_bind p f = (case p of Fatal m \<Rightarrow> Fatal m | Aborts \<Rightarrow> Aborts | Runs v \<Rightarrow> f v)"

definition or_fatal :: "('e \<Rightarrow> string) \<Rightarrow> 'e + 'a \<Rightarrow> 'a process" where
  "or_fatal f r = (case r of Inl e \<Rightarrow> Fatal (f e) | Inr v \<Rightarrow> Runs v)"

lemma proc_bind_simps [simp]:
  "proc_bind (Fatal m) f = Fatal m" "proc_bind Aborts f = Aborts" "proc_bind (Runs v) f = f v"
  by (simp_all add: proc_bind_def)

lemma proc_bind_Runs: "proc_bind p f = Runs w \<longleftrightarrow> (\<exists>v. p = Runs v \<and> f v = Runs w)"
  by (cases p) simp_all

lemma or_fatal_simps [simp]: "or_fatal f (Inl e) = Fatal (f e)" "or_fatal f (Inr v) = Runs v"
  by (simp_all add: or_fatal_def)

section \<open>Settings\<close>

definition DEFAULT_FAUCET_ETH :: u128 where "DEFAULT_FAUCET_ETH = 100"
definition FORK_FAUCET_ETH :: u128 where "FORK_FAUCET_ETH = 1000000"

datatype NetworkMode = Devnet | Testnet | Mainnet

fun network_as_str :: "NetworkMode \<Rightarrow> string" where
  "network_as_str Devnet = ''devnet''"
| "network_as_str Testnet = ''testnet''"
| "network_as_str Mainnet = ''mainnet''"

datatype LogLevel = LTrace | LDebug | LInfo | LWarn | LError

fun log_as_str :: "LogLevel \<Rightarrow> string" where
  "log_as_str LTrace = ''trace''"
| "log_as_str LDebug = ''debug''"
| "log_as_str LInfo = ''info''"
| "log_as_str LWarn = ''warn''"
| "log_as_str LError = ''error''"

record ValidatorFileConfig =
  vf_committee :: "string option"
  vf_key :: "string option"
  vf_data_dir :: "string option"
  vf_rpc_host :: "string option"
  vf_rpc_port :: "u16 option"
  vf_log_level :: "string option"
  vf_faucet_key :: "string option"

definition default_file_config :: ValidatorFileConfig where
  "default_file_config = \<lparr>vf_committee = None, vf_key = None, vf_data_dir = None, vf_rpc_host = None,
     vf_rpc_port = None, vf_log_level = None, vf_faucet_key = None\<rparr>"

record ValidatorCli =
  vc_committee :: "string option"
  vc_key :: "string option"
  vc_data_dir :: "string option"
  vc_rpc_port :: "u16 option"
  vc_rpc_host :: "string option"
  vc_faucet_key :: "string option"
  vc_log_level :: "LogLevel option"

record ResolvedValidator =
  vr_committee :: string
  vr_key :: string
  vr_data_dir :: "string option"
  vr_rpc_port :: "u16 option"
  vr_rpc_host :: string
  vr_faucet_key :: "string option"
  vr_log_level :: string

text \<open>\<open>Option::or\<close> and \<open>unwrap_or_else\<close>.\<close>

definition or_opt :: "'a option \<Rightarrow> 'a option \<Rightarrow> 'a option" where
  "or_opt a b = (case a of Some v \<Rightarrow> Some v | None \<Rightarrow> b)"

definition unwrap_or :: "'a option \<Rightarrow> 'a \<Rightarrow> 'a" where
  "unwrap_or a d = (case a of Some v \<Rightarrow> v | None \<Rightarrow> d)"

definition resolve_validator_config ::
  "ValidatorCli \<Rightarrow> ValidatorFileConfig \<Rightarrow> string + ResolvedValidator" where
  "resolve_validator_config cli file =
     res_bind (ok_or ''--committee is required (or set committee in --config)''
                 (or_opt (vc_committee cli) (vf_committee file))) (\<lambda>committee.
     res_bind (ok_or ''--key is required (or set key in --config)'' (or_opt (vc_key cli) (vf_key file))) (\<lambda>key.
       Inr \<lparr>vr_committee = committee, vr_key = key,
            vr_data_dir = or_opt (vc_data_dir cli) (vf_data_dir file),
            vr_rpc_port = or_opt (vc_rpc_port cli) (vf_rpc_port file),
            vr_rpc_host = unwrap_or (or_opt (vc_rpc_host cli) (vf_rpc_host file)) ''127.0.0.1'',
            vr_faucet_key = or_opt (vc_faucet_key cli) (vf_faucet_key file),
            vr_log_level = unwrap_or (or_opt (map_option log_as_str (vc_log_level cli)) (vf_log_level file)) ''info''\<rparr>))"

section \<open>The host\<close>

text \<open>
  \<open>ho_filter\<close> and \<open>ho_try_init\<close> are \<open>EnvFilter::try_new\<close> and \<open>try_init\<close> of the logging crate, the latter
  given whether a global subscriber is installed; \<open>ho_open_db\<close> opens the chain database of a state path;
  \<open>ho_legacy\<close> is what is found at it; \<open>ho_mesh\<close> is the DAG side of \<open>ValidatorNode::spawn\<close>;
  \<open>ho_overflow_checks\<close> tells whether the binary was built with overflow checks (a debug build).
\<close>

record ('db, 'st, 'h, 'fs, 'sg, 'dag) Host =
  ho_ext :: "('db, 'st, 'h) Ext"
  ho_fork :: ForkEnv
  ho_keys :: "('fs, 'sg) KeyEnv"
  ho_files :: 'fs
  ho_var :: "string \<Rightarrow> string option"
  ho_filter :: "string \<Rightarrow> string + unit"
  ho_try_init :: "bool \<Rightarrow> string + unit"
  ho_exists :: "string \<Rightarrow> bool"
  ho_create_dir_all :: "string \<Rightarrow> string + unit"
  ho_read :: "string \<Rightarrow> string + string"
  ho_toml :: "string \<Rightarrow> string + ValidatorFileConfig"
  ho_legacy :: "string \<Rightarrow> LegacyFs"
  ho_open_db :: "string \<Rightarrow> string + 'h"
  ho_random_signer :: Signer
  ho_is_ip :: "string \<Rightarrow> bool"
  ho_bind :: "string \<Rightarrow> u16 \<Rightarrow> string + unit"
  ho_mesh :: "('sg, 'dag) Mesh"
  ho_overflow_checks :: bool

definition join_dir :: "string \<Rightarrow> string \<Rightarrow> string" where
  "join_dir d f = d @ ''/'' @ f"

definition log_filter :: "string \<Rightarrow> string" where
  "log_filter level = ''kanari_evm_consensus='' @ level @ '',kanari_evm_rpc='' @ level
     @ '',kanari_evm_node='' @ level @ '',kanari_evm_move_execution='' @ level"

text \<open>With whether a subscriber is installed before and after.\<close>

definition init_logging ::
  "('db, 'st, 'h, 'fs, 'sg, 'dag) Host \<Rightarrow> bool \<Rightarrow> string \<Rightarrow> (string + unit) \<times> bool" where
  "init_logging ho installed level =
     (case ho_filter ho (log_filter level) of
        Inl e \<Rightarrow> (Inl (''invalid log level '' @ [CHR 0x27] @ level @ [CHR 0x27] @ '': '' @ e), installed)
      | Inr _ \<Rightarrow>
          (case ho_try_init ho installed of
             Inl e \<Rightarrow> (Inl (''logging already initialized: '' @ e), installed)
           | Inr _ \<Rightarrow> (Inr (), True)))"

definition load_validator_file :: "('db, 'st, 'h, 'fs, 'sg, 'dag) Host \<Rightarrow> string \<Rightarrow> ValidatorFileConfig process" where
  "load_validator_file ho path =
     proc_bind (or_fatal (\<lambda>e. ''cannot read --config '' @ path @ '': '' @ e) (ho_read ho path)) (\<lambda>raw.
       or_fatal (\<lambda>e. ''invalid --config '' @ path @ '': '' @ e) (ho_toml ho raw))"

definition home_dir :: "('db, 'st, 'h, 'fs, 'sg, 'dag) Host \<Rightarrow> string option" where
  "home_dir ho = or_opt (ho_var ho ''USERPROFILE'') (ho_var ho ''HOME'')"

definition default_data_dir :: "('db, 'st, 'h, 'fs, 'sg, 'dag) Host \<Rightarrow> string" where
  "default_data_dir ho =
     (case home_dir ho of
        Some home \<Rightarrow> join_dir (join_dir home ''.kanari'') ''evm-devnet''
      | None \<Rightarrow> ''./.kanari-evm-devnet'')"

definition default_fork_dir :: "('db, 'st, 'h, 'fs, 'sg, 'dag) Host \<Rightarrow> string" where
  "default_fork_dir ho =
     (case home_dir ho of
        Some home \<Rightarrow> join_dir (join_dir home ''.kanari'') ''evm-fork''
      | None \<Rightarrow> ''./.kanari-evm-fork'')"

fun parse_faucet_args :: "TextOps \<Rightarrow> string list list \<Rightarrow> (Address \<times> u128) list process" where
  "parse_faucet_args tx [] = Runs []"
| "parse_faucet_args tx (args # raw) =
     (case args of
        [] \<Rightarrow> Fatal ''--faucet needs an address''
      | a # rest \<Rightarrow>
          proc_bind (or_fatal (\<lambda>_. ''invalid faucet address: '' @ a) (ok_or () (of_address tx (trim a)))) (\<lambda>addr.
          proc_bind (case rest of
              [] \<Rightarrow> Runs DEFAULT_FAUCET_ETH
            | amt # _ \<Rightarrow> or_fatal (\<lambda>_. ''invalid faucet amount: '' @ amt)
                (ok_or () (map_option of_nat (parse_decimal (2 ^ 128 - 1) amt)))) (\<lambda>amount.
          proc_bind (parse_faucet_args tx raw) (\<lambda>out. Runs ((addr, amount) # out)))))"

definition parse_secret :: "TextOps \<Rightarrow> string \<Rightarrow> B256 process" where
  "parse_secret tx hex =
     or_fatal (\<lambda>_. ''invalid --faucet-key: want 32-byte 0x hex'') (ok_or () (of_hash tx (trim hex)))"

definition parse_opt_secret :: "TextOps \<Rightarrow> string option \<Rightarrow> B256 option process" where
  "parse_opt_secret tx k =
     (case k of None \<Rightarrow> Runs None | Some hex \<Rightarrow> proc_bind (parse_secret tx hex) (\<lambda>s. Runs (Some s)))"

section \<open>Starting a node\<close>

record ForkGenesisExtra =
  ge_alloc :: "(Address \<times> U256) list"
  ge_code :: "(Address \<times> bytes) list"
  ge_storage :: "(Address \<times> U256 \<times> U256) list"

definition no_extra :: ForkGenesisExtra where "no_extra = \<lparr>ge_alloc = [], ge_code = [], ge_storage = []\<rparr>"

record StartOptions =
  so_network :: NetworkMode
  so_rpc_port :: u16
  so_rpc_host :: string
  so_data_dir :: string
  so_state_file :: string
  so_faucets :: "(Address \<times> u128) list"
  so_faucet_key :: "B256 option"
  so_log_level :: LogLevel
  so_chain_id_override :: "u64 option"
  so_genesis_extra :: ForkGenesisExtra

text \<open>A process that serves: its node and the address it listens on.\<close>

record ('db, 'h) Served =
  sv_node :: "('db, 'h) KanariNode"
  sv_host :: string
  sv_port :: u16

definition serve_rpc ::
  "('db, 'st, 'h, 'fs, 'sg, 'dag) Host \<Rightarrow> ('db, 'h) KanariNode \<Rightarrow> string \<Rightarrow> u16 \<Rightarrow> ('db, 'h) Served process" where
  "serve_rpc ho n rpc_host rpc_port =
     (if \<not> ho_is_ip ho rpc_host then Fatal ''--rpc-host needs an IP address''
      else proc_bind (or_fatal (\<lambda>e. ''failed to bind '' @ rpc_host @ '':'' @ decimal (unat rpc_port) @ '': '' @ e)
                        (ho_bind ho rpc_host rpc_port)) (\<lambda>_.
        Runs \<lparr>sv_node = n, sv_host = rpc_host, sv_port = rpc_port\<rparr>))"

text \<open>\<open>generate_faucet_key\<close> of \<^verbatim>\<open>faucet.rs\<close>; a signer is represented by its secret bytes.\<close>

definition generate_faucet_key :: "('db, 'st, 'h, 'fs, 'sg, 'dag) Host \<Rightarrow> Address \<times> B256" where
  "generate_faucet_key ho = (signer_address (x_crypto (ho_ext ho)) (ho_random_signer ho), ho_random_signer ho)"

text \<open>The faucet secret: given, generated for fresh state, or none.\<close>

definition start_secret ::
  "('db, 'st, 'h, 'fs, 'sg, 'dag) Host \<Rightarrow> B256 option \<Rightarrow> bool \<Rightarrow> (Address \<times> B256) option process" where
  "start_secret ho key fresh =
     (case key of
        Some secret \<Rightarrow>
          proc_bind (or_fatal (\<lambda>_. ''invalid --faucet-key secret'') (signer_from_bytes (x_crypto (ho_ext ho)) secret)) (\<lambda>signer.
            Runs (Some (signer_address (x_crypto (ho_ext ho)) signer, secret)))
      | None \<Rightarrow>
          Runs (if fresh then Some (generate_faucet_key ho) else None))"

definition start_spec :: "StartOptions \<Rightarrow> bool \<Rightarrow> KanariChainSpec" where
  "start_spec opts fresh =
     (let base = (if so_faucets opts = [] then devnet
                  else with_alloc KANARI_EVM_DEV_CHAIN_ID KANARI_EVM_GENESIS_SPEC
                         ((DEV_FUNDED_ACCOUNT, ucast DEV_FUNDED_BALANCE)
                          # (if fresh then map (\<lambda>(addr, eth). (addr, ucast (sat_mul eth WEI_IN_ETH))) (so_faucets opts)
                             else [])))
      in if fresh
         then base\<lparr>cs_chain_id := unwrap_or (so_chain_id_override opts) (cs_chain_id base),
                   cs_genesis_alloc := cs_genesis_alloc base @ ge_alloc (so_genesis_extra opts),
                   cs_genesis_code := ge_code (so_genesis_extra opts),
                   cs_genesis_storage := ge_storage (so_genesis_extra opts)\<rparr>
         else base)"

text \<open>Opening: an error ends the process, a panic of \<open>open\<close> is one of the process.\<close>

definition open_process ::
  "('db, 'st, 'h, 'fs, 'sg, 'dag) Host \<Rightarrow> KanariChainSpec \<Rightarrow> string \<Rightarrow> ('db, 'h) KanariNode process" where
  "open_process ho spec state_file =
     (case open_node (ho_ext ho) (ho_legacy ho state_file) spec (ho_open_db ho state_file) of
        Panics \<Rightarrow> Aborts
      | Returns r \<Rightarrow> or_fatal (\<lambda>e. ''failed to open node: '' @ node_error_string e) r)"

definition store_secret ::
  "('db, 'st, 'h, 'fs, 'sg, 'dag) Host \<Rightarrow> ('db, 'h) KanariNode \<Rightarrow> B256 \<Rightarrow> ('db, 'h) KanariNode process" where
  "store_secret ho n secret =
     (case set_faucet_key (x_kv (ho_ext ho)) n secret of
        (Inl e, _) \<Rightarrow> Fatal (''failed to store faucet key: '' @ node_error_string e)
      | (Inr _, n') \<Rightarrow> Runs n')"

text \<open>The faucet on start: store the secret and look at its balance, or load the stored key.\<close>

definition start_faucet ::
  "('db, 'st, 'h, 'fs, 'sg, 'dag) Host \<Rightarrow> ('db, 'h) KanariNode \<Rightarrow> (Address \<times> B256) option \<Rightarrow> ('db, 'h) KanariNode process" where
  "start_faucet ho n secret =
     (case secret of
        Some (addr, s) \<Rightarrow>
          proc_bind (store_secret ho n s) (\<lambda>n'. Runs (snd (balance_of (x_revm (ho_ext ho)) n' addr)))
      | None \<Rightarrow>
          (case load_faucet_key (x_kv (ho_ext ho)) n of
             (Inl e, _) \<Rightarrow> Fatal (''failed to load faucet key: '' @ node_error_string e)
           | (Inr False, n') \<Rightarrow> Runs n'
           | (Inr True, n') \<Rightarrow>
               (case faucet_address (x_crypto (ho_ext ho)) n' of
                  Inr (Some _) \<Rightarrow> Runs n'
                | _ \<Rightarrow> Aborts)))"

definition run ::
  "('db, 'st, 'h, 'fs, 'sg, 'dag) Host \<Rightarrow> bool \<Rightarrow> StartOptions \<Rightarrow> ('db, 'h) Served process" where
  "run ho installed opts =
     proc_bind (or_fatal (\<lambda>e. e) (fst (init_logging ho installed (log_as_str (so_log_level opts))))) (\<lambda>_.
     if so_network opts \<noteq> Devnet
     then Fatal (''--network '' @ network_as_str (so_network opts) @ '' has no EVM chain spec yet; use devnet'')
     else proc_bind (or_fatal (\<lambda>e. ''cannot create data dir '' @ so_data_dir opts @ '': '' @ e)
                       (ho_create_dir_all ho (so_data_dir opts))) (\<lambda>_.
     let fresh = \<not> ho_exists ho (so_state_file opts) in
     proc_bind (start_secret ho (so_faucet_key opts) fresh) (\<lambda>secret.
     proc_bind (open_process ho (start_spec opts fresh) (so_state_file opts)) (\<lambda>n.
     proc_bind (start_faucet ho n secret) (\<lambda>n'.
       serve_rpc ho n' (so_rpc_host opts) (so_rpc_port opts))))))"

section \<open>Forking\<close>

record ForkOptions =
  fo_rpc_url :: "string option"
  fo_block :: string
  fo_accounts :: "Address list"
  fo_slots :: "SlotRef list"
  fo_data_dir :: string
  fo_state_file :: string
  fo_rpc_port :: u16
  fo_rpc_host :: string
  fo_faucet_key :: "B256 option"
  fo_log_level :: LogLevel

text \<open>What a fork starts from: the import, or on a reopen the stored chain id alone.\<close>

definition fork_source ::
  "('db, 'st, 'h, 'fs, 'sg, 'dag) Host \<Rightarrow> ForkOptions \<Rightarrow> bool \<Rightarrow> ForkedGenesis process" where
  "fork_source ho opts fresh =
     (if fresh
      then (case fo_rpc_url opts of
              None \<Rightarrow> Fatal ''fresh fork needs --rpc-url (reopen skips fetching)''
            | Some url \<Rightarrow> or_fatal (\<lambda>e. ''fork fetch failed: '' @ e)
                (fst (fetch_fork_genesis (ho_fork ho) url (fo_block opts) (fo_accounts opts) (fo_slots opts))))
      else
        proc_bind (or_fatal (\<lambda>e. ''failed to open store: '' @ store_error_string (Backend e)) (ho_open_db ho (fo_state_file opts))) (\<lambda>h.
        proc_bind (or_fatal (\<lambda>e. ''failed to read store: '' @ store_error_string e) (stored_chain_id (x_kv (ho_ext ho)) h)) (\<lambda>c.
          case c of
            None \<Rightarrow> Fatal ''chain database missing chain id''
          | Some cid \<Rightarrow> Runs \<lparr>fg_chain_id = cid, fg_alloc = [], fg_code = [], fg_storage = []\<rparr>)))"

definition fork_secret :: "('db, 'st, 'h, 'fs, 'sg, 'dag) Host \<Rightarrow> B256 option \<Rightarrow> B256 process" where
  "fork_secret ho key =
     (case key of
        Some secret \<Rightarrow>
          proc_bind (or_fatal (\<lambda>_. ''invalid --faucet-key secret'') (signer_from_bytes (x_crypto (ho_ext ho)) secret)) (\<lambda>_.
            Runs secret)
      | None \<Rightarrow> Runs (snd (generate_faucet_key ho)))"

definition fork_start :: "ForkOptions \<Rightarrow> bool \<Rightarrow> ForkedGenesis \<Rightarrow> Address \<Rightarrow> B256 \<Rightarrow> StartOptions" where
  "fork_start opts fresh g faucet_addr secret =
     \<lparr>so_network = Devnet, so_rpc_port = fo_rpc_port opts, so_rpc_host = fo_rpc_host opts,
      so_data_dir = fo_data_dir opts, so_state_file = fo_state_file opts,
      so_faucets = [(faucet_addr, FORK_FAUCET_ETH)], so_faucet_key = Some secret, so_log_level = LInfo,
      so_chain_id_override = Some (fg_chain_id g),
      so_genesis_extra =
        \<lparr>ge_alloc = fg_alloc g @ (if fresh then [(faucet_addr, ucast (sat_mul FORK_FAUCET_ETH WEI_IN_ETH))] else []),
         ge_code = fg_code g, ge_storage = fg_storage g\<rparr>\<rparr>"

definition run_fork ::
  "('db, 'st, 'h, 'fs, 'sg, 'dag) Host \<Rightarrow> bool \<Rightarrow> ForkOptions \<Rightarrow> ('db, 'h) Served process" where
  "run_fork ho installed opts =
     (case init_logging ho installed (log_as_str (fo_log_level opts)) of
        (Inl e, _) \<Rightarrow> Fatal e
      | (Inr _, installed') \<Rightarrow>
          (let fresh = \<not> ho_exists ho (fo_state_file opts) in
           proc_bind (fork_source ho opts fresh) (\<lambda>g.
           proc_bind (fork_secret ho (fo_faucet_key opts)) (\<lambda>secret.
           proc_bind (or_fatal (\<lambda>e. ''bad faucet key: '' @ e) (signer_from_bytes (x_crypto (ho_ext ho)) secret)) (\<lambda>signer.
             run ho installed' (fork_start opts fresh g (signer_address (x_crypto (ho_ext ho)) signer) secret))))))"

section \<open>Reset\<close>

text \<open>
  An entry of the data directory: its name when it is valid UTF-8, whether it is a directory, and what
  \<open>remove_dir_all\<close> and \<open>remove_file\<close> give on it.
\<close>

record DirEntry =
  dn_name :: "string option"
  dn_is_dir :: bool
  dn_remove_dir_all :: "string + unit"
  dn_remove_file :: "string + unit"

datatype ResetOutcome = NothingToReset | ResetAborted | ResetComplete u32 | ResetFailed string

definition ends_with :: "string \<Rightarrow> string \<Rightarrow> bool" where
  "ends_with s suf \<longleftrightarrow> length suf \<le> length s \<and> drop (length s - length suf) s = suf"

definition state_entry :: "DirEntry \<Rightarrow> bool" where
  "state_entry d =
     (let name = unwrap_or (dn_name d) [] in
      name = ''state.json'' \<or> ends_with name ''.chain.db'' \<or> ends_with name ''.faucet.key'' \<or> ends_with name ''.smt'')"

text \<open>The loop, on the entries that could be read, with the count so far and the entries kept so far.\<close>

fun reset_entries :: "string \<Rightarrow> DirEntry list \<Rightarrow> u32 \<Rightarrow> DirEntry list \<Rightarrow> ResetOutcome \<times> DirEntry list" where
  "reset_entries dir [] removed kept = (ResetComplete removed, rev kept)"
| "reset_entries dir (d # ds) removed kept =
     (if \<not> state_entry d then reset_entries dir ds removed (d # kept)
      else case (if dn_is_dir d then dn_remove_dir_all d else dn_remove_file d) of
             Inl e \<Rightarrow> (ResetFailed (''cannot remove '' @ join_dir dir (unwrap_or (dn_name d) []) @ '': '' @ e), rev kept @ d # ds)
           | Inr _ \<Rightarrow> reset_entries dir ds (removed + 1) kept)"

text \<open>\<open>answer\<close> is the line read from standard input; the listing is the entries of the directory in the order
  \<open>read_dir\<close> gives them, those with an error left out.\<close>

definition cmd_reset ::
  "('db, 'st, 'h, 'fs, 'sg, 'dag) Host \<Rightarrow> string option \<Rightarrow> bool \<Rightarrow> string + string \<Rightarrow> (string \<Rightarrow> string + DirEntry list)
     \<Rightarrow> ResetOutcome \<times> DirEntry list" where
  "cmd_reset ho data_dir force answer listing =
     (let dir = unwrap_or data_dir (default_data_dir ho);
          entries = (case listing dir of Inr ds \<Rightarrow> ds | Inl _ \<Rightarrow> []) in
      if \<not> ho_exists ho dir then (NothingToReset, entries)
      else if \<not> force \<and> (case answer of Inl _ \<Rightarrow> True | Inr line \<Rightarrow> trim line \<noteq> ''YES'') then (ResetAborted, entries)
      else case listing dir of
             Inl e \<Rightarrow> (ResetFailed (''cannot read '' @ dir @ '': '' @ e), [])
           | Inr ds \<Rightarrow> reset_entries dir ds 0 [])"

section \<open>Keys and validator mode\<close>

fun committee_error_string :: "CommitteeError \<Rightarrow> string" where
  "committee_error_string (CIo m) = ''io error: '' @ m"
| "committee_error_string (CInvalid m) = ''invalid committee file: '' @ m"

definition cmd_keygen ::
  "('db, 'st, 'h, 'fs, 'sg, 'dag) Host \<Rightarrow> bytes list \<Rightarrow> string \<Rightarrow> u16 \<Rightarrow> DagCommittee process \<times> 'fs" where
  "cmd_keygen ho seeds host base_dag_port =
     (if \<not> ho_is_ip ho host then (Fatal ''--host needs an IP address'', ho_files ho)
      else case generate_committee (ho_keys ho) seeds host base_dag_port (ho_files ho) of
             (r, fs) \<Rightarrow> (or_fatal (\<lambda>e. ''keygen failed: '' @ committee_error_string e) r, fs))"

fun validator_error_string :: "ValidatorError \<Rightarrow> string" where
  "validator_error_string (CommitteeFailed e) = committee_error_string e"
| "validator_error_string (DagStorage e) = ''dag storage error: '' @ e"

text \<open>The call of \<open>ValidatorNode::spawn\<close>, with the DAG log under the data directory.\<close>

definition spawn_validator ::
  "('db, 'st, 'h, 'fs, 'sg, 'dag) Host \<Rightarrow> string \<Rightarrow> string \<Rightarrow> string \<Rightarrow> ('db, 'h) KanariNode
     \<Rightarrow> ('db, 'h, 'dag) ValidatorNode process" where
  "spawn_validator ho committee key dir n =
     or_fatal (\<lambda>e. ''failed to join DAG mesh: '' @ validator_error_string e)
       (spawn (ho_keys ho) (ho_files ho) (ho_mesh ho) n
          \<lparr>vo_committee_path = committee, vo_key_path = key, vo_dag_wal_dir = Some (join_dir dir ''dag-wal''),
           vo_round_timeout = DEFAULT_ROUND_TIMEOUT\<rparr>)"

definition validator_faucet ::
  "('db, 'st, 'h, 'fs, 'sg, 'dag) Host \<Rightarrow> ('db, 'h) KanariNode \<Rightarrow> B256 option \<Rightarrow> ('db, 'h) KanariNode process" where
  "validator_faucet ho n key =
     (case key of
        None \<Rightarrow> Runs n
      | Some secret \<Rightarrow>
          proc_bind (store_secret ho n secret) (\<lambda>n'.
          proc_bind (or_fatal (\<lambda>_. ''invalid --faucet-key secret'') (signer_from_bytes (x_crypto (ho_ext ho)) secret)) (\<lambda>signer.
            Runs (snd (balance_of (x_revm (ho_ext ho)) n' (signer_address (x_crypto (ho_ext ho)) signer))))))"

definition run_validator ::
  "('db, 'st, 'h, 'fs, 'sg, 'dag) Host \<Rightarrow> string \<Rightarrow> string \<Rightarrow> string option \<Rightarrow> u16 option \<Rightarrow> string \<Rightarrow> B256 option
     \<Rightarrow> (('db, 'h) ValidatorState \<times> ('db, 'h) Served) process" where
  "run_validator ho committee key data_dir rpc_port rpc_host faucet_key =
     proc_bind (or_fatal (\<lambda>e. ''bad committee/key: '' @ committee_error_string e)
                  (load_validator (ho_keys ho) (ho_files ho) committee key)) (\<lambda>identity.
     let number = lv_index identity + 1;
         dir = unwrap_or data_dir (''./.kanari-evm-validator-'' @ decimal number) in
     proc_bind (or_fatal (\<lambda>e. ''cannot create data dir '' @ dir @ '': '' @ e) (ho_create_dir_all ho dir)) (\<lambda>_.
     proc_bind (case rpc_port of
         Some port \<Rightarrow> Runs port
       | None \<Rightarrow> (let own = snd (lv_own_address identity) in
                  if own = - 1 \<and> ho_overflow_checks ho then Aborts else Runs (own + 1))) (\<lambda>port.
     proc_bind (open_process ho devnet (join_dir dir ''state.json'')) (\<lambda>n.
     proc_bind (validator_faucet ho n faucet_key) (\<lambda>n'.
     proc_bind (spawn_validator ho committee key dir n') (\<lambda>v.
     proc_bind (serve_rpc ho (vs_node (vn_state v)) rpc_host port) (\<lambda>sv. Runs (vn_state v, sv))))))))"

section \<open>The command line\<close>

datatype Commands =
    Start NetworkMode u16 string "string option" "string list list" "string option" "string option" LogLevel
  | Local u16 LogLevel
  | Reset "string option" bool
  | Keygen nat string string u16
  | ValidatorCmd ValidatorCli "string option"
  | ForkCmd "string option" string "string list" "string list" "string option" u16 string "string option" LogLevel

datatype ('db, 'h, 'fs) MainOutcome =
    Serving "('db, 'h) Served process"
  | ResetDone ResetOutcome "DirEntry list"
  | KeygenDone "DagCommittee process" 'fs
  | Validating "(('db, 'h) ValidatorState \<times> ('db, 'h) Served) process"

text \<open>\<open>collect\<close> over a conversion that may end the process.\<close>

fun proc_map :: "('a \<Rightarrow> 'b process) \<Rightarrow> 'a list \<Rightarrow> 'b list process" where
  "proc_map f [] = Runs []"
| "proc_map f (x # xs) = proc_bind (f x) (\<lambda>y. proc_bind (proc_map f xs) (\<lambda>ys. Runs (y # ys)))"

definition start_command ::
  "('db, 'st, 'h, 'fs, 'sg, 'dag) Host \<Rightarrow> NetworkMode \<Rightarrow> u16 \<Rightarrow> string \<Rightarrow> string option \<Rightarrow> string list list \<Rightarrow> string option
     \<Rightarrow> string option \<Rightarrow> LogLevel \<Rightarrow> ('db, 'h) Served process" where
  "start_command ho network rpc_port rpc_host data_dir faucet_args faucet_key state_file log_level =
     (let tx = fe_text (ho_fork ho); dir = unwrap_or data_dir (default_data_dir ho);
          path = unwrap_or state_file (join_dir dir ''state.json'') in
      proc_bind (parse_faucet_args tx faucet_args) (\<lambda>faucets.
      proc_bind (parse_opt_secret tx faucet_key) (\<lambda>secret.
        run ho False \<lparr>so_network = network, so_rpc_port = rpc_port, so_rpc_host = rpc_host, so_data_dir = dir,
          so_state_file = path, so_faucets = faucets, so_faucet_key = secret, so_log_level = log_level,
          so_chain_id_override = None, so_genesis_extra = no_extra\<rparr>)))"

definition local_command :: "('db, 'st, 'h, 'fs, 'sg, 'dag) Host \<Rightarrow> u16 \<Rightarrow> LogLevel \<Rightarrow> ('db, 'h) Served process" where
  "local_command ho rpc_port log_level =
     (let dir = ''./.kanari-evm-local'' in
      run ho False \<lparr>so_network = Devnet, so_rpc_port = rpc_port, so_rpc_host = ''127.0.0.1'', so_data_dir = dir,
        so_state_file = join_dir dir ''state.json'', so_faucets = [], so_faucet_key = None, so_log_level = log_level,
        so_chain_id_override = None, so_genesis_extra = no_extra\<rparr>)"

definition fork_command ::
  "('db, 'st, 'h, 'fs, 'sg, 'dag) Host \<Rightarrow> string option \<Rightarrow> string \<Rightarrow> string list \<Rightarrow> string list \<Rightarrow> string option \<Rightarrow> u16 \<Rightarrow> string
     \<Rightarrow> string option \<Rightarrow> LogLevel \<Rightarrow> ('db, 'h) Served process" where
  "fork_command ho rpc_url block account slot data_dir rpc_port rpc_host faucet_key log_level =
     (let tx = fe_text (ho_fork ho); dir = unwrap_or data_dir (default_fork_dir ho) in
      proc_bind (proc_map (\<lambda>a. or_fatal (\<lambda>_. ''invalid --account address: '' @ a) (ok_or () (of_address tx (trim a)))) account) (\<lambda>accounts.
      proc_bind (proc_map (\<lambda>s. or_fatal (\<lambda>e. e) (parse_slot tx s)) slot) (\<lambda>slots.
      proc_bind (parse_opt_secret tx faucet_key) (\<lambda>secret.
        run_fork ho False \<lparr>fo_rpc_url = rpc_url, fo_block = block, fo_accounts = accounts, fo_slots = slots,
          fo_data_dir = dir, fo_state_file = join_dir dir ''state.json'', fo_rpc_port = rpc_port,
          fo_rpc_host = rpc_host, fo_faucet_key = secret, fo_log_level = log_level\<rparr>))))"

definition validator_command ::
  "('db, 'st, 'h, 'fs, 'sg, 'dag) Host \<Rightarrow> ValidatorCli \<Rightarrow> string option
     \<Rightarrow> (('db, 'h) ValidatorState \<times> ('db, 'h) Served) process" where
  "validator_command ho cli config =
     proc_bind (case config of None \<Rightarrow> Runs default_file_config | Some path \<Rightarrow> load_validator_file ho path) (\<lambda>file.
     proc_bind (or_fatal (\<lambda>e. e) (resolve_validator_config cli file)) (\<lambda>resolved.
     proc_bind (or_fatal (\<lambda>e. e) (fst (init_logging ho False (vr_log_level resolved)))) (\<lambda>_.
     proc_bind (parse_opt_secret (fe_text (ho_fork ho)) (vr_faucet_key resolved)) (\<lambda>secret.
       run_validator ho (vr_committee resolved) (vr_key resolved) (vr_data_dir resolved) (vr_rpc_port resolved)
         (vr_rpc_host resolved) secret))))"

text \<open>\<open>seeds\<close> are the random bytes drawn by \<open>keygen\<close>, \<open>answer\<close> and \<open>listing\<close> what \<open>reset\<close> reads.\<close>

definition main ::
  "('db, 'st, 'h, 'fs, 'sg, 'dag) Host \<Rightarrow> (nat \<Rightarrow> bytes) \<Rightarrow> string + string \<Rightarrow> (string \<Rightarrow> string + DirEntry list) \<Rightarrow> Commands
     \<Rightarrow> ('db, 'h, 'fs) MainOutcome" where
  "main ho seeds answer listing cmd =
     (case cmd of
        Start network port host dir faucets key state_file level \<Rightarrow>
          Serving (start_command ho network port host dir faucets key state_file level)
      | Local port level \<Rightarrow> Serving (local_command ho port level)
      | Reset dir force \<Rightarrow> case_prod ResetDone (cmd_reset ho dir force answer listing)
      | Keygen node_count _ host base \<Rightarrow> case_prod KeygenDone (cmd_keygen ho (map seeds [0..<node_count]) host base)
      | ForkCmd url block account slot dir port host key level \<Rightarrow>
          Serving (fork_command ho url block account slot dir port host key level)
      | ValidatorCmd cli config \<Rightarrow> Validating (validator_command ho cli config))"

section \<open>Lemmas\<close>

lemma or_fatal_Runs [simp]: "or_fatal f r = Runs v \<longleftrightarrow> r = Inr v"
  by (cases r) simp_all

text \<open>A subscriber can be installed once: a later \<open>try_init\<close> fails.\<close>

definition installs_once :: "('db, 'st, 'h, 'fs, 'sg, 'dag) Host \<Rightarrow> bool" where
  "installs_once ho \<longleftrightarrow> (\<exists>m. ho_try_init ho True = Inl m)"

definition ends_fatally :: "'a process \<Rightarrow> bool" where
  "ends_fatally p \<longleftrightarrow> (\<exists>m. p = Fatal m)"

lemma ends_fatally_simps [simp]: "ends_fatally (Fatal m)" "\<not> ends_fatally (Runs v)" "\<not> ends_fatally Aborts"
  by (simp_all add: ends_fatally_def)

lemma ends_fatally_bind:
  "p \<noteq> Aborts \<Longrightarrow> (\<And>v. p = Runs v \<Longrightarrow> ends_fatally (f v)) \<Longrightarrow> ends_fatally (proc_bind p f)"
  by (cases p) simp_all

lemma proc_bind_Aborts: "proc_bind p f = Aborts \<longleftrightarrow> p = Aborts \<or> (\<exists>v. p = Runs v \<and> f v = Aborts)"
  by (cases p) simp_all

lemma or_fatal_not_aborts [simp]: "or_fatal f r \<noteq> Aborts"
  by (cases r) simp_all

lemma not_aborts [simp]:
  "parse_secret tx k \<noteq> Aborts" "fork_secret ho key \<noteq> Aborts" "fork_source ho fopts fresh \<noteq> Aborts"
  by (auto simp: parse_secret_def fork_secret_def fork_source_def proc_bind_Aborts split: option.splits if_splits)

lemma parse_opt_secret_not_aborts [simp]: "parse_opt_secret tx k \<noteq> Aborts"
  by (cases k) (simp_all add: parse_opt_secret_def parse_secret_def or_fatal_def proc_bind_def split: sum.split)

lemma proc_map_not_aborts: "(\<And>x. f x \<noteq> Aborts) \<Longrightarrow> proc_map f xs \<noteq> Aborts"
proof (induction xs)
  case (Cons x xs)
  then show ?case by (cases "f x"; cases "proc_map f xs") auto
qed simp

lemma run_second_logging: "installs_once ho \<Longrightarrow> ends_fatally (run ho True opts)"
  by (auto simp: run_def init_logging_def installs_once_def split: sum.splits)

lemma run_fork_fatal: "installs_once ho \<Longrightarrow> ends_fatally (run_fork ho installed opts)"
proof -
  assume once: "installs_once ho"
  show ?thesis
  proof (cases "fst (init_logging ho installed (log_as_str (fo_log_level opts)))")
    case (Inl m)
    then show ?thesis by (auto simp: run_fork_def split: prod.splits)
  next
    case (Inr u)
    then have l: "init_logging ho installed (log_as_str (fo_log_level opts)) = (Inr (), True)"
      by (auto simp: init_logging_def split: sum.splits)
    show ?thesis unfolding run_fork_def l prod.case sum.case Let_def
      by (intro ends_fatally_bind not_aborts or_fatal_not_aborts run_second_logging once)
  qed
qed

text \<open>The node a validator starts with.\<close>

lemma run_validator_node:
  fixes ho :: "('db, 'st, 'h, 'fs, 'sg, 'dag) Host"
  assumes env: "env_ok (ho_ext ho) root_of"
    and fresh: "\<And>p. \<exists>h. ho_open_db ho p = Inr h \<and> fresh_store (x_kv (ho_ext ho)) h"
      "\<And>p. lf_journal (ho_legacy ho p) = None"
    and run: "run_validator ho committee key dir port host fkey = Runs (v, sv)"
  obtains db where "apply_genesis (x_revm (ho_ext ho)) devnet (rv_default (x_revm (ho_ext ho))) = Returns db"
    "n_spec (vs_node v) = devnet" "n_blocks (vs_node v) = []" "n_receipts (vs_node v) = Map.empty"
    "vs_last_ts v = 0" "vs_pending v = []"
    "n_db (vs_node v) = (case fkey of None \<Rightarrow> db
       | Some s \<Rightarrow> snd (rv_basic (x_revm (ho_ext ho)) db
           (case signer_from_bytes (x_crypto (ho_ext ho)) s of Inr sg \<Rightarrow> signer_address (x_crypto (ho_ext ho)) sg | Inl _ \<Rightarrow> 0)))"
proof -
  from run obtain sf n n' where o: "open_process ho devnet sf = Runs n"
      and f: "validator_faucet ho n fkey = Runs n'" and v: "v = start_validator n'"
    by (auto simp: run_validator_def proc_bind_Runs Let_def spawn_validator_def dest!: spawn_state)
  obtain h where h: "ho_open_db ho sf = Inr h" "fresh_store (x_kv (ho_ext ho)) h" using fresh(1) by blast
  define n0 where "n0 = n"
  then have n: "n = n0" by simp
  have "open_node (ho_ext ho) (ho_legacy ho sf) devnet (Inr h) = Returns (Inr n0)"
    using o h(1) n by (auto simp: open_process_def split: outcome.splits sum.splits)
  note n0 = this opened_fresh(1,2,3,6) [OF env h(2) fresh(2) this]
  show thesis
  proof (cases fkey)
    case None
    with f n n0 v show thesis by (intro that [of "n_db n0"]) (simp_all add: validator_faucet_def start_validator_def set_dag_sender_def)
  next
    case (Some s)
    from f [unfolded Some] obtain k sg where k: "store_secret ho n s = Runs k"
        and sg: "signer_from_bytes (x_crypto (ho_ext ho)) s = Inr sg"
        and n': "n' = snd (balance_of (x_revm (ho_ext ho)) k (signer_address (x_crypto (ho_ext ho)) sg))"
      by (auto simp: validator_faucet_def proc_bind_Runs)
    from k have "n_spec k = n_spec n" "n_blocks k = n_blocks n" "n_receipts k = n_receipts n" "n_db k = n_db n"
      by (auto simp: store_secret_def set_faucet_key_def split: prod.splits sum.splits)
    with n n0 v show thesis
      by (intro that [of "n_db n0"])
        (simp_all add: start_validator_def set_dag_sender_def n' balance_of_cases Some sg)
  qed
qed

text \<open>The reset loop.\<close>

definition removal :: "DirEntry \<Rightarrow> string + unit" where
  "removal d = (if dn_is_dir d then dn_remove_dir_all d else dn_remove_file d)"

lemma ends_with_suffix: "ends_with s suf \<longleftrightarrow> suffix suf s"
  by (auto simp: ends_with_def suffix_def) (metis append_take_drop_id)

lemma reset_entries_prefix:
  assumes "\<And>d. d \<in> set ds \<Longrightarrow> state_entry d \<Longrightarrow> removal d = Inr ()"
  shows "reset_entries dir (ds @ es) removed kept =
    reset_entries dir es (removed + of_nat (length (filter state_entry ds))) (rev (filter (\<lambda>d. \<not> state_entry d) ds) @ kept)"
  using assms
proof (induction ds arbitrary: removed kept)
  case (Cons d ds)
  have "removal d = Inr () \<or> \<not> state_entry d" using Cons.prems [of d] by auto
  with Cons show ?case by (cases "state_entry d") (simp_all add: removal_def add.assoc)
qed simp

text \<open>A concrete host: one fresh database, every address free, two runs of the logging crate refused.\<close>

definition mem_host :: "(mem_db, mem_db, mem_handle, (string \<rightharpoonup> bytes), bytes, nat) Host" where
  "mem_host = \<lparr>ho_ext = mem_ext, ho_fork = sample_fork, ho_keys = mem_keys,
     ho_files = snd (generate_committee mem_keys sample_seeds ''h'' 3500 Map.empty),
     ho_var = (\<lambda>_. None), ho_filter = (\<lambda>_. Inr ()),
     ho_try_init = (\<lambda>b. if b then Inl ''a global default trace dispatcher has already been set'' else Inr ()),
     ho_exists = (\<lambda>p. p = ''data''), ho_create_dir_all = (\<lambda>_. Inr ()), ho_read = (\<lambda>_. Inl ''not found''),
     ho_toml = (\<lambda>_. Inr default_file_config), ho_legacy = (\<lambda>_. no_legacy), ho_open_db = (\<lambda>_. Inr mem_empty),
     ho_random_signer = 9, ho_is_ip = (\<lambda>_. True), ho_bind = (\<lambda>_ _. Inr ()), ho_mesh = idle_mesh,
     ho_overflow_checks = False\<rparr>"

lemma mem_host_sels [simp]:
  "ho_ext mem_host = mem_ext" "ho_keys mem_host = mem_keys" "ho_legacy mem_host p = no_legacy"
  "ho_open_db mem_host p = Inr mem_empty" "ho_random_signer mem_host = 9" "ho_is_ip mem_host q" "ho_bind mem_host q port = Inr ()"
  "ho_mesh mem_host = idle_mesh" "ho_create_dir_all mem_host p = Inr ()" "ho_filter mem_host p = Inr ()"
  "ho_try_init mem_host False = Inr ()" "ho_files mem_host = snd (generate_committee mem_keys sample_seeds ''h'' 3500 Map.empty)"
  "ho_fork mem_host = sample_fork" "\<not> ho_overflow_checks mem_host"
  by (simp_all add: mem_host_def)

lemma mem_host_fresh: "\<exists>h. ho_open_db mem_host p = Inr h \<and> fresh_store (x_kv (ho_ext mem_host)) h"
  "lf_journal (ho_legacy mem_host p) = None"
  by (simp_all add: mem_fresh_store) (simp add: no_legacy_def)

lemma mem_set_key: "\<exists>h. set_faucet_key mem_kv n s = (Inr (), n\<lparr>n_store := h, n_faucet_key := Some s\<rparr>)"
  by (rule exI [of _ "snd (kv_put mem_kv (n_store n) META_FAUCET_KEY (to_be_bytes 32 s))"])
    (simp add: set_faucet_key_def store_set_faucet_key_def mem_kv_def)

section \<open>Properties\<close>

text \<open>
  C26. The \<open>fork\<close> subcommand never serves. \<open>run_fork\<close> installs the logging subscriber and then calls \<open>run\<close>, which
  installs it again; with a logging crate that refuses a second global subscriber, every \<open>fork\<close> command, whatever
  its arguments, the remote endpoint and the data directory, ends with a fatal message.
\<close>

theorem fork_command_never_serves:
  assumes "installs_once ho"
  shows "\<exists>m. main ho seeds answer listing (ForkCmd url block account slot dir port host key level) = Serving (Fatal m)"
proof -
  have "ends_fatally (fork_command ho url block account slot dir port host key level)"
    unfolding fork_command_def Let_def
    by (intro ends_fatally_bind proc_map_not_aborts or_fatal_not_aborts parse_opt_secret_not_aborts
        run_fork_fatal assms)
  then show ?thesis by (auto simp: main_def ends_fatally_def)
qed

theorem fork_command_never_serves_witness:
  "\<exists>m. main mem_host (\<lambda>_. []) (Inl []) (\<lambda>_. Inr []) (ForkCmd (Some ''http://localhost'') ''latest'' [] [] None 8545
     ''127.0.0.1'' None LInfo) = Serving (Fatal m)"
  by (rule fork_command_never_serves) (simp add: installs_once_def mem_host_def)

text \<open>
  Without a \<open>state.json\<close>, which a node on RocksDB never writes, every start without \<open>--faucet-key\<close> is taken for a
  fresh one: the faucet key of the served node, in memory and in its database, is the newly generated one, whatever
  key the database held before.
\<close>

theorem start_replaces_faucet_key:
  assumes "kv_ok (x_kv (ho_ext ho))" and "\<not> ho_exists ho (so_state_file opts)" and "so_faucet_key opts = None"
    and "run ho installed opts = Runs sv"
  shows "n_faucet_key (sv_node sv) = Some (ho_random_signer ho)
    \<and> store_load_faucet_key (x_kv (ho_ext ho)) (n_store (sv_node sv)) = Inr (Some (ho_random_signer ho))"
proof -
  from assms(2-4) obtain n n' where s: "store_secret ho n (ho_random_signer ho) = Runs n'"
      and sv: "sv_node sv = snd (balance_of (x_revm (ho_ext ho)) n' (fst (generate_faucet_key ho)))"
    by (auto simp: run_def proc_bind_Runs start_secret_def start_faucet_def generate_faucet_key_def serve_rpc_def
        split: if_splits)
  from s obtain h where "store_set_faucet_key (x_kv (ho_ext ho)) (n_store n) (ho_random_signer ho) = (Inr (), h)"
      "n' = n\<lparr>n_store := h, n_faucet_key := Some (ho_random_signer ho)\<rparr>"
    by (auto simp: store_secret_def set_faucet_key_def split: prod.splits sum.splits)
  with store_set_faucet_key_ok [OF assms(1), of "n_store n" "ho_random_signer ho" h META_FAUCET_KEY] show ?thesis
    by (simp add: sv balance_of_cases store_load_faucet_key_def)
qed

theorem start_replaces_faucet_key_witness:
  "\<exists>sv. local_command mem_host 8545 LInfo = Runs sv \<and> n_faucet_key (sv_node sv) = Some 9
     \<and> store_load_faucet_key mem_kv (n_store (sv_node sv)) = Inr (Some 9)"
proof -
  let ?o = "\<lparr>so_network = Devnet, so_rpc_port = 8545, so_rpc_host = ''127.0.0.1'', so_data_dir = ''./.kanari-evm-local'',
     so_state_file = join_dir ''./.kanari-evm-local'' ''state.json'', so_faucets = [], so_faucet_key = None,
     so_log_level = LInfo, so_chain_id_override = None, so_genesis_extra = no_extra\<rparr>"
  have fs: "fresh_store (x_kv mem_ext) mem_empty" "lf_journal no_legacy = None"
    by (simp_all add: mem_fresh_store no_legacy_def)
  have rv: "db_ok (x_revm mem_ext)" "storage_insert_ok (x_revm mem_ext)" "cs_genesis_code (start_spec ?o True) = []"
    by (simp_all add: mem_db_ok mem_storage_insert_ok) (simp add: start_spec_def no_extra_def with_alloc_def Let_def)
  obtain db where db: "apply_genesis (x_revm mem_ext) (start_spec ?o True) (rv_default (x_revm mem_ext)) = Returns db"
    by (rule apply_genesis_no_code [OF rv])
  obtain n0 where n0: "open_node mem_ext no_legacy (start_spec ?o True) (Inr mem_empty) = Returns (Inr n0)"
    by (rule open_fresh [OF mem_env_ok fs db])
  have fresh: "\<not> ho_exists mem_host (so_state_file ?o)" by (simp add: mem_host_def join_dir_def)
  obtain h where h: "set_faucet_key mem_kv n0 9 = (Inr (), n0\<lparr>n_store := h, n_faucet_key := Some 9\<rparr>)"
    using mem_set_key by blast
  have "\<exists>sv. run mem_host False ?o = Runs sv"
    using n0 h fresh
    by (simp add: run_def init_logging_def start_secret_def generate_faucet_key_def open_process_def start_faucet_def
        store_secret_def serve_rpc_def)
  then obtain sv where sv: "run mem_host False ?o = Runs sv" by blast
  have kv: "kv_ok (x_kv (ho_ext mem_host))" by (simp add: mem_kv_ok)
  from start_replaces_faucet_key [OF kv fresh _ sv] sv show ?thesis by (simp add: local_command_def)
qed

text \<open>
  C35. Reset: on an existing directory, forced or confirmed with YES, the entries named \<open>state.json\<close> or ending in
  \<open>.chain.db\<close>, \<open>.faucet.key\<close> or \<open>.smt\<close> are removed in order, directories with \<open>remove_dir_all\<close> and the others with
  \<open>remove_file\<close>. When all these removals succeed, exactly these entries are gone, everything else is left in place and
  their number is reported; otherwise the command stops at the first removal that fails, reports that entry and leaves
  it and everything after it.
\<close>

theorem reset_removes_exactly_state:
  assumes "ho_exists ho dir" and "force \<or> (\<exists>line. answer = Inr line \<and> trim line = ''YES'')" and "listing dir = Inr ds"
  shows "let state = (\<lambda>d. \<exists>name. dn_name d = Some name \<and> (name = ''state.json'' \<or> suffix ''.chain.db'' name
           \<or> suffix ''.faucet.key'' name \<or> suffix ''.smt'' name));
         gone = (\<lambda>d. (if dn_is_dir d then dn_remove_dir_all d else dn_remove_file d) = Inr ())
     in ((\<forall>d\<in>set ds. state d \<longrightarrow> gone d) \<longrightarrow>
           main ho seeds answer listing (Reset (Some dir) force)
             = ResetDone (ResetComplete (of_nat (length (filter state ds)))) (filter (\<lambda>d. \<not> state d) ds))
      \<and> (\<forall>before d after. ds = before @ d # after \<and> (\<forall>c\<in>set before. state c \<longrightarrow> gone c) \<and> state d \<and> \<not> gone d \<longrightarrow>
           (\<exists>e name. dn_name d = Some name \<and> main ho seeds answer listing (Reset (Some dir) force)
             = ResetDone (ResetFailed (''cannot remove '' @ join_dir dir name @ '': '' @ e))
                 (filter (\<lambda>d. \<not> state d) before @ d # after)))"
proof -
  have st: "state_entry = (\<lambda>d. \<exists>name. dn_name d = Some name \<and> (name = ''state.json'' \<or> suffix ''.chain.db'' name
      \<or> suffix ''.faucet.key'' name \<or> suffix ''.smt'' name))"
    by (intro ext) (auto simp: state_entry_def ends_with_suffix unwrap_or_def Let_def split: option.splits)
  have main: "main ho seeds answer listing (Reset (Some dir) force) = case_prod ResetDone (reset_entries dir ds 0 [])"
    using assms by (auto simp: main_def cmd_reset_def unwrap_or_def split: sum.splits)
  have all: "reset_entries dir ds 0 [] = (ResetComplete (of_nat (length (filter state_entry ds))), filter (\<lambda>d. \<not> state_entry d) ds)"
    if "\<forall>d\<in>set ds. state_entry d \<longrightarrow> removal d = Inr ()"
    using reset_entries_prefix [of ds dir "[]" 0 "[]"] that by simp
  have stop: "\<exists>e name. dn_name d = Some name \<and> reset_entries dir (before @ d # after) 0 []
      = (ResetFailed (''cannot remove '' @ join_dir dir name @ '': '' @ e), filter (\<lambda>d. \<not> state_entry d) before @ d # after)"
    if pre: "\<forall>c\<in>set before. state_entry c \<longrightarrow> removal c = Inr ()" and d: "state_entry d" "removal d \<noteq> Inr ()" for before d after
  proof -
    obtain e where e: "removal d = Inl e" using d(2) by (cases "removal d") auto
    obtain name where "dn_name d = Some name" using d(1) unfolding st by blast
    with reset_entries_prefix [of before dir "d # after" 0 "[]"] pre d(1) e show ?thesis
      by (simp add: removal_def unwrap_or_def)
  qed
  have "((\<forall>d\<in>set ds. state_entry d \<longrightarrow> removal d = Inr ()) \<longrightarrow> case_prod ResetDone (reset_entries dir ds 0 [])
        = ResetDone (ResetComplete (of_nat (length (filter state_entry ds)))) (filter (\<lambda>d. \<not> state_entry d) ds))
    \<and> (\<forall>before d after. ds = before @ d # after \<and> (\<forall>c\<in>set before. state_entry c \<longrightarrow> removal c = Inr ())
        \<and> state_entry d \<and> removal d \<noteq> Inr () \<longrightarrow>
      (\<exists>e name. dn_name d = Some name \<and> case_prod ResetDone (reset_entries dir ds 0 [])
        = ResetDone (ResetFailed (''cannot remove '' @ join_dir dir name @ '': '' @ e))
            (filter (\<lambda>d. \<not> state_entry d) before @ d # after)))"
  proof (intro conjI impI allI, goal_cases)
    case 1
    from all [OF 1] show ?case by simp
  next
    case (2 before d after)
    then obtain e name where "dn_name d = Some name" "reset_entries dir ds 0 []
      = (ResetFailed (''cannot remove '' @ join_dir dir name @ '': '' @ e), filter (\<lambda>d. \<not> state_entry d) before @ d # after)"
      using stop [of before d after] by blast
    then show ?case by (intro exI [of _ e] exI [of _ name]) simp
  qed
  then show ?thesis unfolding Let_def main st removal_def .
qed

theorem reset_removes_exactly_state_witness:
  "main mem_host (\<lambda>_. []) (Inl []) (\<lambda>_. Inr [\<lparr>dn_name = Some ''state.chain.db'', dn_is_dir = True,
          dn_remove_dir_all = Inr (), dn_remove_file = Inl ''is a directory''\<rparr>,
       \<lparr>dn_name = Some ''notes.txt'', dn_is_dir = False, dn_remove_dir_all = Inl ''not a directory'',
          dn_remove_file = Inl ''denied''\<rparr>]) (Reset (Some ''data'') True)
     = ResetDone (ResetComplete 1) [\<lparr>dn_name = Some ''notes.txt'', dn_is_dir = False,
          dn_remove_dir_all = Inl ''not a directory'', dn_remove_file = Inl ''denied''\<rparr>]"
proof -
  let ?a = "\<lparr>dn_name = Some ''state.chain.db'', dn_is_dir = True, dn_remove_dir_all = Inr (), dn_remove_file = Inl ''is a directory''\<rparr>"
  let ?b = "\<lparr>dn_name = Some ''notes.txt'', dn_is_dir = False, dn_remove_dir_all = Inl ''not a directory'', dn_remove_file = Inl ''denied''\<rparr>"
  have s: "suffix ''.chain.db'' ''state.chain.db''" "\<not> suffix ''.chain.db'' ''notes.txt''" "\<not> suffix ''.faucet.key'' ''notes.txt''"
    "\<not> suffix ''.smt'' ''notes.txt''"
    by (simp_all add: ends_with_suffix [symmetric] ends_with_def)
  have e: "ho_exists mem_host ''data''" by (simp add: mem_host_def)
  from reset_removes_exactly_state [of mem_host "''data''" True "Inl []" "\<lambda>_. Inr [?a, ?b]" "[?a, ?b]" "\<lambda>_. []", OF e] s
  show ?thesis by (simp add: Let_def)
qed

text \<open>
  The genesis of a fresh fork: besides the imported accounts it funds the dev account with the full devnet supply and
  lists the faucet account twice, so the allocations that \<open>supply()\<close> adds up hold the faucet's million twice.
\<close>

theorem fork_genesis_alloc:
  "cs_genesis_alloc (start_spec (fork_start opts True g addr secret) True) =
     (DEV_FUNDED_ACCOUNT, ucast DEV_FUNDED_BALANCE) # (addr, ucast (sat_mul FORK_FAUCET_ETH WEI_IN_ETH))
       # fg_alloc g @ [(addr, ucast (sat_mul FORK_FAUCET_ETH WEI_IN_ETH))]"
  by (simp add: start_spec_def fork_start_def with_alloc_def Let_def)

end
