(* ===== verification/Traffic.thy ===== *)
theory Traffic
  imports Validator Rpc
begin

text \<open>
  A validator under traffic. The server and the commit loop share the node behind one lock
  (\<^verbatim>\<open>SharedNode\<close> in \<^verbatim>\<open>crates/move-execution/src/node.rs\<close>). A request holds the lock while it is served; the loop
  (\<^verbatim>\<open>crates/consensus/src/validator.rs\<close>) takes it once per commit for the counter and once per attempted payload, so
  requests are served in the middle of a sweep. This theory models the tasks as steps between two acquisitions of the
  lock and relates every interleaving to the loop running alone.
\<close>

section \<open>What a request does to a validator's node\<close>

text \<open>Methods that read contract storage or execute code on the node's own database.\<close>

definition leaf_methods :: "string set" where
  "leaf_methods = {''eth_getStorageAt'', ''eth_call'', ''eth_estimateGas'', ''debug_traceCall''}"

text \<open>Executions without commit are unobserved except for the leaves they may leave, the traced ones too.\<close>

definition traffic_unobserved :: "('db, 'st, 'h) RpcEnv \<Rightarrow> bool" where
  "traffic_unobserved e \<longleftrightarrow> executions_unobserved (x_revm (re_ext e)) (x_crypto (re_ext e))
     \<and> (\<forall>evm db tx. db_sim (x_revm (re_ext e)) (x_crypto (re_ext e)) False
          (snd (snd (tr_inspect (re_tracer e) evm db tx))) db)"

text \<open>Serving changes the database, not visibly, and in validator mode hands batches to the DAG.\<close>

definition served :: "('db, 'st, 'h) Ext \<Rightarrow> bool \<Rightarrow> ('db, 'h) KanariNode \<Rightarrow> ('db, 'h) KanariNode \<Rightarrow> bool" where
  "served x roots n n' \<longleftrightarrow> n' = n\<lparr>n_db := n_db n', n_dag_sender := n_dag_sender n'\<rparr> \<and> is_validator_mode n'
     \<and> db_sim (x_revm x) (x_crypto x) roots (n_db n') (n_db n)"

lemma served_refl: "is_validator_mode n \<Longrightarrow> served x roots n n"
  by (simp add: served_def)

lemma served_db:
  "is_validator_mode n \<Longrightarrow> db_sim (x_revm x) (x_crypto x) roots db (n_db n) \<Longrightarrow> served x roots n (n\<lparr>n_db := db\<rparr>)"
  by (simp add: served_def is_validator_mode_def)

lemma served_fields:
  assumes "served x roots n n'"
  shows "n_spec n' = n_spec n" "n_blocks n' = n_blocks n" "n_receipts n' = n_receipts n" "is_validator_mode n'"
    "n_store n' = n_store n" "db_sim (x_revm x) (x_crypto x) roots (n_db n') (n_db n)"
proof -
  have n': "n' = n\<lparr>n_db := n_db n', n_dag_sender := n_dag_sender n'\<rparr>" using assms by (simp add: served_def)
  show "n_spec n' = n_spec n" "n_blocks n' = n_blocks n" "n_receipts n' = n_receipts n" "n_store n' = n_store n"
    by (subst n', simp)+
qed (use assms in \<open>simp_all add: served_def\<close>)

lemma served_replica: "served x roots n n' \<Longrightarrow> same_replica x roots n' n"
  by (simp add: same_replica_def served_fields)

lemma served_trans:
  assumes "served x roots n m" "served x roots m k"
  shows "served x roots n k"
proof -
  have nm: "m = n\<lparr>n_db := n_db m, n_dag_sender := n_dag_sender m\<rparr>" using assms(1) by (simp add: served_def)
  have "m\<lparr>n_db := a, n_dag_sender := b\<rparr> = n\<lparr>n_db := a, n_dag_sender := b\<rparr>" for a b by (subst nm) simp
  with assms show ?thesis by (simp add: served_def db_sim_trans [of _ _ _ "n_db k" "n_db m"])
qed

lemma lookups_sim_any: "lookups_unobserved rv cr \<Longrightarrow> db_sim rv cr roots (snd (rv_basic rv db a)) db"
  by (rule db_sim_weaken [OF lookups_sim(1)])

text \<open>Account lookups.\<close>

lemma lookups_served:
  assumes "lookups_unobserved (x_revm x) (x_crypto x)" and "is_validator_mode n"
  shows "served x roots n (snd (balance_of (x_revm x) n a))" "served x roots n (snd (nonce_of (x_revm x) n a))"
    "served x roots n (snd (code_of (x_revm x) n a))"
proof -
  note look = served_db [OF assms(2) lookups_sim_any [OF assms(1)]]
  show "served x roots n (snd (balance_of (x_revm x) n a))" "served x roots n (snd (nonce_of (x_revm x) n a))"
    by (simp_all add: balance_of_cases nonce_of_cases look)
  have "snd (code_of (x_revm x) n a) = n\<lparr>n_db := snd (rv_basic (x_revm x) (n_db n) a)\<rparr>"
    by (simp add: code_of_def split: prod.splits sum.splits option.splits)
  then show "served x roots n (snd (code_of (x_revm x) n a))" by (simp add: look)
qed

text \<open>Submissions and drips in validator mode.\<close>

lemma send_served:
  assumes "is_validator_mode n"
  shows "served x roots n (snd (send_raw_transaction x n raw now))"
  using assms by (auto simp: send_raw_transaction_def served_def is_validator_mode_def split: sum.splits)

lemma faucet_served:
  assumes "lookups_unobserved (x_revm x) (x_crypto x)" and "is_validator_mode n"
  shows "served x roots n (snd (faucet x n to amt now))"
proof (cases rule: faucet_submits [of x n to amt now])
  case (failed e db)
  with assms(1) have "db_sim (x_revm x) (x_crypto x) roots db (n_db n)" by (auto intro: db_sim_weaken)
  with failed(1) show ?thesis by (simp add: served_db [OF assms(2)])
next
  case (sent db raw)
  with assms(1) have "db_sim (x_revm x) (x_crypto x) roots db (n_db n)" by (auto intro: db_sim_weaken)
  from served_trans [OF served_db [OF assms(2) this] send_served] sent(1) assms(2)
  show ?thesis by (simp add: is_validator_mode_def)
qed

text \<open>Storage reads, calls and traced calls, when roots do not count.\<close>

lemma call_start:
  assumes "lookups_unobserved (x_revm x) (x_crypto x)"
  obtains k db where "(case cr_nonce c of Some k \<Rightarrow> (k, n)
      | None \<Rightarrow> (case nonce_of (x_revm x) n (case cr_from c of Some a \<Rightarrow> a | None \<Rightarrow> 0) of
                  (Inr k, n') \<Rightarrow> (k, n') | (Inl _, n') \<Rightarrow> (0, n'))) = (k, n\<lparr>n_db := db\<rparr>)"
    "db_sim (x_revm x) (x_crypto x) roots db (n_db n)"
proof (cases "cr_nonce c")
  case None
  let ?a = "case cr_from c of Some a \<Rightarrow> a | None \<Rightarrow> 0"
  let ?r = "map_sum Storage (case_option 0 ai_nonce) (fst (rv_basic (x_revm x) (n_db n) ?a))"
  from None show thesis
    by (intro that [of "case ?r of Inr k \<Rightarrow> k | Inl _ \<Rightarrow> 0" "snd (rv_basic (x_revm x) (n_db n) ?a)",
          OF _ lookups_sim_any [OF assms]]) (simp add: nonce_of_cases split: sum.split)
next
  case (Some k)
  then show thesis by (intro that [of k "n_db n"]) simp_all
qed

lemma executions_served:
  assumes "lookups_unobserved (x_revm x) (x_crypto x)" "executions_unobserved (x_revm x) (x_crypto x)"
    and "is_validator_mode n"
  shows "served x False n (snd (storage_of (x_revm x) n a slot))" "served x False n (snd (call x n c now))"
proof -
  have "snd (storage_of (x_revm x) n a slot) = n\<lparr>n_db := snd (rv_storage (x_revm x) (n_db n) a slot)\<rparr>"
    by (simp add: storage_of_def split: prod.splits)
  with assms(2) show "served x False n (snd (storage_of (x_revm x) n a slot))"
    by (simp add: served_db [OF assms(3)] executions_unobserved_def)
  obtain k db where s: "(case cr_nonce c of Some k \<Rightarrow> (k, n)
      | None \<Rightarrow> (case nonce_of (x_revm x) n (case cr_from c of Some a \<Rightarrow> a | None \<Rightarrow> 0) of
                  (Inr k, n') \<Rightarrow> (k, n') | (Inl _, n') \<Rightarrow> (0, n'))) = (k, n\<lparr>n_db := db\<rparr>)"
    "db_sim (x_revm x) (x_crypto x) False db (n_db n)" by (rule call_start [OF assms(1)])
  have "\<exists>evm tx. snd (call x n c now) = n\<lparr>n_db := snd (rv_transact_one (x_revm x) evm db tx)\<rparr>"
    unfolding call_def Let_def s(1) prod.case by (simp split: prod.split sum.split) (metis snd_conv)
  then obtain evm tx where "snd (call x n c now) = n\<lparr>n_db := snd (rv_transact_one (x_revm x) evm db tx)\<rparr>" by blast
  with assms(2) s(2) show "served x False n (snd (call x n c now))"
    using db_sim_trans [OF _ s(2)] by (simp add: executions_unobserved_def served_db [OF assms(3)])
qed

lemma trace_served:
  assumes "lookups_unobserved (x_revm x) (x_crypto x)" "is_validator_mode n"
    and "\<And>evm db tx. db_sim (x_revm x) (x_crypto x) False (snd (snd (tr_inspect tr evm db tx))) db"
  shows "served x False n (snd (trace_call x tr n c opts now))"
proof -
  obtain k db where s: "(case cr_nonce c of Some k \<Rightarrow> (k, n)
      | None \<Rightarrow> (case nonce_of (x_revm x) n (case cr_from c of Some a \<Rightarrow> a | None \<Rightarrow> 0) of
                  (Inr k, n') \<Rightarrow> (k, n') | (Inl _, n') \<Rightarrow> (0, n'))) = (k, n\<lparr>n_db := db\<rparr>)"
    "db_sim (x_revm x) (x_crypto x) False db (n_db n)" by (rule call_start [OF assms(1)])
  have "\<exists>evm tx. snd (trace_call x tr n c opts now) = n\<lparr>n_db := snd (snd (tr_inspect tr evm db tx))\<rparr>"
    unfolding trace_call_def Let_def s(1) prod.case by (simp add: split_beta trace_in_db) blast
  with db_sim_trans [OF assms(3) s(2)] show ?thesis by (auto simp: served_db [OF assms(2)])
qed

text \<open>One request, any method.\<close>

lemma dispatch_served:
  assumes "lookups_unobserved (x_revm (re_ext e)) (x_crypto (re_ext e))" and "is_validator_mode n"
    and "if roots then rq_method req \<notin> leaf_methods else traffic_unobserved e"
  shows "served (re_ext e) roots n (snd (dispatch_inner e n now req))"
proof -
  note look = lookups_served [OF assms(1,2)] served_refl [OF assms(2)]
  have reads: "served (re_ext e) roots n (snd (eth_getCode e n rid params))"
    "served (re_ext e) roots n (snd (eth_getBalance e n rid params))"
    "served (re_ext e) roots n (snd (eth_getTransactionCount e n rid params))" for rid params
    by (auto simp: eth_getCode_def eth_getBalance_def eth_getTransactionCount_def look split: list.split sum.split)
  have writes: "served (re_ext e) roots n (snd (eth_sendRawTransaction e n now rid params))"
    "served (re_ext e) roots n (snd (kanari_faucet e n now rid params))" for rid params
    by (auto simp: eth_sendRawTransaction_def kanari_faucet_def look send_served [OF assms(2)]
        faucet_served [OF assms(1,2)] split: list.split sum.split option.split)
  have leaves: "served (re_ext e) roots n (snd (eth_getStorageAt e n rid params))"
    "served (re_ext e) roots n (snd (eth_call e n now b rid params))"
    "served (re_ext e) roots n (snd (debug_traceCall e n now rid params))" if "\<not> roots" for b rid params
  proof -
    have un: "executions_unobserved (x_revm (re_ext e)) (x_crypto (re_ext e))"
      "\<And>evm db tx. db_sim (x_revm (re_ext e)) (x_crypto (re_ext e)) False
          (snd (snd (tr_inspect (re_tracer e) evm db tx))) db"
      using assms(3) that by (simp_all add: traffic_unobserved_def)
    note ex = executions_served [OF assms(1) un(1) assms(2)] trace_served [OF assms(1,2) un(2)] served_refl [OF assms(2)]
    show "served (re_ext e) roots n (snd (eth_getStorageAt e n rid params))"
      "served (re_ext e) roots n (snd (eth_call e n now b rid params))"
      "served (re_ext e) roots n (snd (debug_traceCall e n now rid params))"
      using that
      by (auto simp: eth_getStorageAt_def eth_call_def debug_traceCall_def ex split: list.split sum.split outcome.split)
  qed
  show ?thesis
    using assms(3) reads writes leaves served_refl [OF assms(2), of "re_ext e" roots]
    by (cases roots) (simp_all add: dispatch_inner_def Let_def leaf_methods_def)
qed

section \<open>What a request does to a standalone node\<close>

text \<open>A request that reads no storage and executes nothing outside a block is a plain step of the node, or none.\<close>

lemma dispatch_plain:
  assumes "rq_method req \<notin> leaf_methods"
  shows "snd (dispatch_inner e n now req) = n \<or> plain_step (re_ext e) n (snd (dispatch_inner e n now req))"
proof -
  define idle_or_plain where "idle_or_plain n' \<longleftrightarrow> n' = n \<or> plain_step (re_ext e) n n'" for n'
  have reads: "idle_or_plain (snd (eth_getCode e n rid params))" "idle_or_plain (snd (eth_getBalance e n rid params))"
    "idle_or_plain (snd (eth_getTransactionCount e n rid params))" for rid params
    using plain_step.read_code [OF prod.collapse [symmetric], of "re_ext e" n]
      plain_step.read_balance [OF prod.collapse [symmetric], of "re_ext e" n]
      plain_step.read_nonce [OF prod.collapse [symmetric], of "re_ext e" n]
    by (auto simp: idle_or_plain_def eth_getCode_def eth_getBalance_def eth_getTransactionCount_def split: list.split sum.split)
  have writes: "idle_or_plain (snd (eth_sendRawTransaction e n now rid params))" "idle_or_plain (snd (kanari_faucet e n now rid params))"
    for rid params
    using plain_step.send [OF prod.collapse [symmetric], of "re_ext e" n]
      plain_step.drip [OF prod.collapse [symmetric], of "re_ext e" n]
    by (auto simp: idle_or_plain_def eth_sendRawTransaction_def kanari_faucet_def split: list.split sum.split option.split)
  have idle: "idle_or_plain n" by (simp add: idle_or_plain_def)
  have "idle_or_plain (snd (dispatch_inner e n now req))"
    using assms by (simp add: dispatch_inner_def Let_def leaf_methods_def reads writes idle)
  then show ?thesis by (simp add: idle_or_plain_def)
qed

definition serve_all :: "('db, 'st, 'h) RpcEnv \<Rightarrow> (u64 \<times> RpcRequest) list \<Rightarrow> ('db, 'h) KanariNode \<Rightarrow> ('db, 'h) KanariNode" where
  "serve_all e reqs n = fold (\<lambda>(now, req) n. snd (dispatch_inner e n now req)) reqs n"

lemma serve_all_plain:
  assumes "\<And>now req. (now, req) \<in> set reqs \<Longrightarrow> rq_method req \<notin> leaf_methods" and "plain_run (re_ext e) n0 n"
  shows "plain_run (re_ext e) n0 (serve_all e reqs n)"
  using assms
proof (induction reqs arbitrary: n)
  case (Cons p reqs)
  obtain now req where p: "p = (now, req)" by (cases p)
  have "plain_run (re_ext e) n0 (snd (dispatch_inner e n now req))"
    using dispatch_plain [of req e n now] Cons.prems(1) [of now req] plain_run.step [OF Cons.prems(2)] Cons.prems(2)
    by (auto simp: p)
  moreover have "rq_method r \<notin> leaf_methods" if "(k, r) \<in> set reqs" for k r using Cons.prems(1) [of k r] that by simp
  ultimately show ?case using Cons.IH by (simp add: serve_all_def p)
qed (simp add: serve_all_def)

section \<open>The tasks of a validator\<close>

text \<open>
  Where the commit loop stands: waiting for a commit, or within a pass over the queue at a timestamp, with the
  payloads to try, the ones that failed in this pass and whether one was sealed.
\<close>

datatype LoopPc = Waiting | Passing u64 "bytes list" "bytes list" bool

text \<open>
  The shared node, the loop's local variables, the commits in the channel and, for the record, all commits
  delivered so far.
\<close>

record ('db, 'h, 'r) Tasks =
  tk_node :: "('db, 'h) KanariNode"
  tk_last_ts :: u64
  tk_pending :: "bytes list"
  tk_pc :: LoopPc
  tk_channel :: "'r CommittedSubDag list"
  tk_delivered :: "'r CommittedSubDag list"

text \<open>
  One step is what a task does between two acquisitions of the lock: the DAG delivers a commit, the loop receives
  one (counting it), tries one payload, starts another pass or goes back to waiting, or the server serves one
  request out of the allowed ones at any time of its clock.
\<close>

inductive task_step ::
  "('db, 'st, 'h) RpcEnv \<Rightarrow> (RpcRequest \<Rightarrow> bool) \<Rightarrow> ('db, 'h, 'r) Tasks \<Rightarrow> ('db, 'h, 'r) Tasks \<Rightarrow> bool" for e allowed where
  deliver: "task_step e allowed t (t\<lparr>tk_channel := tk_channel t @ [c], tk_delivered := tk_delivered t @ [c]\<rparr>)"
| receive: "tk_pc t = Waiting \<Longrightarrow> tk_channel t = c # cs \<Longrightarrow> ts = max (commit_timestamp c) (tk_last_ts t) \<Longrightarrow>
    task_step e allowed t (t\<lparr>tk_node := note_commit (tk_node t), tk_last_ts := ts, tk_pending := [],
      tk_pc := Passing ts (enqueue (tk_pending t) (ordered_payloads [c])) [] False, tk_channel := cs\<rparr>)"
| attempt: "tk_pc t = Passing ts (raw # todo) failed p \<Longrightarrow> seal_committed (re_ext e) (tk_node t) raw ts = (r, n') \<Longrightarrow>
    task_step e allowed t (t\<lparr>tk_node := n', tk_pc := (case r of
      Inr _ \<Rightarrow> Passing ts todo failed True | Inl _ \<Rightarrow> Passing ts todo (failed @ [raw]) p)\<rparr>)"
| again: "tk_pc t = Passing ts [] failed True \<Longrightarrow> failed \<noteq> [] \<Longrightarrow>
    task_step e allowed t (t\<lparr>tk_pc := Passing ts failed [] False\<rparr>)"
| settle: "tk_pc t = Passing ts [] failed p \<Longrightarrow> \<not> p \<or> failed = [] \<Longrightarrow>
    task_step e allowed t (t\<lparr>tk_pending := failed, tk_pc := Waiting\<rparr>)"
| serve: "allowed req \<Longrightarrow> dispatch_inner e (tk_node t) now req = (out, n') \<Longrightarrow>
    task_step e allowed t (t\<lparr>tk_node := n'\<rparr>)"

inductive task_run ::
  "('db, 'st, 'h) RpcEnv \<Rightarrow> (RpcRequest \<Rightarrow> bool) \<Rightarrow> ('db, 'h, 'r) Tasks \<Rightarrow> ('db, 'h, 'r) Tasks \<Rightarrow> bool"
  for e allowed t0 where
  start: "task_run e allowed t0 t0"
| step: "task_run e allowed t0 t \<Longrightarrow> task_step e allowed t t' \<Longrightarrow> task_run e allowed t0 t'"

definition start_tasks :: "('db, 'h) ValidatorState \<Rightarrow> ('db, 'h, 'r) Tasks" where
  "start_tasks v = \<lparr>tk_node = vs_node v, tk_last_ts = vs_last_ts v, tk_pending = vs_pending v, tk_pc = Waiting,
     tk_channel = [], tk_delivered = []\<rparr>"

section \<open>Refinement of the sequential loop\<close>

text \<open>What the loop would end in if it ran on alone: the rest of the pass, the sweep, the commits in the channel.\<close>

definition finish_pass ::
  "('db, 'st, 'h) Ext \<Rightarrow> u64 \<Rightarrow> bytes list \<Rightarrow> bytes list \<Rightarrow> bool \<Rightarrow> ('db, 'h) KanariNode \<Rightarrow> bytes list \<times> ('db, 'h) KanariNode" where
  "finish_pass x ts todo failed p n =
     (case seal_pass (seal_committed x) ts todo n of (q, _, st, n') \<Rightarrow>
        if \<not> (p \<or> q) \<or> failed @ st = [] then (failed @ st, n')
        else snd (sweep (seal_committed x) ts (failed @ st) n'))"

definition finish_commit :: "('db, 'st, 'h) Ext \<Rightarrow> ('db, 'h, 'r) Tasks \<Rightarrow> ('db, 'h) ValidatorState" where
  "finish_commit x t = (case tk_pc t of
       Waiting \<Rightarrow> \<lparr>vs_node = tk_node t, vs_last_ts = tk_last_ts t, vs_pending = tk_pending t\<rparr>
     | Passing ts todo failed p \<Rightarrow>
         (case finish_pass x ts todo failed p (tk_node t) of (pending, n) \<Rightarrow>
            \<lparr>vs_node = n, vs_last_ts = tk_last_ts t, vs_pending = pending\<rparr>))"

definition completion :: "('db, 'st, 'h) Ext \<Rightarrow> ('db, 'h, 'r) Tasks \<Rightarrow> ('db, 'h) ValidatorState" where
  "completion x t = execute_commits x (tk_channel t) (finish_commit x t)"

lemma sweep_finish: "snd (sweep (seal_committed x) ts q n) = finish_pass x ts q [] False n"
  by (subst sweep.simps) (auto simp: finish_pass_def split: prod.splits)

text \<open>Steps of the loop do not change what it will end in.\<close>

lemma receive_completion:
  assumes "tk_pc t = Waiting" "tk_channel t = c # cs" "ts = max (commit_timestamp c) (tk_last_ts t)"
  shows "completion x (t\<lparr>tk_node := note_commit (tk_node t), tk_last_ts := ts, tk_pending := [],
      tk_pc := Passing ts (enqueue (tk_pending t) (ordered_payloads [c])) [] False, tk_channel := cs\<rparr>) = completion x t"
proof -
  let ?q = "enqueue (tk_pending t) (ordered_payloads [c])"
  have "execute_commit x c \<lparr>vs_node = tk_node t, vs_last_ts = tk_last_ts t, vs_pending = tk_pending t\<rparr>
      = (case finish_pass x ts ?q [] False (note_commit (tk_node t)) of (pending, n) \<Rightarrow>
           \<lparr>vs_node = n, vs_last_ts = ts, vs_pending = pending\<rparr>)"
    by (simp add: execute_commit_def assms(3) sweep_finish [symmetric] Let_def split: prod.split)
  with assms show ?thesis by (simp add: completion_def finish_commit_def execute_commits_def)
qed

lemma attempt_completion:
  assumes "tk_pc t = Passing ts (raw # todo) failed p" "seal_committed x (tk_node t) raw ts = (r, n')"
  shows "completion x (t\<lparr>tk_node := n', tk_pc := (case r of
      Inr _ \<Rightarrow> Passing ts todo failed True | Inl _ \<Rightarrow> Passing ts todo (failed @ [raw]) p)\<rparr>) = completion x t"
proof -
  have "finish_commit x (t\<lparr>tk_node := n', tk_pc := (case r of
      Inr _ \<Rightarrow> Passing ts todo failed True | Inl _ \<Rightarrow> Passing ts todo (failed @ [raw]) p)\<rparr>) = finish_commit x t"
    using assms by (cases r) (simp_all add: finish_commit_def finish_pass_def split: prod.split)
  then show ?thesis by (simp add: completion_def)
qed

lemma turn_completion:
  "tk_pc t = Passing ts [] failed True \<Longrightarrow> failed \<noteq> [] \<Longrightarrow>
     completion x (t\<lparr>tk_pc := Passing ts failed [] False\<rparr>) = completion x t"
  "tk_pc t = Passing ts [] failed p \<Longrightarrow> \<not> p \<or> failed = [] \<Longrightarrow>
     completion x (t\<lparr>tk_pending := failed, tk_pc := Waiting\<rparr>) = completion x t"
proof -
  assume "tk_pc t = Passing ts [] failed True" "failed \<noteq> []"
  moreover have "finish_pass x ts [] failed True n = finish_pass x ts failed [] False n" if "failed \<noteq> []" for n
    using that by (simp add: sweep_finish [symmetric]) (simp add: finish_pass_def)
  ultimately show "completion x (t\<lparr>tk_pc := Passing ts failed [] False\<rparr>) = completion x t"
    by (simp add: completion_def finish_commit_def)
next
  assume "tk_pc t = Passing ts [] failed p" "\<not> p \<or> failed = []"
  then show "completion x (t\<lparr>tk_pending := failed, tk_pc := Waiting\<rparr>) = completion x t"
    by (auto simp: completion_def finish_commit_def finish_pass_def)
qed

text \<open>Nodes that agree end in validators that are in step.\<close>

lemma finish_pass_replica:
  assumes "working_disk x root_of" "same_replica x roots n m"
    and "finish_pass x ts todo failed p n = (pending, n')"
  shows "\<exists>m'. finish_pass x ts todo failed p m = (pending, m') \<and> same_replica x roots n' m'"
proof -
  have env: "same_env x x" by (simp add: same_env_def)
  obtain q k st n1 where pass: "seal_pass (seal_committed x) ts todo n = (q, k, st, n1)"
    by (cases "seal_pass (seal_committed x) ts todo n") auto
  obtain m1 where m1: "seal_pass (seal_committed x) ts todo m = (q, k, st, m1)" "same_replica x roots n1 m1"
    using seal_pass_replica [OF env assms(1,1,2) pass] by blast
  show ?thesis
  proof (cases "\<not> (p \<or> q) \<or> failed @ st = []")
    case True
    with assms(3) pass m1 show ?thesis by (auto simp: finish_pass_def)
  next
    case False
    obtain k2 rest n2 where sw: "sweep (seal_committed x) ts (failed @ st) n1 = (k2, rest, n2)"
      by (cases "sweep (seal_committed x) ts (failed @ st) n1") auto
    from sweep_replica [OF env assms(1,1) m1(2) sw] False assms(3) pass m1(1) sw show ?thesis
      by (auto simp: finish_pass_def)
  qed
qed

lemma completion_replica:
  assumes "working_disk x root_of" "same_replica x roots n' (tk_node t)"
  shows "in_step x roots (completion x (t\<lparr>tk_node := n'\<rparr>)) (completion x t)"
proof -
  have "in_step x roots (finish_commit x (t\<lparr>tk_node := n'\<rparr>)) (finish_commit x t)"
  proof (cases "tk_pc t")
    case Waiting
    then show ?thesis using assms(2) by (simp add: finish_commit_def in_step_def)
  next
    case (Passing ts todo failed p)
    obtain pending k where f: "finish_pass x ts todo failed p n' = (pending, k)"
      by (cases "finish_pass x ts todo failed p n'")
    from finish_pass_replica [OF assms f] Passing f show ?thesis by (auto simp: finish_commit_def in_step_def)
  qed
  from execute_commits_in_step [OF _ assms(1,1) this] show ?thesis by (simp add: completion_def same_env_def)
qed

lemma in_step_trans: "in_step x roots u v \<Longrightarrow> in_step x roots v w \<Longrightarrow> in_step x roots u w"
  by (auto simp: in_step_def same_env_def intro: same_replica_trans)

lemma in_step_refl: "in_step x roots v v"
  by (simp add: in_step_def)

text \<open>Sealing keeps the validator mode.\<close>

lemma seal_keeps_mode:
  assumes "kv_ok (x_kv x)" and "seal_committed x n raw ts = (r, n')"
  shows "is_validator_mode n' = is_validator_mode n"
proof (cases r)
  case (Inl e)
  from assms(2) [unfolded Inl seal_committed_def seal_raw_def] show ?thesis
    by (rule seal_failed [OF assms(1)]) (simp add: is_validator_mode_def)
next
  case (Inr h)
  from assms(2) [unfolded Inr seal_committed_def seal_raw_def] show ?thesis
    by (rule seal_success) (simp add: is_validator_mode_def push_sealed_def)
qed

text \<open>What the requests allowed in a run must satisfy.\<close>

definition invisible :: "('db, 'st, 'h) RpcEnv \<Rightarrow> bool \<Rightarrow> (RpcRequest \<Rightarrow> bool) \<Rightarrow> bool" where
  "invisible e roots allowed \<longleftrightarrow>
     (\<forall>req. allowed req \<longrightarrow> (if roots then rq_method req \<notin> leaf_methods else traffic_unobserved e))"

lemma task_step_completion:
  assumes env: "env_ok (re_ext e) root_of" and "invisible e roots allowed"
    and mode: "is_validator_mode (tk_node t)" and "task_step e allowed t t'"
    and "in_step (re_ext e) roots (completion (re_ext e) t) (execute_commits (re_ext e) (tk_delivered t) v)"
  shows "is_validator_mode (tk_node t')
    \<and> in_step (re_ext e) roots (completion (re_ext e) t') (execute_commits (re_ext e) (tk_delivered t') v)"
  using assms(4)
proof cases
  case (deliver c)
  have disk: "working_disk (re_ext e) root_of" using env by (simp add: env_ok_def)
  have "completion (re_ext e) t' = execute_commit (re_ext e) c (completion (re_ext e) t)"
    by (simp add: deliver completion_def execute_commits_def finish_commit_def cong: LoopPc.case_cong)
  with execute_commit_in_step [OF _ disk disk assms(5), of c] mode show ?thesis
    by (simp add: deliver execute_commits_def same_env_def)
next
  case (receive c cs ts)
  have "is_validator_mode (note_commit (tk_node t))" using mode by (simp add: note_commit_def is_validator_mode_def)
  with receive_completion [OF receive(2-4), of "re_ext e"] assms(5) show ?thesis unfolding receive(1) by simp
next
  case (attempt ts raw todo failed p r n')
  have kv: "kv_ok (x_kv (re_ext e))" using env by (simp add: env_ok_def working_disk_def)
  from attempt_completion [OF attempt(2,3)] assms(5) seal_keeps_mode [OF kv attempt(3)] mode show ?thesis
    unfolding attempt(1) by simp
next
  case (again ts failed)
  from turn_completion(1) [OF again(2,3), of "re_ext e"] assms(5) mode show ?thesis unfolding again(1) by simp
next
  case (settle ts failed p)
  from turn_completion(2) [OF settle(2,3), of "re_ext e"] assms(5) mode show ?thesis unfolding settle(1) by simp
next
  case (serve req now out n')
  have "served (re_ext e) roots (tk_node t) n'"
    using dispatch_served [OF _ mode, of e roots req now] env serve(2,3) assms(2)
    by (auto simp: env_ok_def invisible_def)
  note s = served_fields(4) [OF this] served_replica [OF this]
  have disk: "working_disk (re_ext e) root_of" using env by (simp add: env_ok_def)
  from in_step_trans [OF completion_replica [OF disk s(2)]] assms(5) s(1) show ?thesis unfolding serve(1) by simp
qed

lemma task_run_completion:
  fixes t :: "('db, 'h, 'r) Tasks" and e :: "('db, 'st, 'h) RpcEnv"
  assumes "env_ok (re_ext e) root_of" "invisible e roots allowed" "is_validator_mode (vs_node v)"
    and "task_run e allowed (start_tasks v) t"
  shows "is_validator_mode (tk_node t)
    \<and> in_step (re_ext e) roots (completion (re_ext e) t) (execute_commits (re_ext e) (tk_delivered t) v)"
  using assms(4)
proof induction
  case start
  let ?t = "start_tasks v :: ('db, 'h, 'r) Tasks"
  have "completion (re_ext e) ?t = v" "execute_commits (re_ext e) (tk_delivered ?t) v = v"
    by (simp_all add: completion_def finish_commit_def start_tasks_def execute_commits_def)
  moreover have "is_validator_mode (tk_node ?t)" using assms(3) by (simp add: start_tasks_def)
  ultimately show ?case by (simp add: in_step_refl)
next
  case (step t t')
  then show ?case using task_step_completion [OF assms(1,2) _ step.hyps(2)] by blast
qed

section \<open>The work left in a sweep\<close>

definition tk_work :: "('db, 'h, 'r) Tasks \<Rightarrow> nat" where
  "tk_work t = (case tk_pc t of Waiting \<Rightarrow> 0
     | Passing ts todo failed p \<Rightarrow> (let k = length todo + length failed in
         k * (k + 3) + length todo + (if p then k + 1 else 0) + 1))"

lemma attempt_work:
  assumes "tk_pc t = Passing ts (raw # todo) failed p"
  shows "tk_work (t\<lparr>tk_node := n', tk_pc := (case r of
      Inr _ \<Rightarrow> Passing ts todo failed True | Inl _ \<Rightarrow> Passing ts todo (failed @ [raw]) p)\<rparr>) < tk_work t"
  using assms by (cases r) (simp_all add: tk_work_def Let_def algebra_simps)

lemma loop_step_enabled:
  assumes "tk_pc t \<noteq> Waiting"
  shows "\<exists>t'. task_step e (\<lambda>_. False) t t' \<and> tk_work t' < tk_work t \<and> tk_delivered t' = tk_delivered t"
proof -
  from assms obtain ts todo failed p where pc: "tk_pc t = Passing ts todo failed p" by (cases "tk_pc t") auto
  show ?thesis
  proof (cases todo)
    case (Cons raw todo')
    obtain r n' where "seal_committed (re_ext e) (tk_node t) raw ts = (r, n')"
      by (cases "seal_committed (re_ext e) (tk_node t) raw ts")
    with pc Cons attempt_work [of t ts raw todo' failed p r n'] show ?thesis
      by (intro exI, intro conjI, rule_tac task_step.attempt) auto
  next
    case Nil
    show ?thesis
    proof (cases "p \<and> failed \<noteq> []")
      case True
      with pc Nil show ?thesis
        by (intro exI, intro conjI, rule_tac task_step.again [of t ts failed]) (auto simp: tk_work_def Let_def)
    next
      case False
      with pc Nil show ?thesis
        by (intro exI, intro conjI, rule_tac task_step.settle [of t ts failed p]) (auto simp: tk_work_def Let_def)
    qed
  qed
qed

lemma step_work:
  assumes "task_step e allowed t t'" "tk_pc t \<noteq> Waiting"
  shows "tk_work t' \<le> tk_work t"
  using assms
proof cases
  case (attempt ts raw todo failed p r n')
  then show ?thesis using attempt_work [of t ts raw todo failed p r n'] by simp
next
  case (deliver c)
  then show ?thesis by (simp add: tk_work_def cong: LoopPc.case_cong)
next
  case (serve req now out n')
  then show ?thesis by (simp add: tk_work_def cong: LoopPc.case_cong)
qed (simp_all add: tk_work_def Let_def)

section \<open>Properties\<close>

text \<open>
  C6. Traffic is invisible to consensus. Start the tasks of a validator in any state, let the DAG deliver commits, the loop
  execute them and the server serve requests in any interleaving, requests between the payloads of one sweep
  included. Whenever the loop is idle with an empty channel, the node agrees with one that executed the delivered
  commits one after the other and served nothing, and so do the last timestamp and the pending payloads. With requests
  that neither read contract storage nor execute code the chains agree in full, state roots included. With
  arbitrary requests they agree in block numbers, hashes, timestamps, transactions, fees and receipts, everything but
  the state roots, so no traffic makes validators fork.
\<close>

theorem traffic_invisible_to_consensus:
  assumes "env_ok (re_ext e) root_of" and "invisible e roots allowed" and "is_validator_mode (vs_node v)"
    and "task_run e allowed (start_tasks v) t" and "tk_pc t = Waiting" and "tk_channel t = []"
  shows "in_step (re_ext e) roots \<lparr>vs_node = tk_node t, vs_last_ts = tk_last_ts t, vs_pending = tk_pending t\<rparr>
    (execute_commits (re_ext e) (tk_delivered t) v)"
  using task_run_completion [OF assms(1-4)] assms(5,6)
  by (simp add: completion_def finish_commit_def execute_commits_def)

text \<open>A run in which a request is served between the receipt of a commit and its payload.\<close>

definition number_request :: RpcRequest where
  "number_request = \<lparr>rq_id = JInt 1, rq_method = ''eth_blockNumber'', rq_params = JNull\<rparr>"

lemma mem_traffic_unobserved: "traffic_unobserved mem_rpc"
  by (simp add: traffic_unobserved_def executions_unobserved_def mem_rpc_def mem_tracer_def)
    (simp add: mem_ext_def mem_revm_def)

lemma sample_task_run:
  obtains t where "task_run mem_rpc (\<lambda>req. req = number_request) (start_tasks (start_validator mem_node)) t"
    "tk_pc t = Waiting" "tk_channel t = []" "tk_delivered t = [sample_commit]"
proof -
  let ?run = "task_run mem_rpc (\<lambda>req. req = number_request)"
  let ?t0 = "start_tasks (start_validator mem_node) :: (mem_db, mem_handle, nat) Tasks"
  define n1 where "n1 = note_commit (set_dag_sender mem_node)"
  define t1 where "t1 = ?t0\<lparr>tk_channel := tk_channel ?t0 @ [sample_commit], tk_delivered := tk_delivered ?t0 @ [sample_commit]\<rparr>"
  define t2 where "t2 = t1\<lparr>tk_node := n1, tk_last_ts := 100, tk_pending := [], tk_pc := Passing 100 [[1]] [] False, tk_channel := []\<rparr>"
  have t0: "tk_node ?t0 = set_dag_sender mem_node" "tk_last_ts ?t0 = 0" "tk_pending ?t0 = []" "tk_pc ?t0 = Waiting"
      "tk_channel ?t0 = []" "tk_delivered ?t0 = []"
    by (simp_all add: start_tasks_def start_validator_def)
  have "?run ?t0 t1" unfolding t1_def by (rule task_run.step [OF task_run.start task_step.deliver])
  moreover have "task_step mem_rpc (\<lambda>req. req = number_request) t1 t2"
    using task_step.receive [of t1 sample_commit "[]" 100 mem_rpc "\<lambda>req. req = number_request"]
    by (simp add: t1_def t2_def t0 n1_def enqueue_def MAX_PENDING_PAYLOADS_def)
  moreover have "task_step mem_rpc (\<lambda>req. req = number_request) t2 (t2\<lparr>tk_node := n1\<rparr>)"
    by (rule task_step.serve [where now = 5 and req = number_request])
      (simp_all add: number_request_def t2_def dispatch_inner_def)
  ultimately have r: "?run ?t0 (t2\<lparr>tk_node := n1\<rparr>)" by (blast intro: task_run.step)
  have "same_replica mem_ext True mem_node n1" by (simp add: same_replica_def n1_def note_commit_def set_dag_sender_def)
  then obtain n2 where n2: "seal_committed mem_ext n1 [1] 100 = (Inr 1, n2)" by (rule mem_seal_replica)
  let ?t3 = "t2\<lparr>tk_node := n2, tk_pc := Passing 100 [] [] True\<rparr>"
  have "task_step mem_rpc (\<lambda>req. req = number_request) (t2\<lparr>tk_node := n1\<rparr>) ?t3"
    using task_step.attempt [of "t2\<lparr>tk_node := n1\<rparr>" 100 "[1]" "[]" "[]" False mem_rpc "Inr 1" n2] n2 by (simp add: t2_def)
  with r have "?run ?t0 ?t3" by (rule task_run.step)
  moreover have "task_step mem_rpc (\<lambda>req. req = number_request) ?t3 (?t3\<lparr>tk_pending := [], tk_pc := Waiting\<rparr>)"
    by (rule task_step.settle) simp_all
  ultimately have "?run ?t0 (?t3\<lparr>tk_pending := [], tk_pc := Waiting\<rparr>)" by (rule task_run.step)
  then show thesis by (rule that) (simp_all add: t2_def t1_def t0)
qed

theorem traffic_invisible_to_consensus_witness:
  "\<exists>t. task_run mem_rpc (\<lambda>req. req = number_request) (start_tasks (start_validator mem_node)) t
     \<and> tk_delivered t = [sample_commit]
     \<and> in_step mem_ext True \<lparr>vs_node = tk_node t, vs_last_ts = tk_last_ts t, vs_pending = tk_pending t\<rparr>
         (execute_commits mem_ext [sample_commit] (start_validator mem_node))
     \<and> in_step mem_ext False \<lparr>vs_node = tk_node t, vs_last_ts = tk_last_ts t, vs_pending = tk_pending t\<rparr>
         (execute_commits mem_ext [sample_commit] (start_validator mem_node))"
proof -
  obtain t where t: "task_run mem_rpc (\<lambda>req. req = number_request) (start_tasks (start_validator mem_node)) t"
    "tk_pc t = Waiting" "tk_channel t = []" "tk_delivered t = [sample_commit]" by (rule sample_task_run)
  have pre: "env_ok (re_ext mem_rpc) leaf_count" "invisible mem_rpc True (\<lambda>req. req = number_request)"
    "invisible mem_rpc False (\<lambda>req. req = number_request)" "is_validator_mode (vs_node (start_validator mem_node))"
    by (simp_all add: mem_env_ok invisible_def number_request_def leaf_methods_def start_validator_def set_dag_sender_def
        is_validator_mode_def mem_traffic_unobserved)
  from traffic_invisible_to_consensus [OF pre(1,2,4) t(1-3)] traffic_invisible_to_consensus [OF pre(1,3,4) t(1-3)] t
  show ?thesis by auto
qed

text \<open>
  C14. A sweep ends whatever is served meanwhile: while the loop is within a pass, one of its own steps is possible and lowers
  the work left, and no step of any task, deliveries and requests included, raises it. So after finitely many
  attempts the loop is waiting for the next commit.
\<close>

theorem sweep_ends_under_traffic:
  assumes "tk_pc t \<noteq> Waiting"
  shows "(\<exists>t'. task_step e (\<lambda>_. False) t t' \<and> tk_work t' < tk_work t \<and> tk_delivered t' = tk_delivered t)
    \<and> (\<forall>t'. task_step e allowed t t' \<longrightarrow> tk_work t' \<le> tk_work t)"
  using loop_step_enabled [OF assms] step_work [OF _ assms] by blast

theorem sweep_ends_under_traffic_witness:
  "\<exists>t'. task_step mem_rpc (\<lambda>_. False) ((start_tasks sample_validator :: (mem_db, mem_handle, nat) Tasks)
       \<lparr>tk_pc := Passing 1 [[0xff]] [] False\<rparr>) t' \<and> tk_work t' < 6"
proof -
  let ?t = "(start_tasks sample_validator :: (mem_db, mem_handle, nat) Tasks)\<lparr>tk_pc := Passing 1 [[0xff]] [] False\<rparr>"
  have "tk_pc ?t \<noteq> Waiting" "tk_work ?t = 6" by (simp_all add: tk_work_def)
  with sweep_ends_under_traffic [of ?t mem_rpc "\<lambda>_. True"] show ?thesis by auto
qed

end
