(* ===== verification/Counters.thy ===== *)
theory Counters
  imports Node
begin

text \<open>
  The counters of \<open>NodeMetrics\<close> (\<^verbatim>\<open>crates/move-execution/src/node.rs\<close>) over the life of a node: opening, in all its
  ways, and every step of a running node keep the counters of sealed blocks and transactions at the length of the chain.
\<close>

section \<open>The invariant\<close>

definition counted :: "('db, 'h) KanariNode \<Rightarrow> bool" where
  "counted n \<longleftrightarrow> nm_blocks_sealed (n_metrics n) = of_nat (length (n_blocks n))
     \<and> nm_txs_sealed (n_metrics n) = of_nat (length (n_blocks n))"

lemma counted_updates [simp]:
  "counted (n\<lparr>n_db := db\<rparr>) = counted n" "counted (n\<lparr>n_store := h\<rparr>) = counted n"
  "counted (n\<lparr>n_spec := spec\<rparr>) = counted n" "counted (n\<lparr>n_genesis_root := root\<rparr>) = counted n"
  "counted (n\<lparr>n_faucet_key := k\<rparr>) = counted n"
  by (simp_all add: counted_def)

lemma quiet_counted: "quiet x n n' \<Longrightarrow> counted n \<Longrightarrow> counted n'"
  by (simp add: quiet_def counted_def)

lemma push_counted: "counted n \<Longrightarrow> counted (push_sealed n b hash r)"
  by (simp add: counted_def push_sealed_def)

section \<open>Seals and replay\<close>

lemma seal_counted:
  assumes "kv_ok (x_kv x)" "counted n"
  shows "counted (snd (seal_raw_with_fee x n raw number ts fee))"
proof (cases "seal_raw_with_fee x n raw number ts fee")
  case (Pair r n')
  show ?thesis
  proof (cases r)
    case (Inl e)
    with Pair obtain db h where "n' = n\<lparr>n_db := db, n_store := h\<rparr>" using seal_failed [OF assms(1)] by metis
    with assms(2) Pair show ?thesis by simp
  next
    case (Inr hash)
    from Pair [unfolded Inr] show ?thesis by (rule seal_success) (simp add: Pair Inr push_counted assms(2))
  qed
qed

lemma replay_txs_counted:
  "kv_ok (x_kv x) \<Longrightarrow> counted n \<Longrightarrow> counted (snd (replay_txs x b raws n))"
proof (induction raws arbitrary: n)
  case (Cons raw raws)
  with seal_counted [OF Cons.prems, of raw "sb_number b" "sb_timestamp b" "sb_base_fee b"] show ?case
    by (cases "seal_raw_with_fee x n raw (sb_number b) (sb_timestamp b) (sb_base_fee b)")
      (auto simp: Let_def bind_node_def split: sum.splits)
qed simp

lemma replay_counted:
  "kv_ok (x_kv x) \<Longrightarrow> counted n \<Longrightarrow> counted (snd (replay_blocks x bs n))"
proof (induction bs arbitrary: n)
  case (Cons b bs)
  with replay_txs_counted [OF Cons.prems, of b "sb_txs b"] show ?case
    by (cases "replay_txs x b (sb_txs b) n") (auto simp: bind_node_def split: sum.splits)
qed simp

section \<open>Opening\<close>

text \<open>What every operation of a sequence keeps, the sequence keeps.\<close>

lemma bind_node_keeps: "P (snd r) \<Longrightarrow> (\<And>y n. P n \<Longrightarrow> P (snd (f y n))) \<Longrightarrow> P (snd (bind_node r f))"
  by (cases r) (auto simp: bind_node_def split: sum.splits)

definition out_keeps :: "('n \<Rightarrow> bool) \<Rightarrow> ('r \<times> 'n) outcome \<Rightarrow> bool" where
  "out_keeps P r \<longleftrightarrow> (\<forall>q. r = Returns q \<longrightarrow> P (snd q))"

lemma out_keeps_Returns [simp]: "out_keeps P (Returns q) = P (snd q)"
  by (simp add: out_keeps_def)

lemma bind_out_keeps:
  assumes "out_keeps P r" "\<And>y n. P n \<Longrightarrow> out_keeps P (f y n)"
  shows "out_keeps P (bind_out r f)"
  using assms by (cases r) (auto simp: bind_out_def out_keeps_def split: prod.splits sum.splits)

lemma rebuild_counted [simp]: "counted (snd (rebuild_smt rv kv cr n)) = counted n"
  using rebuild_smt_node [of rv kv cr n] by auto

lemma set_key_counted: "counted n \<Longrightarrow> counted (snd (set_faucet_key kv n secret))"
  by (auto simp: set_faucet_key_def split: prod.splits sum.splits)

lemma start_counted: "counted n \<Longrightarrow> out_keeps counted (start_genesis x n)"
  by (cases "apply_genesis (x_revm x) (n_spec n) (n_db n)")
    (auto simp: start_genesis_def out_keeps_def intro!: bind_node_keeps [where P = counted])

lemma init_meta_counted: "counted n \<Longrightarrow> counted (snd (node_init_meta x n))"
  by (simp add: node_init_meta_def split: prod.splits)

lemma migrate_counted: "counted n \<Longrightarrow> counted (snd (migrate_legacy_journal x fs contents n))"
  unfolding migrate_legacy_journal_def
  by (intro bind_node_keeps [where P = counted]) (auto simp: Let_def set_key_counted init_meta_counted
      intro!: bind_node_keeps [where P = counted] split: option.splits sum.splits)

lemma open_parts_counted:
  assumes "kv_ok (x_kv x)" "counted n"
  shows "out_keeps counted (open_migrate x fs contents n)" "out_keeps counted (open_create x n)"
    "out_keeps counted (open_existing x c n)"
  unfolding open_migrate_def open_create_def open_existing_def Let_def
  using assms
  by (auto intro!: bind_out_keeps start_counted simp: replay_counted migrate_counted init_meta_counted)

lemma pick_up_counted: "counted n \<Longrightarrow> counted (snd (pick_up_faucet_key x n))"
  by (auto simp: pick_up_faucet_key_def split: sum.splits option.splits)

lemma opened_counted:
  assumes "kv_ok (x_kv x)" "open_node x fs spec opened = Returns (Inr n)"
  shows "counted n"
proof -
  obtain h where h: "opened = Inr h" using assms(2) by (cases opened) (simp_all add: open_node_def)
  let ?f = "fresh_node spec (rv_default (x_revm x)) h"
  have f: "counted ?f" by (simp add: counted_def fresh_node_def)
  let ?final = "bind_out (bind_out (Returns (map_err node_error_of_store (stored_chain_id (x_kv x) h), ?f)) (\<lambda>c n.
      case c of Some stored_chain \<Rightarrow> open_existing x stored_chain n
      | None \<Rightarrow> (case lf_journal fs of Some contents \<Rightarrow> open_migrate x fs contents n | None \<Rightarrow> open_create x n)))
    (\<lambda>_ n'. Returns (pick_up_faucet_key x n'))"
  have "out_keeps counted ?final"
    by (intro bind_out_keeps) (auto simp: f pick_up_counted open_parts_counted [OF assms(1)] split: option.split)
  moreover obtain u where "?final = Returns (Inr u, n)"
    using assms(2) by (cases ?final) (auto simp: open_node_def h Let_def split: prod.splits sum.splits)
  ultimately show ?thesis by simp
qed

section \<open>Steps\<close>

lemma step_counted:
  assumes "kv_ok (x_kv x)" "node_step x n n'" "counted n"
  shows "counted n'"
  using assms(1,2)
proof (cases rule: node_step_cases)
  case (2 m raw ts r)
  from seal_counted [OF assms(1) quiet_counted [OF 2(1) assms(3)]] 2(2) show ?thesis
    by (metis seal_committed_def seal_raw_def snd_conv)
qed (rule quiet_counted [OF _ assms(3)])

lemma reachable_counted: "reachable x n0 n \<Longrightarrow> kv_ok (x_kv x) \<Longrightarrow> counted n0 \<Longrightarrow> counted n"
  by (induction rule: reachable.induct) (auto intro: step_counted)

end
