(* ===== verification/Server.thy ===== *)
theory Server
  imports Rpc Counters
begin

text \<open>
  The HTTP side of \<^verbatim>\<open>crates/server_rpc/src/rpc.rs\<close>: the router, the JSON-RPC endpoint with its CORS header, the
  preflight answer, the explorer page and the metrics page, and the activity of a served node as any interleaving of
  requests with its other steps. The HTTP library is an argument.
\<close>

section \<open>Requests and responses\<close>

datatype HttpMethod = GET | POST | OPTIONS | OtherMethod string

record HttpRequest =
  hr_method :: HttpMethod
  hr_path :: string
  hr_headers :: "(string \<times> string) list"
  hr_body :: bytes

datatype HttpBody = JsonBody Json | TextBody string

record HttpResponse =
  hs_status :: nat
  hs_headers :: "(string \<times> string) list"
  hs_body :: HttpBody

text \<open>
  \<open>ax_json\<close> is the \<open>Json\<close> extractor, which parses the body or answers with a rejection of its own, \<open>ax_unrouted\<close> the
  answer to a request without a handler of its own, a path or method without a route or a HEAD, and \<open>ax_explorer\<close> the page included from \<^verbatim>\<open>explorer.html\<close>.
\<close>

record Axum =
  ax_json :: "HttpRequest \<Rightarrow> HttpResponse + Json"
  ax_unrouted :: "HttpRequest \<Rightarrow> HttpResponse"
  ax_explorer :: string

section \<open>Handlers\<close>

text \<open>With the headers that the handlers set; what the library adds to them is left out.\<close>

definition explorer_page :: "Axum \<Rightarrow> HttpResponse" where
  "explorer_page ax =
     \<lparr>hs_status = 200, hs_headers = [(''Content-Type'', ''text/html; charset=utf-8'')], hs_body = TextBody (ax_explorer ax)\<rparr>"

definition handle_options :: HttpResponse where
  "handle_options =
     \<lparr>hs_status = 200,
      hs_headers = [(''Access-Control-Allow-Origin'', ''*''), (''Access-Control-Allow-Methods'', ''POST, OPTIONS''),
        (''Access-Control-Allow-Headers'', ''Content-Type''), (''Access-Control-Max-Age'', ''86400'')],
      hs_body = TextBody ''''\<rparr>"

definition with_cors :: "Json \<Rightarrow> HttpResponse" where
  "with_cors json =
     \<lparr>hs_status = 200, hs_headers = [(''Access-Control-Allow-Origin'', ''*'')], hs_body = JsonBody json\<rparr>"

definition metrics_response :: "('db, 'h) KanariNode \<Rightarrow> HttpResponse" where
  "metrics_response n =
     \<lparr>hs_status = 200, hs_headers = [(''Content-Type'', ''text/plain; version=0.0.4'')], hs_body = TextBody (metrics_page n)\<rparr>"

definition handle_rpc ::
  "('db, 'st, 'h) RpcEnv \<Rightarrow> Axum \<Rightarrow> ('db, 'h) KanariNode \<Rightarrow> (nat \<Rightarrow> u64) \<Rightarrow> HttpRequest
     \<Rightarrow> HttpResponse outcome \<times> ('db, 'h) KanariNode" where
  "handle_rpc e ax n clock req =
     (case ax_json ax req of
        Inl rejection \<Rightarrow> (Returns rejection, n)
      | Inr body \<Rightarrow>
          (case inner_handle_rpc e n clock body of (out, n') \<Rightarrow> (out_bind out (\<lambda>json. Returns (with_cors json)), n')))"

definition router ::
  "('db, 'st, 'h) RpcEnv \<Rightarrow> Axum \<Rightarrow> ('db, 'h) KanariNode \<Rightarrow> (nat \<Rightarrow> u64) \<Rightarrow> HttpRequest
     \<Rightarrow> HttpResponse outcome \<times> ('db, 'h) KanariNode" where
  "router e ax n clock req =
     (if hr_path req = ''/''
      then (case hr_method req of
              POST \<Rightarrow> handle_rpc e ax n clock req
            | OPTIONS \<Rightarrow> (Returns handle_options, n)
            | GET \<Rightarrow> (Returns (explorer_page ax), n)
            | OtherMethod _ \<Rightarrow> (Returns (ax_unrouted ax req), n))
      else if hr_path req = ''/metrics'' \<and> hr_method req = GET then (Returns (metrics_response n), n)
      else (Returns (ax_unrouted ax req), n))"

section \<open>Activity\<close>

text \<open>
  Everything that happens to a served node: the methods of concurrent clients, one at a time under the lock, whatever
  the bodies they came in, and the steps of the validator loop and of the process.
\<close>

inductive activity :: "('db, 'st, 'h) RpcEnv \<Rightarrow> ('db, 'h) KanariNode \<Rightarrow> ('db, 'h) KanariNode \<Rightarrow> bool" for e n0 where
  idle: "activity e n0 n0"
| request: "activity e n0 n \<Longrightarrow> dispatch_inner e n now req = (out, n') \<Longrightarrow> activity e n0 n'"
| internal: "activity e n0 n \<Longrightarrow> node_step (re_ext e) n n' \<Longrightarrow> activity e n0 n'"

lemma activity_trans: "activity e n m \<Longrightarrow> activity e n0 n \<Longrightarrow> activity e n0 m"
  by (induction rule: activity.induct) (auto intro: activity.intros)

lemma activity_dispatch: "activity e n (snd (dispatch_inner e n now req))"
  by (rule activity.request [OF activity.idle, of e n now req "fst (dispatch_inner e n now req)"]) simp

lemma activity_batch: "activity e n (snd (run_batch e n clock k items))"
proof (induction items arbitrary: n k)
  case (Cons item items)
  show ?case
  proof (cases "parse_request item")
    case None
    with Cons [of n "Suc k"] show ?thesis by (simp add: Let_def split_beta)
  next
    case (Some req)
    obtain o1 n1 where d: "dispatch_inner e n (clock k) req = (o1, n1)" by (cases "dispatch_inner e n (clock k) req")
    with activity_dispatch [of e n "clock k" req] have 1: "activity e n n1" by simp
    with activity_trans [OF Cons [of n1 "Suc k"]] Some d show ?thesis
      by (cases o1) (simp_all add: Let_def split_beta)
  qed
qed (simp add: activity.idle)

lemma activity_body: "activity e n (snd (inner_handle_rpc e n clock body))"
proof (cases body)
  case (JArr batch)
  with activity_batch [of e n clock 0 batch] activity.idle [of e n] show ?thesis
    by (simp add: inner_handle_rpc_def Let_def split_beta)
next
  case (JObj obj)
  show ?thesis
  proof (cases "parse_request body")
    case None
    with JObj activity.idle [of e n] show ?thesis by (simp add: inner_handle_rpc_def)
  next
    case (Some req)
    obtain o1 n1 where d: "dispatch_inner e n (clock 0) req = (o1, n1)" by (cases "dispatch_inner e n (clock 0) req")
    with activity_dispatch [of e n "clock 0" req] JObj Some activity.idle [of e n] show ?thesis
      by (cases o1) (simp_all add: inner_handle_rpc_def)
  qed
qed (simp_all add: inner_handle_rpc_def activity.idle)

lemma activity_http: "activity e n (snd (router e ax n clock req))"
proof -
  have "activity e n (snd (handle_rpc e ax n clock req))"
    using activity_body [of e n clock] activity.idle [of e n]
    by (simp add: handle_rpc_def split_beta split: sum.split)
  with activity.idle [of e n] show ?thesis by (simp add: router_def split: HttpMethod.split)
qed

text \<open>The contract of an invariant that any activity preserves: the two ways in which a node moves.\<close>

locale node_invariant =
  fixes e :: "('db, 'st, 'h) RpcEnv" and holds :: "('db, 'h) KanariNode \<Rightarrow> bool"
  assumes quiet_keeps: "holds n \<Longrightarrow> quiet (re_ext e) n n' \<Longrightarrow> holds n'"
    and step_keeps: "holds n \<Longrightarrow> node_step (re_ext e) n n' \<Longrightarrow> holds n'"
begin

lemma dispatch_holds: "holds n \<Longrightarrow> holds (snd (dispatch_inner e n now req))"
  using dispatch_step [of e n now req] quiet_keeps step_keeps by blast

lemma activity_holds: "activity e n0 n \<Longrightarrow> holds n0 \<Longrightarrow> holds n"
proof (induction rule: activity.induct)
  case (request n now req out n')
  with dispatch_holds [of n now req] show ?case by simp
next
  case (internal n n')
  then show ?case using step_keeps by blast
qed

lemma http_holds: "holds n \<Longrightarrow> holds (snd (router e ax n clock req))"
  by (rule activity_holds [OF activity_http])

end

interpretation counters: node_invariant e "\<lambda>n. kv_ok (x_kv (re_ext e)) \<longrightarrow> counted n" for e
  by unfold_locales (auto intro: quiet_counted step_counted)

lemma bounded_step_inv:
  assumes "kv_ok (x_kv x)" "codec_ok (x_codec x)" "node_step x n n'" "length (n_blocks n') + 1 < 2 ^ 64"
    and "length (n_blocks n) + 1 < 2 ^ 64 \<Longrightarrow> node_inv x n"
  shows "node_inv x n'"
proof -
  have "length (n_blocks n) \<le> length (n_blocks n')"
    using step_extends [OF assms(1,3)] by (auto simp: extends_def)
  with assms(4,5) have "node_inv x n" by simp
  from node_step_inv [OF assms(1,2) this assms(4,3)] show ?thesis by simp
qed

interpretation chain: node_invariant e
    "\<lambda>n. kv_ok (x_kv (re_ext e)) \<and> codec_ok (x_codec (re_ext e)) \<and> length (n_blocks n) + 1 < 2 ^ 64 \<longrightarrow> node_inv (re_ext e) n" for e
proof unfold_locales
  fix n n' assume inv: "kv_ok (x_kv (re_ext e)) \<and> codec_ok (x_codec (re_ext e)) \<and> length (n_blocks n) + 1 < 2 ^ 64 \<longrightarrow> node_inv (re_ext e) n"
  show "kv_ok (x_kv (re_ext e)) \<and> codec_ok (x_codec (re_ext e)) \<and> length (n_blocks n') + 1 < 2 ^ 64 \<longrightarrow> node_inv (re_ext e) n'"
    if q: "quiet (re_ext e) n n'"
    using inv quiet_inv [OF q] q by (auto simp: quiet_def)
  show "kv_ok (x_kv (re_ext e)) \<and> codec_ok (x_codec (re_ext e)) \<and> length (n_blocks n') + 1 < 2 ^ 64 \<longrightarrow> node_inv (re_ext e) n'"
    if "node_step (re_ext e) n n'"
    using inv bounded_step_inv [OF _ _ that] by blast
qed

section \<open>Properties\<close>

text \<open>The methods a request asks for.\<close>

definition http_requests :: "Axum \<Rightarrow> HttpRequest \<Rightarrow> nat" where
  "http_requests ax req =
     (if hr_path req = ''/'' \<and> hr_method req = POST
      then (case ax_json ax req of Inr body \<Rightarrow> body_requests body | Inl _ \<Rightarrow> 0) else 0)"

text \<open>
  C4. Any HTTP request, well-formed or not, keeps the chain consistent in memory and on disk and its counters right, also
  when a method panics: the chain is only extended, by at most one block per request of the body; nothing but a POST
  to the root changes the node; and every answer to a POST to the root whose body was read as JSON carries the CORS
  header that browsers need. (The other routes and the rejections of malformed bodies do not set it.)
\<close>

theorem http_keeps_chain:
  assumes "kv_ok (x_kv (re_ext e))" "codec_ok (x_codec (re_ext e))"
    and "ledger_ok (x_crypto (re_ext e)) n" "mirrored (re_ext e) n" "counted n"
    and "length (n_blocks n) + http_requests ax req + 1 < 2 ^ 64"
    and "router e ax n clock req = (out, n')"
  shows "ledger_ok (x_crypto (re_ext e)) n' \<and> mirrored (re_ext e) n' \<and> counted n'
    \<and> (\<exists>bs. n_blocks n' = n_blocks n @ bs \<and> length bs \<le> http_requests ax req)
    \<and> (hr_path req \<noteq> ''/'' \<or> hr_method req \<noteq> POST \<longrightarrow> n' = n)
    \<and> (\<forall>resp body. hr_path req = ''/'' \<and> hr_method req = POST \<and> ax_json ax req = Inr body \<and> out = Returns resp \<longrightarrow>
         (''Access-Control-Allow-Origin'', ''*'') \<in> set (hs_headers resp))"
proof -
  have inv: "node_inv (re_ext e) n" using assms(3,4) by (simp add: node_inv_def)
  have "counted n'" using counters.http_holds [of e n ax clock req] assms(1,5,7) by simp
  moreover have "node_inv (re_ext e) n' \<and> extends (http_requests ax req) n n'
      \<and> (hr_path req \<noteq> ''/'' \<or> hr_method req \<noteq> POST \<longrightarrow> n' = n)"
  proof (cases "\<exists>body. hr_path req = ''/'' \<and> hr_method req = POST \<and> ax_json ax req = Inr body")
    case True
    then obtain body where body: "hr_path req = ''/''" "hr_method req = POST" "ax_json ax req = Inr body" by blast
    then have k: "http_requests ax req = body_requests body" by (simp add: http_requests_def)
    from body assms(7) have "n' = snd (inner_handle_rpc e n clock body)"
      by (auto simp: router_def handle_rpc_def split: prod.splits)
    with body_keeps [OF assms(1,2) inv, of body clock] assms(6) k body show ?thesis by simp
  next
    case False
    with assms(7) have "n' = n"
      by (auto simp: router_def handle_rpc_def split: if_splits HttpMethod.splits sum.splits)
    with inv show ?thesis by (simp add: extends_refl)
  qed
  moreover have "(''Access-Control-Allow-Origin'', ''*'') \<in> set (hs_headers resp)"
    if "hr_path req = ''/''" "hr_method req = POST" "ax_json ax req = Inr body" "out = Returns resp" for resp body
    using that assms(7) by (auto simp: router_def handle_rpc_def with_cors_def out_bind_def split: prod.splits outcome.splits)
  ultimately show ?thesis by (auto simp: node_inv_def extends_def)
qed

text \<open>An HTTP library that parses one body, and the requests of a wallet.\<close>

definition mem_axum :: "Json \<Rightarrow> Axum" where
  "mem_axum body = \<lparr>ax_json = (\<lambda>req. if hr_body req = [] then Inl \<lparr>hs_status = 400, hs_headers = [], hs_body = TextBody ''EOF''\<rparr>
       else Inr body),
     ax_unrouted = (\<lambda>_. \<lparr>hs_status = 404, hs_headers = [], hs_body = TextBody ''''\<rparr>), ax_explorer = ''<html>''\<rparr>"

definition http_get :: "string \<Rightarrow> HttpRequest" where
  "http_get path = \<lparr>hr_method = GET, hr_path = path, hr_headers = [], hr_body = []\<rparr>"

definition http_post :: "bytes \<Rightarrow> HttpRequest" where
  "http_post body = \<lparr>hr_method = POST, hr_path = ''/'', hr_headers = [(''Content-Type'', ''application/json'')], hr_body = body\<rparr>"

theorem http_keeps_chain_witness:
  "\<exists>n0 out n'. open_node mem_ext no_legacy mem_spec (Inr mem_empty) = Returns (Inr n0)
     \<and> router mem_rpc (mem_axum (JObj [(''method'', JStr ''eth_sendRawTransaction''), (''params'', JArr [JStr ''0x01''])]))
         n0 (\<lambda>_. 100) (http_post [1]) = (out, n')
     \<and> ledger_ok mem_crypto n' \<and> mirrored mem_ext n' \<and> counted n'"
proof -
  let ?ax = "mem_axum (JObj [(''method'', JStr ''eth_sendRawTransaction''), (''params'', JArr [JStr ''0x01''])])"
  obtain n0 where n0: "open_node mem_ext no_legacy mem_spec (Inr mem_empty) = Returns (Inr n0)" "node_inv mem_ext n0"
    "n_blocks n0 = []" by (rule mem_open_inv)
  obtain out n' where r: "router mem_rpc ?ax n0 (\<lambda>_. 100) (http_post [1]) = (out, n')"
    by (cases "router mem_rpc ?ax n0 (\<lambda>_. 100) (http_post [1])")
  have "counted n0" by (rule opened_counted [OF _ n0(1)]) (simp add: mem_kv_ok)
  then have "kv_ok (x_kv (re_ext mem_rpc))" "codec_ok (x_codec (re_ext mem_rpc))"
    "ledger_ok (x_crypto (re_ext mem_rpc)) n0" "mirrored (re_ext mem_rpc) n0" "counted n0"
    "length (n_blocks n0) + http_requests ?ax (http_post [1]) + 1 < 2 ^ 64"
    using n0
    by (simp_all add: node_inv_def mem_kv_ok mem_codec_ok http_requests_def http_post_def mem_axum_def body_requests_def)
  from http_keeps_chain [OF this r] r n0(1) show ?thesis by auto
qed

text \<open>
  C24. The metrics page tells the truth: for a node opened on any store whose chain is consistent, after any interleaving of
  requests with seals, commits and other steps, the page reports the number of blocks of the chain, equal figures for
  sealed blocks and sealed transactions, replayed ones included in both, in decimal, and reading it changes nothing.
\<close>

theorem metrics_report_chain:
  assumes "kv_ok (x_kv (re_ext e))" and "codec_ok (x_codec (re_ext e))"
    and "open_node (re_ext e) fs spec opened = Returns (Inr n0)"
    and "ledger_ok (x_crypto (re_ext e)) n0" and "mirrored (re_ext e) n0"
    and "activity e n0 n" and "length (n_blocks n) + 1 < 2 ^ 64"
  shows "let line = (\<lambda>name help kind k. ''# HELP '' @ name @ '' '' @ help @ [newline] @ ''# TYPE '' @ name @ '' '' @ kind
           @ [newline] @ name @ '' '' @ decimal k @ [newline]); k = length (n_blocks n)
    in router e ax n clock (http_get ''/metrics'') =
      (Returns \<lparr>hs_status = 200, hs_headers = [(''Content-Type'', ''text/plain; version=0.0.4'')],
         hs_body = TextBody (line ''kanari_evm_block_number'' ''Latest sealed block number.'' ''gauge'' k
           @ line ''kanari_evm_blocks_sealed_total'' ''Sealed blocks (one tx each).'' ''counter'' k
           @ line ''kanari_evm_txs_sealed_total'' ''Sealed transactions.'' ''counter'' k
           @ line ''kanari_evm_commits_seen_total'' ''DAG commits executed (0 on single nodes).'' ''counter''
               (unat (nm_commits_seen (n_metrics n))))\<rparr>, n)"
proof -
  have "node_inv (re_ext e) n"
    using chain.activity_holds [OF assms(6)] assms(1,2,4,5,7) by (simp add: node_inv_def)
  then have "block_number n = of_nat (length (n_blocks n))"
    by (auto simp: node_inv_def ledger_ok_def intro: block_number_numbered)
  moreover have "counted n" using counters.activity_holds [OF assms(6)] opened_counted [OF assms(1,3)] assms(1) by simp
  moreover have "unat (of_nat (length (n_blocks n)) :: u64) = length (n_blocks n)"
    using assms(7) by (simp add: unat_of_nat take_bit_nat_eq_self)
  ultimately show ?thesis
    by (simp add: router_def http_get_def metrics_response_def metrics_page_def metric_def snapshot_def counted_def Let_def)
qed

theorem metrics_report_chain_witness:
  "\<exists>n0 out n1 n2 resp. open_node mem_ext no_legacy mem_spec (Inr mem_empty) = Returns (Inr n0)
     \<and> seal_committed mem_ext n0 [1] 100 = (Inr 1, n1)
     \<and> router mem_rpc (mem_axum JNull) n1 (\<lambda>_. 100) (http_post [1]) = (out, n2)
     \<and> fst (router mem_rpc (mem_axum JNull) n2 (\<lambda>_. 100) (http_get ''/metrics'')) = Returns resp
     \<and> (\<exists>rest. hs_body resp = TextBody (''# HELP kanari_evm_block_number Latest sealed block number.'' @ [newline]
           @ ''# TYPE kanari_evm_block_number gauge'' @ [newline] @ ''kanari_evm_block_number '' @ decimal (length (n_blocks n2))
           @ [newline] @ rest))"
proof -
  obtain n0 where n0: "open_node mem_ext no_legacy mem_spec (Inr mem_empty) = Returns (Inr n0)"
    "same_replica mem_ext True mem_node n0" by (rule mem_open)
  obtain n1 where n1: "seal_committed mem_ext n0 [1] 100 = (Inr 1, n1)" "length (n_blocks n1) = 1"
    using mem_open_seal [OF n0(2)] by (elim exE conjE)
  obtain out n2 where n2: "router mem_rpc (mem_axum JNull) n1 (\<lambda>_. 100) (http_post [1]) = (out, n2)"
    by (cases "router mem_rpc (mem_axum JNull) n1 (\<lambda>_. 100) (http_post [1])")
  then have eq: "n2 = n1" by (simp add: router_def handle_rpc_def http_post_def mem_axum_def inner_handle_rpc_def)
  have "activity mem_rpc n0 n1"
    by (rule activity.internal [OF activity.idle node_step.seal [where raw = "[1]" and ts = 100 and r = "Inr 1"]])
      (simp add: n1(1))
  with n2 eq have act: "activity mem_rpc n0 n2" by simp
  obtain m0 where m0: "open_node mem_ext no_legacy mem_spec (Inr mem_empty) = Returns (Inr m0)" "node_inv mem_ext m0"
    by (rule mem_open_inv)
  have pre: "kv_ok (x_kv (re_ext mem_rpc))" "codec_ok (x_codec (re_ext mem_rpc))"
    "open_node (re_ext mem_rpc) no_legacy mem_spec (Inr mem_empty) = Returns (Inr n0)"
    "ledger_ok (x_crypto (re_ext mem_rpc)) n0" "mirrored (re_ext mem_rpc) n0" "length (n_blocks n2) + 1 < 2 ^ 64"
    using n0(1) m0 n1(2) eq by (simp_all add: node_inv_def mem_kv_ok mem_codec_ok)
  from metrics_report_chain [OF pre(1-5) act pre(6), of "mem_axum JNull" "\<lambda>_. 100"] n0(1) n1(1) n2 show ?thesis
    by (auto simp: Let_def)
qed

end
