(* ===== verification/Spec2Isabelle.thy ===== *)
theory Spec2Isabelle
  imports Reads Contracts Registry Cli Traffic Server
begin

text \<open>
  Verification of the Kanari EVM node, the Rust workspace under \<^verbatim>\<open>src/crates\<close>: a single-binary Ethereum
  development chain that executes transactions in revm, seals one block per transaction, keeps the chain in RocksDB
  with a sparse-Merkle commitment of the state, answers Ethereum JSON-RPC and can run as one of several validators
  that execute the commits of a DAG consensus.

  \<^bold>\<open>The program and how its parts interact.\<close> A request reaches \<^verbatim>\<open>server_rpc\<close>, which parses it and calls the node
  under a lock. The node (\<^verbatim>\<open>move-execution\<close>) decodes a raw transaction, runs it at the pending base fee of
  \<^verbatim>\<open>evm-types\<close>, credits the burnt base fee to the block beneficiary, rebuilds the state tree, writes block, receipt
  and index in one RocksDB batch (\<^verbatim>\<open>storage\<close>) and only then extends its memory. In validator mode a submission goes
  to the DAG instead, and blocks are sealed by the loop that executes commits (\<^verbatim>\<open>consensus\<close>). Opening a node on a
  non-empty store executes the transactions of the stored blocks again and compares every hash and stored state root.
  The binary (\<^verbatim>\<open>kanari-node\<close>) parses the command line, imports a checkpoint of a remote chain, generates
  committees and starts all of this.

  \<^bold>\<open>Theories and sources.\<close>
  \<^item> \<open>Prelude\<close>: machine integers as words with Rust's saturating and checked arithmetic, byte encodings, results as
    sums, panics as \<open>outcome\<close>, the locale \<open>fixed_codec\<close> of fixed-width encodings.
  \<^item> \<open>Gas\<close>: \<^verbatim>\<open>evm-types/src/gas.rs\<close>. \<open>Hex\<close>: \<^verbatim>\<open>evm-types/src/lib.rs\<close>, with \<open>trim\<close> and \<open>from_str_radix\<close> written out.
  \<^item> \<open>Precompiles\<close>: \<^verbatim>\<open>move-execution/src/precompiles.rs\<close>; the signature schemes are arguments.
  \<^item> \<open>Chain_Types\<close>: the structs of \<^verbatim>\<open>store.rs\<close>, \<^verbatim>\<open>node.rs\<close>, \<^verbatim>\<open>chainspec.rs\<close>; the record \<open>KanariNode\<close> is the node's
    state (\<open>n_blocks\<close> its block vector, \<open>n_receipts\<close> its receipt map, \<open>n_db\<close> revm's database, \<open>n_store\<close> the RocksDB
    handle, \<open>n_dag_sender\<close> the mempool channel, \<open>n_metrics\<close> the counters).
  \<^item> \<open>Externals\<close>: the third-party code as records of functions, with the behaviour relied on as named predicates.
    \<open>Instances\<close>: a concrete environment that satisfies them and on which the witnesses are evaluated.
    \<open>Observation\<close>: when two databases of revm are indistinguishable, by any sequence of lookups, insertions and
    executions (\<open>db_sim\<close>, with or without the leaves of the state tree), and the hypotheses stated with it.
  \<^item> \<open>Chain_Spec\<close>: \<^verbatim>\<open>chainspec.rs\<close>. \<open>Store\<close>: \<^verbatim>\<open>storage/src/store.rs\<close>. \<open>Registry\<close>: \<^verbatim>\<open>storage/src/db.rs\<close>, one definition
    per critical section and a step relation over any number of callers.
  \<^item> \<open>State\<close>: \<^verbatim>\<open>state.rs\<close>. \<open>Execution\<close>: \<^verbatim>\<open>execution.rs\<close> and the chain accessors of \<^verbatim>\<open>node.rs\<close> and \<^verbatim>\<open>views.rs\<close> it uses.
    \<open>Faucet\<close>: \<^verbatim>\<open>faucet.rs\<close>. \<open>Node\<close>: \<^verbatim>\<open>node.rs\<close>, with the step relation \<open>node_step\<close> of everything a running node does.
    \<open>Views\<close>: \<^verbatim>\<open>views.rs\<close>. \<open>Trace\<close>: \<^verbatim>\<open>trace.rs\<close>. \<open>Contracts\<close>: \<^verbatim>\<open>contracts.rs\<close>, with the semantics of the EVM
    instructions its bytecode uses. (All in \<^verbatim>\<open>move-execution/src\<close>.)
  \<^item> \<open>Ledger\<close>: the invariants \<open>ledger_ok\<close> (numbers, hash links, receipts) and \<open>mirrored\<close> (the store holds the chain) and
    replay. \<open>Reads\<close>: what storage reads do to the state commitment.
    \<open>Counters\<close>: the counters of \<open>NodeMetrics\<close> over opening and running.
  \<^item> \<open>Validator\<close>: the commit loop of \<^verbatim>\<open>consensus/src/validator.rs\<close> and the flattening and rounds of \<^verbatim>\<open>ordering.rs\<close>.
    \<open>Dag\<close>: the rest of both, the in-process mesh and \<open>ValidatorNode::spawn\<close> with its mempool task and heartbeat.
    \<open>Committee\<close>: \<^verbatim>\<open>consensus/src/committee.rs\<close>. \<open>Traffic\<close>: the step relation \<open>task_step\<close> of a validator's tasks under
    the lock, commit deliveries, the loop's payload attempts and served requests in any interleaving.
  \<^item> \<open>Rpc\<close>: \<^verbatim>\<open>server_rpc/src/rpc.rs\<close>, one definition per method, \<open>dispatch_inner\<close>, single and batch bodies.
    \<open>Server\<close>: its router, CORS, preflight, explorer and metrics answers, and the activity of a served node.
  \<^item> \<open>Fork\<close>: \<^verbatim>\<open>kanari-node/src/fork.rs\<close>. \<open>Cli\<close>: \<^verbatim>\<open>kanari-node/src/main.rs\<close>; a process runs, ends with a message or aborts.
  \<^item> This theory: the properties that go from the command line to convergence, from a submission to the receipts of all
    validators, and from a restart to the answers.

  \<^bold>\<open>Interfaces.\<close> Locales state what one part relies on in another: \<open>fixed_codec\<close> (interpreted for the integer
  encodings, hex text and account leaves), \<open>block_log_store\<close> (the append-only block log that \<open>Store\<close> provides),
  \<open>sealer\<close> and its extension \<open>clean_sealer\<close> (what the commit loop needs of \<open>seal_committed\<close>), \<open>node_invariant\<close> (what
  survives any activity of a served node, interpreted for the counters and for the chain), \<open>cell_contract\<close> (the
  storage cell that the demo bytecode implements).

  \<^bold>\<open>What is shown.\<close>
  \<^item> The chain: after any steps the chain is numbered, linked, indexed and equal to its stored copy; sealing is atomic,
    fails without trace and is the same on all replicas; a restart reproduces blocks, receipts, an indistinguishable state
    and every answer, after any run of seals, submissions, drips, account lookups, key changes and served requests that
    neither read contract storage nor execute code; a replay that succeeds has sealed every transaction of the stored
    blocks again (a stored block without transactions is skipped); every receipt leads to its transaction; the head
    hash commits to numbers, times and hashes of the history, or the two chains exhibit a collision.
  \<^item> Money: the base-fee rule equals EIP-1559 on unbounded integers within stated bounds, the sum of
    all balances never exceeds the reported supply, that of the genesis, and equals it while executions burn the base fee
    and nothing else, drips are capped and solvent. Genesis panics exactly on code that revm rejects.
  \<^item> Commitment: leaves separate accounts and slots, proofs reflect the state.
  \<^item> Consensus: a commit loses and duplicates no payload, is swept to fixation, terminates (\<open>sweep\<close> is total: every pass
    that continues shortens the queue), and validators with the same commits agree; each key file of a
    generated committee joins the DAG as its own validator; a submission to the mesh is in the next block its core
    proposes, and over cores that keep the protocol's agreement under any schedule the chains are prefixes of each
    other; requests served in between, even within a sweep, are invisible to the outcome and do not keep a sweep from ending.
  \<^item> The server: any HTTP request keeps the chain consistent, every request is answered in order with its id, a sent
    transaction is served by the lookups, log filters are exact, transaction views show what was executed (up to the
    type of EIP-2930 and EIP-1559 transactions, which run as type 0), a trace of the first block reports the status of its
    receipt, the metrics page reports the length of the chain.
  \<^item> The rest: the registry hands out a live database again and counts the handle, the import of a
    checkpoint is exact, reset removes exactly the state files or stops at the first it cannot remove, the demo bytecode
    implements a cell and its init code deploys it.
  \<^item> Deviations found while modelling are theorems too, at the end of their theories: a storage read between seals that
    makes the next restart fail, the fork command that never serves, the faucet key replaced at every start, a race of
    two openers, a trace state without fee shares, a diverging replay that overwrites the store, state files that share
    a database, and several parameter checks of the server.

  \<^bold>\<open>Assumptions on third-party code\<close> are predicates on its record, hypotheses of the theorems that need them, and
  satisfied by \<open>Instances\<close> or by a sample in the same theory: \<open>db_ok\<close>, \<open>storage_insert_ok\<close>,
  \<open>never_mints\<close> (revm), \<open>burns_base_fee\<close> (only of the executions of a run, as \<open>burns_on_run\<close>: a contract that destroys
  its balance in the transaction that creates it burns more), \<open>rejects_cleanly\<close>, \<open>lookups_unobserved\<close>,
  \<open>executions_unobserved\<close>, \<open>traffic_unobserved\<close> (rejected transactions and lookups change nothing that can be observed in a database, discarded executions and their traces
  nothing but leaves), \<open>kv_ok\<close>, \<open>kv_reliable\<close>, \<open>smt_ok\<close> (RocksDB and the tree), \<open>codec_ok\<close> (serde), \<open>text_ok\<close>,
  \<open>u256_text_ok\<close> (printing and parsing of addresses and numbers), \<open>tracer_ok\<close> (the inspector reports
  the result of execution without it and writes JSON lines), \<open>dir_lock\<close> (the lock of a
  database directory), \<open>files_ok\<close>, \<open>key_json_ok\<close> (key files), \<open>serves\<close> (a remote endpoint), \<open>cores_agree\<close> (the
  agreement that the DAG protocol promises of its cores under any schedule of proposals and deliveries), \<open>mempool_ok\<close>
  (a block proposed after a drain holds what waited in the channel), \<open>storage_opens\<close> (the DAG log), \<open>installs_once\<close> (the
  tracing subscriber).
  \<open>env_ok\<close> collects those of a node on a working disk; theorems on failing
  disks use \<open>kv_ok\<close> only. The restart theorems speak of runs without reads of contract storage and calls, which may
  leave leaves in the cache; \<open>Reads\<close> shows that the code does not satisfy more.

  \<^bold>\<open>Bounds and fuel.\<close> Integers keep their width. Chains are shorter than \<open>2^64\<close> blocks, since block numbers are \<open>u64\<close>
  and wrap. Bytecode runs with fuel, 24 instructions for the runtime and 9 for the init code; the theorems state the
  result of the run, so the fuel is enough. All other definitions are total functions.

  \<^bold>\<open>Not modelled\<close>: the DAG, its network and its block store (third-party, arguments of \<open>Dag\<close>), the HTTP library, log and
  console output, signals, argument parsing by clap, and the accessors that return a field. Tests and benchmarks are
  not part of the program.
\<close>

section \<open>From the command line to convergence\<close>

lemma started_in_step:
  assumes env: "env_ok (ho_ext a) root_of" "env_ok (ho_ext b) root_of" "same_env (ho_ext a) (ho_ext b)"
    and fresh_a: "\<And>p. \<exists>h. ho_open_db a p = Inr h \<and> fresh_store (x_kv (ho_ext a)) h" "\<And>p. lf_journal (ho_legacy a p) = None"
    and fresh_b: "\<And>p. \<exists>h. ho_open_db b p = Inr h \<and> fresh_store (x_kv (ho_ext b)) h" "\<And>p. lf_journal (ho_legacy b p) = None"
    and run: "run_validator a ca ka da pa ha fkey = Runs (v, sv)" "run_validator b cb kb db pb hb fkey = Runs (w, sw)"
  shows "in_step (ho_ext a) True v w"
proof -
  have same: "x_revm (ho_ext a) = x_revm (ho_ext b)" "x_crypto (ho_ext a) = x_crypto (ho_ext b)"
    using env(3) by (simp_all add: same_env_def)
  show ?thesis
    by (rule run_validator_node [OF env(1) fresh_a run(1), unfolded same], rule run_validator_node [OF env(2) fresh_b run(2)])
      (simp add: in_step_def same_replica_def)
qed

text \<open>
  C12. Validators started alike converge: two validators started from the command line on empty data directories, each
  with its own files, ports and disk, but with the same \<open>--faucet-key\<close> (or none on both), agree on blocks, state,
  receipts, the last timestamp and the pending payloads after any common sequence of commits.
\<close>

theorem validators_started_alike_converge:
  assumes "env_ok (ho_ext a) root_of" and "env_ok (ho_ext b) root_of" and "same_env (ho_ext a) (ho_ext b)"
    and "\<And>p. \<exists>h. ho_open_db a p = Inr h \<and> fresh_store (x_kv (ho_ext a)) h" and "\<And>p. lf_journal (ho_legacy a p) = None"
    and "\<And>p. \<exists>h. ho_open_db b p = Inr h \<and> fresh_store (x_kv (ho_ext b)) h" and "\<And>p. lf_journal (ho_legacy b p) = None"
    and "run_validator a ca ka da pa ha fkey = Runs (v, sv)" and "run_validator b cb kb db pb hb fkey = Runs (w, sw)"
  shows "in_step (ho_ext a) True (execute_commits (ho_ext a) cs v) (execute_commits (ho_ext b) cs w)"
proof -
  have "working_disk (ho_ext a) root_of" "working_disk (ho_ext b) root_of"
    using assms(1,2) by (simp_all add: env_ok_def)
  from execute_commits_in_step [OF assms(3) this started_in_step [OF assms]] show ?thesis .
qed

lemma mem_validator_runs:
  assumes "i < 4"
  shows "\<exists>v sv. run_validator mem_host COMMITTEE_FILENAME (key_filename (i + 1)) None None ''127.0.0.1'' None = Runs (v, sv)"
proof -
  have fs: "fresh_store (x_kv mem_ext) mem_empty" "lf_journal no_legacy = None"
    by (simp_all add: mem_fresh_store no_legacy_def)
  have rv: "db_ok (x_revm mem_ext)" "storage_insert_ok (x_revm mem_ext)" "cs_genesis_code devnet = []"
    by (simp_all add: mem_db_ok mem_storage_insert_ok devnet_def)
  obtain db where db: "apply_genesis (x_revm mem_ext) devnet (rv_default (x_revm mem_ext)) = Returns db"
    by (rule apply_genesis_no_code [OF rv])
  obtain n0 where n0: "open_node mem_ext no_legacy devnet (Inr mem_empty) = Returns (Inr n0)"
    by (rule open_fresh [OF mem_env_ok fs db])
  obtain lv where lv: "load_validator mem_keys (snd (generate_committee mem_keys sample_seeds ''h'' 3500 Map.empty))
    COMMITTEE_FILENAME (key_filename (i + 1)) = Inr lv" using sample_load [OF assms] by blast
  let ?dir = "''./.kanari-evm-validator-'' @ decimal (lv_index lv + 1)"
  obtain v where "spawn_validator mem_host COMMITTEE_FILENAME (key_filename (i + 1)) ?dir n0 = Runs v"
    using idle_spawn [OF assms, of "\<lparr>vo_committee_path = COMMITTEE_FILENAME, vo_key_path = key_filename (i + 1),
      vo_dag_wal_dir = Some (join_dir ?dir ''dag-wal''), vo_round_timeout = DEFAULT_ROUND_TIMEOUT\<rparr>" n0]
    by (auto simp: spawn_validator_def)
  with n0 lv show ?thesis
    by (simp add: run_validator_def open_process_def validator_faucet_def serve_rpc_def Let_def unwrap_or_def)
qed

theorem validators_started_alike_converge_witness:
  "\<exists>v sv w sw. run_validator mem_host COMMITTEE_FILENAME (key_filename (0 + 1)) None None ''127.0.0.1'' None = Runs (v, sv)
     \<and> run_validator mem_host COMMITTEE_FILENAME (key_filename (1 + 1)) None None ''127.0.0.1'' None = Runs (w, sw)
     \<and> in_step mem_ext True (execute_commits mem_ext [sample_commit] v) (execute_commits mem_ext [sample_commit] w)"
proof -
  obtain v sv where v: "run_validator mem_host COMMITTEE_FILENAME (key_filename (0 + 1)) None None ''127.0.0.1'' None = Runs (v, sv)"
    using mem_validator_runs [of 0] by auto
  obtain w sw where w: "run_validator mem_host COMMITTEE_FILENAME (key_filename (1 + 1)) None None ''127.0.0.1'' None = Runs (w, sw)"
    using mem_validator_runs [of 1] by auto
  have env: "env_ok (ho_ext mem_host) leaf_count" "same_env (ho_ext mem_host) (ho_ext mem_host)"
    by (simp_all add: mem_env_ok same_env_def)
  from validators_started_alike_converge [OF env(1,1,2) mem_host_fresh mem_host_fresh v w, of "[sample_commit]"] v w
  show ?thesis by auto
qed

section \<open>From submission to receipt\<close>

text \<open>What the commit loop does to a node is a sequence of its steps.\<close>

lemma reachable_trans: "reachable x m k \<Longrightarrow> reachable x n m \<Longrightarrow> reachable x n k"
  by (induction rule: reachable.induct) (auto intro: reachable.step)

lemma seal_pass_reachable:
  "seal_pass (seal_committed x) ts raws n = (p, k, still, n') \<Longrightarrow> reachable x n n'"
proof (induction raws arbitrary: n p k still n')
  case (Cons raw raws)
  obtain r n1 where s: "seal_committed x n raw ts = (r, n1)" by (cases "seal_committed x n raw ts")
  obtain p' k' still' n2 where rest: "seal_pass (seal_committed x) ts raws n1 = (p', k', still', n2)"
    by (cases "seal_pass (seal_committed x) ts raws n1") auto
  have "n' = n2" using Cons.prems s rest by (cases r) simp_all
  with reachable_trans [OF Cons.IH [OF rest]] reachable.step [OF reachable.init node_step.seal [OF s]] show ?case by simp
qed (simp add: reachable.init)

lemma sweep_reachable: "sweep (seal_committed x) ts raws n = (k, rest, n') \<Longrightarrow> reachable x n n'"
proof (induction "length raws" arbitrary: raws n k rest n' rule: less_induct)
  case less
  obtain p k1 still n1 where pass: "seal_pass (seal_committed x) ts raws n = (p, k1, still, n1)"
    by (cases "seal_pass (seal_committed x) ts raws n") auto
  note first = seal_pass_reachable [OF pass]
  show ?case
  proof (cases "\<not> p \<or> still = []")
    case True
    with less.prems pass first show ?thesis by (auto simp: sweep.simps [of _ ts raws])
  next
    case False
    obtain k2 rest2 n2 where sw: "sweep (seal_committed x) ts still n1 = (k2, rest2, n2)"
      by (cases "sweep (seal_committed x) ts still n1") auto
    from False seal_pass_length [OF pass] have "length still < length raws" by simp
    from reachable_trans [OF less.hyps [OF this sw] first] less.prems pass False sw show ?thesis
      by (simp add: sweep.simps [of _ ts raws])
  qed
qed

lemma execute_commit_reachable: "reachable x (vs_node v) (vs_node (execute_commit x c v))"
proof -
  obtain k rest n' where sw: "sweep (seal_committed x) (max (commit_timestamp c) (vs_last_ts v))
      (enqueue (vs_pending v) (ordered_payloads [c])) (note_commit (vs_node v)) = (k, rest, n')"
    by (cases "sweep (seal_committed x) (max (commit_timestamp c) (vs_last_ts v))
      (enqueue (vs_pending v) (ordered_payloads [c])) (note_commit (vs_node v))") auto
  from reachable_trans [OF sweep_reachable [OF this] reachable.step [OF reachable.init node_step.commit]] sw
  show ?thesis by (simp add: execute_commit_def Let_def)
qed

text \<open>A committed payload is in a block afterwards, or pending, or among the oldest that the cap of the queue drops.\<close>

lemma committed_payload:
  assumes "kv_ok (x_kv x)" "raw \<in> set (ordered_payloads [c])"
  shows "raw \<in> set (vs_pending (execute_commit x c v))
    \<or> (\<exists>b\<in>set (n_blocks (vs_node (execute_commit x c v))). raw \<in> set (sb_txs b))
    \<or> raw \<in> set (take (length (vs_pending v @ ordered_payloads [c]) - 4096) (vs_pending v @ ordered_payloads [c]))"
proof -
  let ?v = "execute_commit x c v" and ?q = "vs_pending v @ ordered_payloads [c]"
  have q: "enqueue (vs_pending v) (ordered_payloads [c]) = drop (length ?q - 4096) ?q"
    by (simp add: enqueue_def MAX_PENDING_PAYLOADS_def Let_def)
  obtain dn where dn: "tx_log (vs_node ?v) = tx_log (vs_node v) @ map (\<lambda>r. (r, max (commit_timestamp c) (vs_last_ts v))) dn"
      "mset dn + mset (vs_pending ?v) = mset (drop (length ?q - 4096) ?q)"
    using execute_commit_log [OF assms(1), of c v] unfolding q by auto
  have "set dn \<union> set (vs_pending ?v) = set (drop (length ?q - 4096) ?q)"
    using dn(2) by (metis set_mset_mset set_mset_union)
  moreover have "raw \<in> set (take (length ?q - 4096) ?q) \<union> set (drop (length ?q - 4096) ?q)"
    using assms(2) by (metis UnCI append_take_drop_id set_append)
  ultimately consider "raw \<in> set (vs_pending ?v)" | "raw \<in> set dn" | "raw \<in> set (take (length ?q - 4096) ?q)" by blast
  then show ?thesis
  proof cases
    case 2
    then have "raw \<in> fst ` set (tx_log (vs_node ?v))" by (force simp: dn(1))
    then show ?thesis by (auto simp: tx_log_def)
  qed simp_all
qed

lemma receipt_served:
  assumes "text_ok (re_text e)" "n_receipts n hash = Some r" "sr_tx_hash r = hash"
  shows "\<exists>rec. eth_getTransactionReceipt e n rid (JArr [JStr (to_hash (re_text e) hash)]) = (Returns (ok rid (JObj rec)), n)
    \<and> jget rec ''transactionHash'' = Some (JStr (to_hash (re_text e) hash))"
proof -
  have "parse_hash (re_text e) (JStr (to_hash (re_text e) hash)) = Inr hash"
    using assms(1) by (simp add: parse_hash_def as_str_def text_ok_def ok_or_def)
  with assms(2,3) show ?thesis
    by (auto simp: eth_getTransactionReceipt_def params_arr_def as_array_def view_or_null_def receipt_view_def jget_def
        Let_def split: prod.splits)
qed

text \<open>
  C8. A transaction sent to one validator reaches all of them: a submission that a validator answers without error seals
  nothing there and is put last into the channel to the DAG. Whenever a commit carries it to a validator whose chain and
  store are consistent, that validator, after executing the commit, keeps it pending, or serves a receipt under the hash
  that the sender was given, or has dropped it because it was among the oldest payloads that its queue had over its cap
  of 4096 when the commit arrived.
\<close>

theorem submission_served_by_every_validator:
  assumes "text_ok (re_text e)" and "n_dag_sender n = Some sent"
    and "eth_sendRawTransaction e n now rid (JArr [JStr (hex_prefixed raw)]) = (Returns resp, n')" and "rp_error resp = None"
    and "re_text f = re_text e" and "x_crypto (re_ext f) = x_crypto (re_ext e)"
    and "kv_ok (x_kv (re_ext f))" and "codec_ok (x_codec (re_ext f))"
    and "ledger_ok (x_crypto (re_ext f)) (vs_node v)" and "mirrored (re_ext f) (vs_node v)"
    and "raw \<in> set (ordered_payloads [c])"
    and "length (n_blocks (vs_node (execute_commit (re_ext f) c v))) + 1 < 2 ^ 64"
  shows "\<exists>h. rp_result resp = Some (JStr h) \<and> n' = n\<lparr>n_dag_sender := Some (sent @ [[raw]])\<rparr>
    \<and> (let w = execute_commit (re_ext f) c v in raw \<in> set (vs_pending w)
       \<or> (\<exists>rec. eth_getTransactionReceipt f (vs_node w) rid' (JArr [JStr h]) = (Returns (ok rid' (JObj rec)), vs_node w)
             \<and> jget rec ''transactionHash'' = Some (JStr h))
       \<or> (let q = vs_pending v @ ordered_payloads [c] in raw \<in> set (take (length q - 4096) q)))"
proof -
  let ?hash = "keccak256 (x_crypto (re_ext e)) raw"
  let ?w = "execute_commit (re_ext f) c v"
  have "parse_bytes (re_text e) (JStr (hex_prefixed raw)) = Inr raw"
    using assms(1) by (simp add: parse_bytes_def as_str_def text_ok_def ok_or_def)
  with assms(2-4) have sent: "rp_result resp = Some (JStr (to_hash (re_text e) ?hash))"
      "n' = n\<lparr>n_dag_sender := Some (sent @ [[raw]])\<rparr>"
    by (auto simp: eth_sendRawTransaction_def params_arr_def as_array_def reply_def ok_def node_error_def err_def
        send_raw_transaction_def split: sum.splits)
  have inv: "node_inv (re_ext f) (vs_node ?w)"
    using reachable_inv [OF assms(7,8) _ execute_commit_reachable assms(12)] assms(9,10) by (simp add: node_inv_def)
  let ?q = "vs_pending v @ ordered_payloads [c]"
  show ?thesis
  proof (cases "raw \<in> set (vs_pending ?w) \<or> raw \<in> set (take (length ?q - 4096) ?q)")
    case False
    with committed_payload [OF assms(7,11), of v] obtain b where "b \<in> set (n_blocks (vs_node ?w))" "raw \<in> set (sb_txs b)" by blast
    with inv assms(6) obtain r where "n_receipts (vs_node ?w) ?hash = Some r" "sr_tx_hash r = ?hash"
      unfolding node_inv_def ledger_ok_def receipts_ok_def by (metis not_None_eq)
    with receipt_served [of f "vs_node ?w" ?hash r rid'] assms(1,5) have
      "\<exists>rec. eth_getTransactionReceipt f (vs_node ?w) rid' (JArr [JStr (to_hash (re_text e) ?hash)])
          = (Returns (ok rid' (JObj rec)), vs_node ?w)
        \<and> jget rec ''transactionHash'' = Some (JStr (to_hash (re_text e) ?hash))" by simp
    with sent show ?thesis by (auto simp: Let_def)
  qed (use sent in \<open>auto simp: Let_def\<close>)
qed

theorem submission_served_by_every_validator_witness:
  "\<exists>n0 resp n' h rec. open_node mem_ext no_legacy mem_spec (Inr mem_empty) = Returns (Inr n0)
     \<and> eth_sendRawTransaction mem_rpc (set_dag_sender n0) 5 (JInt 1) (JArr [JStr (hex_prefixed [1])]) = (Returns resp, n')
     \<and> n_dag_sender n' = Some [[[1]]] \<and> rp_result resp = Some (JStr h)
     \<and> fst (eth_getTransactionReceipt mem_rpc (vs_node (execute_commit mem_ext sample_commit (start_validator n0))) (JInt 2)
          (JArr [JStr h])) = Returns (ok (JInt 2) (JObj rec))"
proof -
  obtain n0 where n0: "open_node mem_ext no_legacy mem_spec (Inr mem_empty) = Returns (Inr n0)"
    "same_replica mem_ext True mem_node n0" by (rule mem_open)
  obtain m0 where "open_node mem_ext no_legacy mem_spec (Inr mem_empty) = Returns (Inr m0)" "node_inv mem_ext m0"
    by (rule mem_open_inv)
  with n0(1) have inv: "node_inv mem_ext n0" by simp
  let ?v = "start_validator n0"
  have rep: "same_replica mem_ext True mem_node (note_commit (vs_node ?v))"
    using n0(2) by (simp add: same_replica_def note_commit_def start_validator_def set_dag_sender_def)
  obtain n1 where n1: "seal_committed mem_ext (note_commit (vs_node ?v)) [1] 100 = (Inr 1, n1)" "length (n_blocks n1) = 1"
    using mem_open_seal [OF rep] by (elim exE conjE)
  have run: "execute_commit mem_ext sample_commit ?v = \<lparr>vs_node = n1, vs_last_ts = 100, vs_pending = []\<rparr>"
    using n1(1) by (simp add: execute_commit_def start_validator_def sweep.simps enqueue_def MAX_PENDING_PAYLOADS_def)
  have parse: "parse_bytes mem_text (JStr (hex_prefixed [1])) = Inr [1]"
    using mem_text_ok by (simp add: parse_bytes_def as_str_def text_ok_def ok_or_def)
  obtain resp n' where send: "eth_sendRawTransaction mem_rpc (set_dag_sender n0) 5 (JInt 1) (JArr [JStr (hex_prefixed [1])])
      = (Returns resp, n')" and err: "rp_error resp = None"
    using parse by (simp add: eth_sendRawTransaction_def params_arr_def as_array_def reply_def send_raw_transaction_def
        set_dag_sender_def mem_ext_def ok_def)
  have pre: "text_ok (re_text mem_rpc)" "n_dag_sender (set_dag_sender n0) = Some []"
    "kv_ok (x_kv (re_ext mem_rpc))" "codec_ok (x_codec (re_ext mem_rpc))"
    "ledger_ok (x_crypto (re_ext mem_rpc)) (vs_node ?v)" "mirrored (re_ext mem_rpc) (vs_node ?v)"
    "[1] \<in> set (ordered_payloads [sample_commit])"
    "length (n_blocks (vs_node (execute_commit (re_ext mem_rpc) sample_commit ?v))) + 1 < 2 ^ 64"
    using quiet_inv [OF _ inv, of "vs_node ?v"] run n1(2)
    by (simp_all add: mem_text_ok mem_kv_ok mem_codec_ok set_dag_sender_def start_validator_def node_inv_def)
  have "length (vs_pending ?v @ ordered_payloads [sample_commit]) - 4096 = 0" "vs_pending (execute_commit mem_ext sample_commit ?v) = []"
    using run by (simp_all add: start_validator_def)
  with submission_served_by_every_validator [OF pre(1,2) send err refl refl pre(3-8), of "JInt 2"]
  obtain h rec where "rp_result resp = Some (JStr h)" "n' = (set_dag_sender n0)\<lparr>n_dag_sender := Some ([] @ [[[1]]])\<rparr>"
    "eth_getTransactionReceipt mem_rpc (vs_node (execute_commit mem_ext sample_commit ?v)) (JInt 2) (JArr [JStr h])
       = (Returns (ok (JInt 2) (JObj rec)), vs_node (execute_commit mem_ext sample_commit ?v))"
    unfolding Let_def by (auto simp del: length_append)
  moreover from this(2) have "n_dag_sender n' = Some [[[1]]]" by (simp add: set_dag_sender_def)
  ultimately show ?thesis
    using n0(1) send by (intro exI [of _ n0] exI [of _ resp] exI [of _ n'] exI [of _ h] exI [of _ rec]) simp
qed

section \<open>Answers across a restart\<close>

text \<open>What a read answers is a function of the part of a node that replicas share.\<close>

lemma reads_replica:
  assumes "same_replica x roots n m"
  shows "fst (balance_of (x_revm x) n a) = fst (balance_of (x_revm x) m a)"
    "fst (nonce_of (x_revm x) n a) = fst (nonce_of (x_revm x) m a)"
    "fst (code_of (x_revm x) n a) = fst (code_of (x_revm x) m a)"
    "fst (storage_of (x_revm x) n a s) = fst (storage_of (x_revm x) m a s)"
proof -
  have sim: "db_sim (x_revm x) (x_crypto x) roots (n_db n) (n_db m)" using assms by (simp add: same_replica_def)
  show "fst (balance_of (x_revm x) n a) = fst (balance_of (x_revm x) m a)"
    "fst (nonce_of (x_revm x) n a) = fst (nonce_of (x_revm x) m a)"
    using db_sim_ops(1) [OF sim, of a] by (simp_all add: balance_of_cases nonce_of_cases)
  show "fst (code_of (x_revm x) n a) = fst (code_of (x_revm x) m a)"
    using db_sim_ops(1) [OF sim, of a] db_sim_ops(6) [OF db_sim_ops(2) [OF sim, of a]]
    by (auto simp: code_of_def split: prod.splits sum.splits option.splits)
  show "fst (storage_of (x_revm x) n a s) = fst (storage_of (x_revm x) m a s)"
    using db_sim_ops(3) [OF sim, of a s] by (auto simp: storage_of_def split: prod.splits sum.splits)
qed

lemma reply_fst: "fst p = fst q \<Longrightarrow> fst (reply rid f p) = fst (reply rid f q)"
  by (simp add: reply_def split: prod.splits sum.splits)

lemma bad_params_fst: "fst (bad_params rid n msg) = fst (bad_params rid m msg)"
  by (simp add: bad_params_def)

lemma views_replica:
  assumes "same_replica x True n m"
  shows "tx_view cr tx n h = tx_view cr tx m h" "receipt_view cr tx n h = receipt_view cr tx m h"
    "logs_in_range cr n lo hi = logs_in_range cr m lo hi" "node_supply n = node_supply m" "chain_id n = chain_id m"
    "fee_history_entry cr n number = fee_history_entry cr m number"
    "log_block_range tx flt k n = log_block_range tx flt k m"
  using assms unfolding same_replica_def
  by (auto simp only: tx_view_def receipt_view_def view_base_fee_def logs_in_range_def range_blocks_def block_logs_def
     node_supply_def chain_id_def fee_history_entry_def block_gas_used_def block_by_number_def pending_base_fee_def log_block_range_def
     tx_record_def block_by_hash_def) 

lemma outcome_fst:
  "fst p = fst q \<Longrightarrow>
     fst (case p of (Inl e, db) \<Rightarrow> (Inl (f e), n db) | (Inr r, db) \<Rightarrow> (Inr (g r), n db))
     = fst (case q of (Inl e, db) \<Rightarrow> (Inl (f e), m db) | (Inr r, db) \<Rightarrow> (Inr (g r), m db))"
  by (cases p; cases q) (simp split: sum.split)

lemma call_replica:
  assumes "same_replica x roots n m"
  shows "fst (call x n c now) = fst (call x m c now)"
proof -
  let ?from = "case cr_from c of Some a \<Rightarrow> a | None \<Rightarrow> 0"
  let ?start = "\<lambda>n. case cr_nonce c of Some k \<Rightarrow> (k, n)
      | None \<Rightarrow> (case nonce_of (x_revm x) n ?from of (Inr k, n') \<Rightarrow> (k, n') | (Inl _, n') \<Rightarrow> (0, n'))"
  have sim: "db_sim (x_revm x) (x_crypto x) roots (n_db n) (n_db m)" using assms by (simp add: same_replica_def)
  obtain k n1 m1 where s: "?start n = (k, n1)" "?start m = (k, m1)" "same_replica x roots n1 m1"
  proof (cases "cr_nonce c")
    case None
    note look = db_sim_ops(1,2) [OF sim, of ?from]
    have "same_replica x roots (n\<lparr>n_db := snd (rv_basic (x_revm x) (n_db n) ?from)\<rparr>)
        (m\<lparr>n_db := snd (rv_basic (x_revm x) (n_db m) ?from)\<rparr>)"
      using assms look(2) by (simp add: same_replica_def)
    with None look(1) show thesis
      by (intro that [of "fst (?start n)" "snd (?start n)" "snd (?start m)"])
        (auto simp: nonce_of_cases split: sum.splits)
  next
    case (Some k)
    then show thesis using assms by (intro that [of k n m]) simp_all
  qed
  have core: "n_spec n1 = n_spec m1" "block_number n1 = block_number m1"
      "pending_base_fee (x_crypto x) n1 = pending_base_fee (x_crypto x) m1"
    and db: "db_sim (x_revm x) (x_crypto x) roots (n_db n1) (n_db m1)"
    using s(3) block_number_replica [OF s(3)] pending_base_fee_replica [OF s(3)] by (simp_all add: same_replica_def)
  have evm: "evm_for_block x n1 b now = evm_for_block x m1 b now" for b
    by (simp only: evm_for_block_def core)
  show ?thesis
    unfolding call_def Let_def s(1,2) prod.case core evm
    by (rule outcome_fst [OF db_sim_ops(9) [OF db]])
qed

text \<open>Methods that do not look at the store, the genesis root or the faucet key.\<close>

definition replica_methods :: "string set" where
  "replica_methods = - {''eth_sendRawTransaction'', ''kanari_faucet'', ''kanari_getSmtProof'', ''eth_getBlockByHash'',
     ''eth_getBlockByNumber'', ''debug_traceTransaction'', ''debug_traceCall''}"

lemma method_answers_replica:
  assumes "same_replica (re_ext e) True n m"
  shows "fst (eth_getCode e n rid ps) = fst (eth_getCode e m rid ps)"
    "fst (eth_getBalance e n rid ps) = fst (eth_getBalance e m rid ps)"
    "fst (eth_getTransactionCount e n rid ps) = fst (eth_getTransactionCount e m rid ps)"
    "fst (eth_getStorageAt e n rid ps) = fst (eth_getStorageAt e m rid ps)"
    "fst (eth_call e n now b rid ps) = fst (eth_call e m now b rid ps)"
  using assms
  by (auto simp: eth_getCode_def eth_getBalance_def eth_getTransactionCount_def eth_getStorageAt_def eth_call_def
      bad_params_def split: list.splits sum.splits outcome.splits intro!: reply_fst reads_replica call_replica)

lemma view_answers_replica:
  assumes "same_replica (re_ext e) True n m"
  shows "fst (eth_feeHistory e n rid ps) = fst (eth_feeHistory e m rid ps)"
    "fst (eth_gasPrice e n rid) = fst (eth_gasPrice e m rid)"
    "fst (eth_getTransactionByHash e n rid ps) = fst (eth_getTransactionByHash e m rid ps)"
    "fst (eth_getTransactionReceipt e n rid ps) = fst (eth_getTransactionReceipt e m rid ps)"
    "fst (eth_getLogs e n rid ps) = fst (eth_getLogs e m rid ps)"
    "fst (kanari_supply n rid) = fst (kanari_supply m rid)"
  using views_replica [OF assms] block_number_replica [OF assms] pending_base_fee_replica [OF assms]
  by (auto simp: eth_feeHistory_def eth_gasPrice_def eth_getTransactionByHash_def eth_getTransactionReceipt_def
      eth_getLogs_def kanari_supply_def view_or_null_def bad_params_def Let_def cong: map_cong
      split: list.splits sum.splits prod.splits)

lemma dispatch_replica:
  assumes "same_replica (re_ext e) True n m" "rq_method req \<in> replica_methods"
  shows "fst (dispatch_inner e n now req) = fst (dispatch_inner e m now req)"
  using assms(2)
  by (simp add: dispatch_inner_def Let_def replica_methods_def method_answers_replica [OF assms(1)]
      view_answers_replica [OF assms(1)] block_number_replica [OF assms(1)] views_replica(5) [OF assms(1)])

text \<open>
  C13. A restart is invisible to clients: take a node created on an empty store, let it seal, submit, drip, look up
  accounts and change keys, and serve any requests that neither read contract storage nor execute code. Opening its
  store again gives a node that answers every balance, nonce, code, storage, call, estimate, gas price, fee history,
  transaction, receipt, log, supply, chain id and block number request exactly as the running one would have.
\<close>

theorem answers_survive_restart:
  assumes "env_ok (re_ext e) root_of" and "fresh_store (x_kv (re_ext e)) h" and "lf_journal fs = None"
    and "open_node (re_ext e) fs spec (Inr h) = Returns (Inr n0)"
    and "plain_run (re_ext e) n0 n1" and "\<And>t r. (t, r) \<in> set reqs \<Longrightarrow> rq_method r \<notin> leaf_methods"
    and "n = serve_all e reqs n1" and "length (n_blocks n) + 1 < 2 ^ 64" and "restart_spec spec spec'"
    and "rq_method req \<in> replica_methods"
  shows "\<exists>m. open_node (re_ext e) fs' spec' (Inr (n_store n)) = Returns (Inr m)
    \<and> fst (dispatch_inner e m now req) = fst (dispatch_inner e n now req)"
proof -
  have "plain_run (re_ext e) n0 n" unfolding assms(7) by (rule serve_all_plain [OF assms(6,5)])
  then obtain m where m: "open_node (re_ext e) fs' spec' (Inr (n_store n)) = Returns (Inr m)" "same_replica (re_ext e) True n m"
    using restart_replica [OF assms(1-4) _ assms(8,9)] by blast
  from dispatch_replica [OF m(2) assms(10), of now] m(1) show ?thesis by auto
qed

theorem answers_survive_restart_witness:
  "\<exists>n0 n1 n m. open_node mem_ext no_legacy mem_spec (Inr mem_empty) = Returns (Inr n0)
     \<and> seal_committed mem_ext n0 [1] 100 = (Inr 1, n1)
     \<and> n = serve_all mem_rpc [(100, number_request)] n1
     \<and> open_node mem_ext no_legacy mem_spec (Inr (n_store n)) = Returns (Inr m)
     \<and> fst (dispatch_inner mem_rpc m 100 \<lparr>rq_id = JInt 1, rq_method = ''eth_getBalance'',
             rq_params = JArr [JStr (to_address mem_text 0xabc)]\<rparr>)
         = fst (dispatch_inner mem_rpc n 100 \<lparr>rq_id = JInt 1, rq_method = ''eth_getBalance'',
             rq_params = JArr [JStr (to_address mem_text 0xabc)]\<rparr>)"
proof -
  let ?req = "\<lparr>rq_id = JInt 1, rq_method = ''eth_getBalance'', rq_params = JArr [JStr (to_address mem_text 0xabc)]\<rparr>"
  obtain n0 where n0: "open_node mem_ext no_legacy mem_spec (Inr mem_empty) = Returns (Inr n0)" "same_replica mem_ext True mem_node n0"
    by (rule mem_open)
  obtain n1 where n1: "seal_committed mem_ext n0 [1] 100 = (Inr 1, n1)" "length (n_blocks n1) = 1"
    using mem_open_seal [OF n0(2)] by (elim exE conjE)
  have same: "serve_all mem_rpc [(100, number_request)] n1 = n1"
    by (simp add: serve_all_def number_request_def dispatch_inner_def)
  have env: "env_ok (re_ext mem_rpc) leaf_count" "fresh_store (x_kv (re_ext mem_rpc)) mem_empty" "lf_journal no_legacy = None"
    "open_node (re_ext mem_rpc) no_legacy mem_spec (Inr mem_empty) = Returns (Inr n0)"
    by (simp_all add: mem_env_ok mem_fresh_store n0(1)) (simp add: no_legacy_def)
  have sealed: "plain_run (re_ext mem_rpc) n0 n1" using plain_run_seal [OF n1(1)] by simp
  have rest: "length (n_blocks (serve_all mem_rpc [(100, number_request)] n1)) + 1 < 2 ^ 64" "restart_spec mem_spec mem_spec"
    "rq_method ?req \<in> replica_methods"
    by (simp_all add: n1(2) same restart_spec_def replica_methods_def)
  have plain: "rq_method r \<notin> leaf_methods" if "(t, r) \<in> set [(100 :: u64, number_request)]" for t r
    using that by (simp add: number_request_def leaf_methods_def)
  from answers_survive_restart [OF env sealed plain refl rest, where fs' = no_legacy and now = 100] n0(1) n1(1)
  show ?thesis by auto
qed

end
